theory Spec2Isabelle
  imports Main "HOL-Library.Word"
begin

section \<open>Machine integers and characters\<close>

text \<open>
  The program runs on a 32-bit Arm Cortex-M device: \<open>int\<close>, \<open>uint32_t\<close>,
  \<open>unsigned long\<close> and \<open>cy_rslt_t\<close> are 32 bits wide. A C \<open>int\<close> is a 32-bit word
  read through \<open>sint\<close>; its conversion to an unsigned type keeps the bits, so a
  comparison that C performs in unsigned arithmetic is the comparison of the words
  (\<open><\<close> and \<open>\<le>\<close> on words are unsigned, \<open>mod\<close> on words is the unsigned remainder).
  A \<open>uint8_t\<close> holding a character is a \<open>char\<close>.
\<close>

type_synonym u8 = "8 word"
type_synonym u32 = "32 word"
type_synonym cint = "32 word"

section \<open>Macros of main.c\<close>

definition UART_TIMEOUT_MS :: u32 where
  "UART_TIMEOUT_MS = 10"

definition INPUT_TIMEOUT_MS :: u32 where
  "INPUT_TIMEOUT_MS = 120000"

definition UART_GET_CHAR_DELAY :: u32 where
  "UART_GET_CHAR_DELAY = 1"

definition MAX_ATTEMPTS :: u32 where
  "MAX_ATTEMPTS = 500"

definition INIT_DELAY_MS :: u32 where
  "INIT_DELAY_MS = 5"

definition STRING_BUFFER_SIZE :: u32 where
  "STRING_BUFFER_SIZE = 80"

definition RTC_CMD_SET_DATE_TIME :: char where
  "RTC_CMD_SET_DATE_TIME = CHR ''1''"

definition RTC_CMD_CONFIG_DST :: char where
  "RTC_CMD_CONFIG_DST = CHR ''2''"

definition RTC_CMD_ENABLE_DST :: char where
  "RTC_CMD_ENABLE_DST = CHR ''1''"

definition RTC_CMD_DISABLE_DST :: char where
  "RTC_CMD_DISABLE_DST = CHR ''2''"

definition RTC_CMD_QUIT_CONFIG_DST :: char where
  "RTC_CMD_QUIT_CONFIG_DST = CHR ''3''"

definition FIXED_DST_FORMAT :: char where
  "FIXED_DST_FORMAT = CHR ''1''"

definition RELATIVE_DST_FORMAT :: char where
  "RELATIVE_DST_FORMAT = CHR ''2''"

definition MIN_SPACE_KEY_COUNT :: u32 where
  "MIN_SPACE_KEY_COUNT = 5"

definition DST_DISABLED_FLAG :: u32 where
  "DST_DISABLED_FLAG = 0"

definition DST_VALID_START_TIME_FLAG :: u32 where
  "DST_VALID_START_TIME_FLAG = 1"

definition DST_VALID_END_TIME_FLAG :: u32 where
  "DST_VALID_END_TIME_FLAG = 2"

definition DST_ENABLED_FLAG :: u32 where
  "DST_ENABLED_FLAG = 3"

definition LEAP_YEAR_MONTH1 :: u32 where
  "LEAP_YEAR_MONTH1 = 1"

definition LEAP_YEAR_MONTH2 :: u32 where
  "LEAP_YEAR_MONTH2 = 2"

text \<open>
  \<open>IS_LEAP_YEAR(year)\<close>: the operands \<open>4UL\<close>, \<open>100UL\<close>, \<open>400UL\<close> make every remainder an
  unsigned one, of the bits of \<open>year\<close>.
\<close>

definition IS_LEAP_YEAR :: "cint \<Rightarrow> bool" where
  "IS_LEAP_YEAR year =
     ((0 = year mod 4 \<and> 0 \<noteq> year mod 100) \<or> 0 = year mod 400)"

section \<open>What main.c takes from the driver library and the C library\<close>

text \<open>
  The six \<open>int\<close> variables that \<open>sscanf\<close> fills, in the order of the format
  \<open>"%d %d %d %d %d %d"\<close> and of the argument lists at lines 417, 470 and 595.
\<close>

record date_vars =
  v_month :: cint
  v_mday :: cint
  v_hour :: cint
  v_min :: cint
  v_sec :: cint
  v_year :: cint

text \<open>
  Three things that main.c uses are defined outside of it and are parameters of the
  model: the macro \<open>CY_RTC_IS_YEAR_LONG_VALID\<close> (the header comment of
  \<open>validate_date_time\<close> gives the year range as "> 0", the specification as
  non-negative with an upper bound it does not state), the driver function
  \<open>Cy_RTC_ConvertDayOfWeek\<close>, and \<open>sscanf\<close> with the six-integer format, which takes the
  buffer and the old values of the six variables and returns their new values (a
  variable that no conversion reaches keeps its old value).
\<close>

record platform =
  CY_RTC_IS_YEAR_LONG_VALID :: "cint \<Rightarrow> bool"
  Cy_RTC_ConvertDayOfWeek :: "u32 \<Rightarrow> u32 \<Rightarrow> u32 \<Rightarrow> u32"
  sscanf :: "string \<Rightarrow> date_vars \<Rightarrow> date_vars"

text \<open>
  Modelled from the spec: the range macros \<open>CY_RTC_IS_SEC_VALID\<close>,
  \<open>CY_RTC_IS_MIN_VALID\<close>, \<open>CY_RTC_IS_HOUR_VALID\<close> and \<open>CY_RTC_IS_MONTH_VALID\<close> of the
  driver header are missing from the sources; section 4.2 of the specification gives
  their ranges as sec in [0,59], min in [0,59], hour in [0,23] and month in [1,12],
  as does the header comment of \<open>validate_date_time\<close>.
\<close>

definition CY_RTC_IS_SEC_VALID :: "cint \<Rightarrow> bool" where
  "CY_RTC_IS_SEC_VALID sec = (0 \<le> sint sec \<and> sint sec \<le> 59)"

definition CY_RTC_IS_MIN_VALID :: "cint \<Rightarrow> bool" where
  "CY_RTC_IS_MIN_VALID minute = (0 \<le> sint minute \<and> sint minute \<le> 59)"

definition CY_RTC_IS_HOUR_VALID :: "cint \<Rightarrow> bool" where
  "CY_RTC_IS_HOUR_VALID hour = (0 \<le> sint hour \<and> sint hour \<le> 23)"

definition CY_RTC_IS_MONTH_VALID :: "cint \<Rightarrow> bool" where
  "CY_RTC_IS_MONTH_VALID month = (1 \<le> sint month \<and> sint month \<le> 12)"

text \<open>
  Modelled from the spec: the constants \<open>CY_RTC_MONTHS_PER_YEAR\<close> and
  \<open>CY_RTC_DAYS_IN_JANUARY\<close> ... \<open>CY_RTC_DAYS_IN_DECEMBER\<close> of the driver header are
  missing from the sources; section 4.2 gives the table as the twelve entries
  31, 28, 31, 30, 31, 30, 31, 31, 30, 31, 30, 31.
\<close>

definition CY_RTC_MONTHS_PER_YEAR :: nat where
  "CY_RTC_MONTHS_PER_YEAR = 12"

definition days_in_month_table :: "u8 list" where
  "days_in_month_table = [31, 28, 31, 30, 31, 30, 31, 31, 30, 31, 30, 31]"

section \<open>validate_date_time (lines 703-740)\<close>

text \<open>
  Reading an array: \<open>None\<close> when the index is outside of it, where the C program has
  no defined behaviour.
\<close>

definition array_read :: "'a list \<Rightarrow> nat \<Rightarrow> 'a option" where
  "array_read xs i = (if i < length xs then Some (xs ! i) else None)"

text \<open>
  The index of the table read at line 730, \<open>month - LEAP_YEAR_MONTH1\<close>, is computed in
  unsigned arithmetic (\<open>1u\<close>).
\<close>

definition days_index :: "cint \<Rightarrow> nat" where
  "days_index month = unat (month - LEAP_YEAR_MONTH1)"

text \<open>
  Line 737: \<open>mday > 0U\<close> compares in unsigned arithmetic, the bits of \<open>mday\<close> against
  zero; \<open>mday <= days_in_month\<close> promotes the \<open>uint8_t\<close> to \<open>int\<close> and compares signed.
  The \<open>&\<close> of line 725 joins values that are 0 or 1, none of which has an effect, and
  is the conjunction. The result is \<open>None\<close> when the table is read outside its bounds.
\<close>

definition validate_date_time ::
  "platform \<Rightarrow> cint \<Rightarrow> cint \<Rightarrow> cint \<Rightarrow> cint \<Rightarrow> cint \<Rightarrow> cint \<Rightarrow> bool option" where
  "validate_date_time P sec minute hour mday month year =
     (let rslt = (CY_RTC_IS_SEC_VALID sec \<and> CY_RTC_IS_MIN_VALID minute \<and>
                  CY_RTC_IS_HOUR_VALID hour \<and> CY_RTC_IS_MONTH_VALID month \<and>
                  CY_RTC_IS_YEAR_LONG_VALID P year)
      in if rslt then
           (case array_read days_in_month_table (days_index month) of
              None \<Rightarrow> None
            | Some entry \<Rightarrow>
                (let days_in_month =
                       (if IS_LEAP_YEAR year \<and> month = LEAP_YEAR_MONTH2
                        then entry + 1 else entry)
                 in Some (rslt \<and> (0 < mday \<and> sint mday \<le> uint days_in_month))))
         else Some rslt)"

section \<open>The DST transition point (lines 424-436 and 478-489)\<close>

datatype cy_en_rtc_dst_format_t = CY_RTC_DST_RELATIVE | CY_RTC_DST_FIXED

record cy_stc_rtc_dst_format_t =
  dst_format :: cy_en_rtc_dst_format_t
  dst_hour :: u32
  dst_dayOfMonth :: u32
  dst_weekOfMonth :: u32
  dst_dayOfWeek :: u32
  dst_month :: u32

record cy_stc_rtc_dst_t =
  startDst :: cy_stc_rtc_dst_format_t
  stopDst :: cy_stc_rtc_dst_format_t

text \<open>
  The six assignments that \<open>set_dst_feature\<close> makes to \<open>dst_time.startDst\<close> at lines
  424-436 and, with the same right-hand sides, to \<open>dst_time.stopDst\<close> at lines 478-489.
  Each conditional tests \<open>fmt == FIXED_DST_FORMAT\<close>; the \<open>int\<close> values are converted to
  \<open>uint32_t\<close> by the assignment and by the call of \<open>Cy_RTC_ConvertDayOfWeek\<close>.
\<close>

definition dst_point :: "platform \<Rightarrow> char \<Rightarrow> date_vars \<Rightarrow> cy_stc_rtc_dst_format_t" where
  "dst_point P fmt v =
     \<lparr> dst_format = (if fmt = FIXED_DST_FORMAT then CY_RTC_DST_FIXED else CY_RTC_DST_RELATIVE),
       dst_hour = v_hour v,
       dst_dayOfMonth = (if fmt = FIXED_DST_FORMAT then v_mday v else 1),
       dst_weekOfMonth =
         (if fmt = FIXED_DST_FORMAT then 1
          else Cy_RTC_ConvertDayOfWeek P (v_mday v) (v_month v) (v_year v)),
       dst_dayOfWeek =
         (if fmt = FIXED_DST_FORMAT then 1
          else Cy_RTC_ConvertDayOfWeek P (v_mday v) (v_month v) (v_year v)),
       dst_month = v_month v \<rparr>"

text \<open>
  The condition of lines 421-422 and 474-476: the six variables pass
  \<open>validate_date_time\<close> and the format byte is one of the two recognised ones.
  \<open>None\<close> when \<open>validate_date_time\<close> reads outside the table.
\<close>

definition dst_input_ok :: "platform \<Rightarrow> char \<Rightarrow> date_vars \<Rightarrow> bool option" where
  "dst_input_ok P fmt v =
     (case validate_date_time P (v_sec v) (v_min v) (v_hour v) (v_mday v) (v_month v) (v_year v) of
        None \<Rightarrow> None
      | Some valid \<Rightarrow> Some (valid \<and> (fmt = FIXED_DST_FORMAT \<or> fmt = RELATIVE_DST_FORMAT)))"

section \<open>An instance of the parameters\<close>

text \<open>
  For evaluating the model on concrete inputs: \<open>sscanf\<close> with the format
  \<open>"%d %d %d %d %d %d"\<close> as the C standard describes the conversion \<open>%d\<close> (white space
  is skipped, an optional sign and a non-empty run of decimal digits are read, the
  first failing conversion ends the call and leaves the remaining variables as they
  were; a value outside of \<open>int\<close>, which the standard leaves open, wraps), the year
  macro as the header comment of \<open>validate_date_time\<close> documents it (year > 0,
  compared unsigned as at line 737), and the day of the week by Zeller's congruence
  with Saturday as 7.
\<close>

definition isspace :: "char \<Rightarrow> bool" where
  "isspace c = (c = CHR '' '' \<or> c = CHR 0x09 \<or> c = CHR 0x0A \<or> c = CHR 0x0B \<or>
                c = CHR 0x0C \<or> c = CHR 0x0D)"

definition isdigit :: "char \<Rightarrow> bool" where
  "isdigit c = (48 \<le> (of_char c :: nat) \<and> (of_char c :: nat) \<le> 57)"

fun scan_digits :: "int \<Rightarrow> string \<Rightarrow> int \<times> string" where
  "scan_digits acc [] = (acc, [])"
| "scan_digits acc (c # cs) =
     (if isdigit c then scan_digits (10 * acc + (of_char c - 48)) cs else (acc, c # cs))"

definition scan_signed :: "bool \<Rightarrow> string \<Rightarrow> (cint \<times> string) option" where
  "scan_signed neg s =
     (case s of
        [] \<Rightarrow> None
      | c # cs \<Rightarrow>
          if isdigit c
          then (case scan_digits 0 s of
                  (n, rest) \<Rightarrow> Some (word_of_int (if neg then - n else n), rest))
          else None)"

definition scan_d :: "string \<Rightarrow> (cint \<times> string) option" where
  "scan_d s =
     (case dropWhile isspace s of
        [] \<Rightarrow> None
      | c # cs \<Rightarrow>
          if c = CHR ''-'' then scan_signed True cs
          else if c = CHR ''+'' then scan_signed False cs
          else scan_signed False (c # cs))"

fun scan_ints :: "nat \<Rightarrow> string \<Rightarrow> cint list" where
  "scan_ints 0 s = []"
| "scan_ints (Suc n) s =
     (case scan_d s of None \<Rightarrow> [] | Some (x, rest) \<Rightarrow> x # scan_ints n rest)"

definition c_string :: "string \<Rightarrow> string" where
  "c_string buffer = takeWhile (\<lambda>c. c \<noteq> CHR 0x00) buffer"

definition stored :: "cint list \<Rightarrow> nat \<Rightarrow> cint \<Rightarrow> cint" where
  "stored xs i old = (if i < length xs then xs ! i else old)"

definition sscanf_d6 :: "string \<Rightarrow> date_vars \<Rightarrow> date_vars" where
  "sscanf_d6 buffer old =
     (let xs = scan_ints 6 (c_string buffer)
      in \<lparr> v_month = stored xs 0 (v_month old), v_mday = stored xs 1 (v_mday old),
           v_hour = stored xs 2 (v_hour old), v_min = stored xs 3 (v_min old),
           v_sec = stored xs 4 (v_sec old), v_year = stored xs 5 (v_year old) \<rparr>)"

definition zeller_day_of_week :: "u32 \<Rightarrow> u32 \<Rightarrow> u32 \<Rightarrow> u32" where
  "zeller_day_of_week day month year =
     (let m = (if month < 3 then 12 + month else month);
          y = (if month < 3 then year - 1 else year);
          r = (day + ((m + 1) * 26) div 10 + y + y div 4 + 6 * (y div 100) + y div 400) mod 7
      in if r = 0 then 7 else r)"

definition sample_platform :: platform where
  "sample_platform =
     \<lparr> CY_RTC_IS_YEAR_LONG_VALID = (\<lambda>year. 0 < year),
       Cy_RTC_ConvertDayOfWeek = zeller_day_of_week,
       sscanf = sscanf_d6 \<rparr>"

section \<open>The serial line, the RTC driver and the trace of the program\<close>

text \<open>
  The strings that main.c sends with \<open>Cy_SCB_UART_PutString\<close>, one constructor per
  text: the status line (lines 372, 376, 381), the DST menu (385-388), the format
  menu (397-399), the prompts (404, 457, 583), "Invalid values! ..." (411, 443, 465,
  497, 589, 612, which differ in their spacing only), "Timeout" (450, 504, 525, 556,
  620), the confirmations (515, 542, 551, 608) and the line end of \<open>fetch_time_data\<close>
  (679).
\<close>

datatype message =
    MSG_DST_STATUS_ACTIVE
  | MSG_DST_STATUS_INACTIVE
  | MSG_DST_STATUS_DISABLED
  | MSG_DST_COMMANDS
  | MSG_DST_COMMAND_ENABLE
  | MSG_DST_COMMAND_DISABLE
  | MSG_DST_COMMAND_QUIT
  | MSG_DST_FORMAT
  | MSG_DST_FORMAT_FIXED
  | MSG_DST_FORMAT_RELATIVE
  | MSG_ENTER_DST_START
  | MSG_ENTER_DST_END
  | MSG_ENTER_TIME
  | MSG_INVALID_VALUES
  | MSG_TIMEOUT
  | MSG_DST_UPDATED
  | MSG_DST_FEATURE_DISABLED
  | MSG_DST_EXIT
  | MSG_RTC_UPDATED
  | MSG_NEWLINE

text \<open>What the program does to the outside, in the order in which it does it.\<close>

datatype event =
    UART_PutString message
  | UART_Put char
  | SysLib_Delay u32
  | RTC_Init
  | RTC_SetDateAndTimeDirect u32 u32 u32 u32 u32 u32
  | RTC_EnableDstTime cy_stc_rtc_dst_t
  | RTC_GetDstStatus
  | Handle_Error

text \<open>
  The state outside of the functions: \<open>rx\<close> holds the results of the coming calls of
  \<open>Cy_SCB_UART_Get\<close> (\<open>None\<close> is \<open>CY_SCB_UART_RX_NO_DATA\<close>; when the list is used up
  the line stays silent), \<open>rtc_results\<close> the status that the k-th call of an RTC
  driver function returns and \<open>rtc_calls\<close> the number of calls made, \<open>dst_status\<close> what
  \<open>Cy_RTC_GetDstStatus\<close> answers, \<open>dst_data_flag\<close> the global variable of line 95 and
  \<open>trace\<close> the events so far.
\<close>

record world =
  rx :: "char option list"
  rtc_results :: "nat \<Rightarrow> u32"
  rtc_calls :: nat
  dst_status :: bool
  dst_data_flag :: u32
  trace :: "event list"

text \<open>
  The status values of the driver headers, which are not among the sources. The
  program only compares them for equality.
\<close>

definition CY_RSLT_SUCCESS :: u32 where
  "CY_RSLT_SUCCESS = 0"

definition CY_SCB_UART_RX_NO_DATA :: u32 where
  "CY_SCB_UART_RX_NO_DATA = 0xFFFFFFFF"

definition CY_RTC_SUCCESS :: u32 where
  "CY_RTC_SUCCESS = 0"

definition emit :: "event \<Rightarrow> world \<Rightarrow> world" where
  "emit e w = w\<lparr>trace := trace w @ [e]\<rparr>"

definition Cy_SCB_UART_PutString :: "message \<Rightarrow> world \<Rightarrow> world" where
  "Cy_SCB_UART_PutString m w = emit (UART_PutString m) w"

text \<open>
  Modelled from the spec: \<open>Cy_SCB_UART_Put\<close> is a driver function; section 6 has the
  byte sink always succeed, and the function returns the number of bytes it took, 1.
\<close>

definition Cy_SCB_UART_Put :: "char \<Rightarrow> world \<Rightarrow> u32 \<times> world" where
  "Cy_SCB_UART_Put c w = (1, emit (UART_Put c) w)"

definition Cy_SysLib_Delay :: "u32 \<Rightarrow> world \<Rightarrow> world" where
  "Cy_SysLib_Delay ms w = emit (SysLib_Delay ms) w"

definition Cy_SCB_UART_Get :: "world \<Rightarrow> char option \<times> world" where
  "Cy_SCB_UART_Get w = (case rx w of [] \<Rightarrow> (None, w) | r # rs \<Rightarrow> (r, w\<lparr>rx := rs\<rparr>))"

text \<open>A call of an RTC driver function that returns a status.\<close>

definition rtc_call :: "event \<Rightarrow> world \<Rightarrow> u32 \<times> world" where
  "rtc_call e w = (rtc_results w (rtc_calls w), (emit e w)\<lparr>rtc_calls := Suc (rtc_calls w)\<rparr>)"

text \<open>
  \<open>handle_error\<close> (lines 127-133) disables the interrupts and stops in \<open>CY_ASSERT(0)\<close>;
  no function of the model does anything after it.
\<close>

definition handle_error :: "world \<Rightarrow> world" where
  "handle_error w = emit Handle_Error w"

section \<open>user_uart_getc (lines 274-296)\<close>

text \<open>
  The loop of lines 278-293 for \<open>timeout != 0\<close>: \<open>ticks\<close> is \<open>timeoutTicks\<close>, which is
  decremented only when it is positive, and the second argument is \<open>read_value\<close>.
\<close>

fun getc_wait :: "nat \<Rightarrow> char option \<Rightarrow> world \<Rightarrow> char option \<times> world" where
  "getc_wait ticks (Some c) w = (Some c, w)"
| "getc_wait 0 None w = (None, w)"
| "getc_wait (Suc ticks) None w =
     (case Cy_SCB_UART_Get (Cy_SysLib_Delay UART_GET_CHAR_DELAY w) of
        (r, w') \<Rightarrow> getc_wait ticks r w')"

text \<open>
  The same loop for \<open>timeout == 0\<close>, where it only polls: it returns with the first
  byte, and never when the line stays silent (\<open>None\<close>).
\<close>

fun getc_block :: "char option list \<Rightarrow> (char \<times> char option list) option" where
  "getc_block [] = None"
| "getc_block (None # rs) = getc_block rs"
| "getc_block (Some c # rs) = Some (c, rs)"

text \<open>
  The result is the status, the byte in \<open>*value\<close> (unchanged on a timeout) and the
  world; \<open>None\<close> when the call never returns.
\<close>

definition user_uart_getc :: "char \<Rightarrow> u32 \<Rightarrow> world \<Rightarrow> (u32 \<times> char \<times> world) option" where
  "user_uart_getc val timeout w =
     (if timeout \<noteq> 0 then
        (case Cy_SCB_UART_Get w of
           (r, w1) \<Rightarrow>
             (case getc_wait (unat timeout) r w1 of
                (None, w2) \<Rightarrow> Some (CY_SCB_UART_RX_NO_DATA, val, w2)
              | (Some c, w2) \<Rightarrow> Some (CY_RSLT_SUCCESS, c, w2)))
      else
        (case getc_block (rx w) of
           None \<Rightarrow> None
         | Some (c, rs) \<Rightarrow> Some (CY_RSLT_SUCCESS, c, w\<lparr>rx := rs\<rparr>)))"

section \<open>fetch_time_data (lines 642-681)\<close>

text \<open>
  The variables of the function. \<open>fv_passes\<close> is not a variable of the source: it
  counts the passes through the body of the loop, the pass that leaves the loop at the
  budget check of line 651 included.
\<close>

record fetch_vars =
  fv_buffer :: "char list"
  fv_timeout_ms :: u32
  fv_space_count :: u32
  fv_rslt :: u32
  fv_index :: u32
  fv_ch :: char
  fv_passes :: nat

text \<open>Writing an array: \<open>None\<close> when the index is outside of it.\<close>

definition array_write :: "'a list \<Rightarrow> nat \<Rightarrow> 'a \<Rightarrow> 'a list option" where
  "array_write xs i x = (if i < length xs then Some (xs[i := x]) else None)"

datatype 'a loop_step = Break 'a | Continue 'a

text \<open>
  One pass through the body of the \<open>while\<close> loop (lines 651-676): it leaves the loop
  (\<open>Break\<close>) or reaches the end of the body (\<open>Continue\<close>). \<open>None\<close> when
  \<open>user_uart_getc\<close> does not return or the buffer is written outside its bounds.
\<close>

definition fetch_body :: "fetch_vars \<Rightarrow> world \<Rightarrow> (fetch_vars \<times> world) loop_step option" where
  "fetch_body v w =
     (if fv_timeout_ms v \<le> UART_TIMEOUT_MS
      then Some (Break (v\<lparr>fv_rslt := CY_SCB_UART_RX_NO_DATA,
                          fv_passes := Suc (fv_passes v)\<rparr>, w))
      else
        (case user_uart_getc (fv_ch v) UART_TIMEOUT_MS w of
           None \<Rightarrow> None
         | Some (rslt, ch, w1) \<Rightarrow>
             (let v1 = v\<lparr>fv_rslt := rslt, fv_ch := ch, fv_passes := Suc (fv_passes v)\<rparr>
              in if rslt \<noteq> CY_SCB_UART_RX_NO_DATA then
                   (if ch = CHR 0x0A \<or> ch = CHR 0x0D then Some (Break (v1, w1))
                    else
                      (let v2 = (if ch = CHR '' ''
                                 then v1\<lparr>fv_space_count := fv_space_count v1 + 1\<rparr>
                                 else v1)
                       in case array_write (fv_buffer v2) (unat (fv_index v2)) ch of
                            None \<Rightarrow> None
                          | Some buf \<Rightarrow>
                              (case Cy_SCB_UART_Put ch w1 of
                                 (r, w2) \<Rightarrow>
                                   Some (Continue
                                     (v2\<lparr>fv_buffer := buf, fv_rslt := r,
                                         fv_index := fv_index v2 + 1,
                                         fv_timeout_ms := fv_timeout_ms v2 - UART_TIMEOUT_MS\<rparr>,
                                      w2)))))
                 else
                   Some (Continue
                     (v1\<lparr>fv_timeout_ms := fv_timeout_ms v1 - UART_TIMEOUT_MS\<rparr>, w1)))))"

lemma fetch_body_Continue_budget:
  assumes "fetch_body v w = Some (Continue (v', w'))"
  shows "UART_TIMEOUT_MS < fv_timeout_ms v \<and>
         unat (fv_timeout_ms v') + unat UART_TIMEOUT_MS = unat (fv_timeout_ms v)"
proof -
  have gt: "UART_TIMEOUT_MS < fv_timeout_ms v"
    using assms by (auto simp: fetch_body_def split: if_splits)
  then have sub: "unat (fv_timeout_ms v - UART_TIMEOUT_MS) + unat UART_TIMEOUT_MS
      = unat (fv_timeout_ms v)"
    by (simp add: unat_sub word_less_nat_alt word_le_nat_alt)
  have "fv_timeout_ms v' = fv_timeout_ms v - UART_TIMEOUT_MS"
    using assms gt
    by (auto simp: fetch_body_def Let_def Cy_SCB_UART_Put_def
        split: if_splits option.splits prod.splits)
  then show ?thesis using gt sub by simp
qed

text \<open>The \<open>while\<close> loop of line 649.\<close>

function fetch_loop :: "fetch_vars \<Rightarrow> world \<Rightarrow> (fetch_vars \<times> world) option" where
  "fetch_loop v w =
     (if fv_index v < STRING_BUFFER_SIZE then
        (case fetch_body v w of
           None \<Rightarrow> None
         | Some (Break r) \<Rightarrow> Some r
         | Some (Continue (v', w')) \<Rightarrow> fetch_loop v' w')
      else Some (v, w))"
  by pat_completeness auto
termination
proof (relation "measure (\<lambda>(v, w). unat (fv_timeout_ms v))")
  show "wf (measure (\<lambda>(v, w). unat (fv_timeout_ms v)))" by simp
next
  fix v w x2 x2a x y
  assume "fetch_body v w = Some x2" and "x2 = Continue x2a" and "(x, y) = x2a"
  then have "fetch_body v w = Some (Continue (x, y))" by simp
  from fetch_body_Continue_budget [OF this]
  have "unat (fv_timeout_ms x) < unat (fv_timeout_ms v)"
    by (simp add: UART_TIMEOUT_MS_def)
  then show "((x, y), (v, w)) \<in> measure (\<lambda>(v, w). unat (fv_timeout_ms v))" by simp
qed

declare fetch_loop.simps [simp del]

text \<open>
  The variables at the head of the loop (lines 646-648). \<open>rslt\<close> is not initialised
  (line 645); the first pass of the loop assigns it on every path (lines 653 and 658)
  before anything reads it, and the model starts it at \<open>CY_RSLT_SUCCESS\<close>
  (\<open>fetch_body_rslt_init\<close> below: the first pass does not depend on it).
\<close>

definition fetch_init :: "char list \<Rightarrow> u32 \<Rightarrow> fetch_vars" where
  "fetch_init buffer timeout_ms =
     \<lparr> fv_buffer = buffer, fv_timeout_ms = timeout_ms, fv_space_count = 0,
       fv_rslt = CY_RSLT_SUCCESS, fv_index = 0, fv_ch = CHR 0x00, fv_passes = 0 \<rparr>"

text \<open>The result is the status, the buffer, \<open>*space_count\<close> and the world.\<close>

definition fetch_time_data ::
  "char list \<Rightarrow> u32 \<Rightarrow> world \<Rightarrow> (u32 \<times> char list \<times> u32 \<times> world) option" where
  "fetch_time_data buffer timeout_ms w =
     (case fetch_loop (fetch_init buffer timeout_ms) w of
        None \<Rightarrow> None
      | Some (v, w1) \<Rightarrow>
          Some (fv_rslt v, fv_buffer v, fv_space_count v, Cy_SCB_UART_PutString MSG_NEWLINE w1))"

text \<open>Notions for stating what the function does.\<close>

definition is_terminator :: "char \<Rightarrow> bool" where
  "is_terminator c = (c = CHR 0x0A \<or> c = CHR 0x0D)"

definition space_keys :: "string \<Rightarrow> nat" where
  "space_keys line = length (filter (\<lambda>c. c = CHR '' '') line)"

text \<open>
  The effect of one pass of the loop that appends the character \<open>c\<close> (lines 658-676
  with data that is no terminator).
\<close>

definition accept_char :: "fetch_vars \<Rightarrow> char \<Rightarrow> fetch_vars" where
  "accept_char v c =
     v\<lparr> fv_buffer := (fv_buffer v)[unat (fv_index v) := c],
        fv_timeout_ms := fv_timeout_ms v - UART_TIMEOUT_MS,
        fv_space_count := (if c = CHR '' '' then fv_space_count v + 1 else fv_space_count v),
        fv_rslt := 1,
        fv_index := fv_index v + 1,
        fv_ch := c,
        fv_passes := Suc (fv_passes v) \<rparr>"

text \<open>
  The world when the program starts: \<open>dst_data_flag\<close> is initialised to 0 (line 95) and
  nothing has happened yet.
\<close>

definition power_on :: "char option list \<Rightarrow> (nat \<Rightarrow> u32) \<Rightarrow> bool \<Rightarrow> world" where
  "power_on input results status =
     \<lparr> rx = input, rtc_results = results, rtc_calls = 0, dst_status = status,
       dst_data_flag = 0, trace = [] \<rparr>"

section \<open>The retry loops (lines 247-253 and 599-606) and rtc_init\<close>

text \<open>
  \<open>rtc_init\<close> and \<open>set_new_time\<close> run the same \<open>do ... while\<close> loop around a driver
  call: the call, \<open>attempts--\<close>, the delay, and again while the call has failed and
  \<open>attempts\<close> is not zero. \<open>call\<close> is the event of the driver call.
\<close>

function rtc_retry :: "event \<Rightarrow> u32 \<Rightarrow> world \<Rightarrow> u32 \<times> world" where
  "rtc_retry call attempts w =
     (case rtc_call call w of
        (rslt, w1) \<Rightarrow>
          (if rslt \<noteq> CY_RTC_SUCCESS \<and> attempts - 1 \<noteq> 0
           then rtc_retry call (attempts - 1) (Cy_SysLib_Delay INIT_DELAY_MS w1)
           else (rslt, Cy_SysLib_Delay INIT_DELAY_MS w1)))"
  by pat_completeness auto
termination
proof (relation "measure (\<lambda>(call, attempts, w). unat (attempts - 1))")
  show "wf (measure (\<lambda>(call, attempts, w). unat (attempts - 1)))" by simp
next
  fix call :: event and attempts :: u32 and w :: world and x :: "u32 \<times> world" and rslt w1
  assume "rslt \<noteq> CY_RTC_SUCCESS \<and> attempts - 1 \<noteq> 0"
  then have nz: "attempts - 1 \<noteq> 0" by (rule conjunct2)
  then have "unat (attempts - 1 - 1) = unat (attempts - 1) - 1" by (rule unat_minus_one)
  moreover have "0 < unat (attempts - 1)" using nz unat_gt_0 [of "attempts - 1"] by blast
  ultimately have "unat (attempts - 1 - 1) < unat (attempts - 1)" by linarith
  then show "((call, attempts - 1, Cy_SysLib_Delay INIT_DELAY_MS w1), call, attempts, w)
      \<in> measure (\<lambda>(call, attempts, w). unat (attempts - 1))"
    by (simp only: in_measure prod.case)
qed

declare rtc_retry.simps [simp del]

definition rtc_init :: "world \<Rightarrow> u32 \<times> world" where
  "rtc_init w = rtc_retry RTC_Init MAX_ATTEMPTS w"

text \<open>Lines 186-190 of \<open>main\<close>: the call of \<open>rtc_init\<close> and the check of its result.\<close>

definition main_rtc_init :: "world \<Rightarrow> world" where
  "main_rtc_init w =
     (case rtc_init w of
        (rtcSta, w1) \<Rightarrow> if rtcSta \<noteq> CY_RTC_SUCCESS then handle_error w1 else w1)"

section \<open>set_new_time (lines 573-622)\<close>

definition zero_buffer :: "char list" where
  "zero_buffer = replicate (unat STRING_BUFFER_SIZE) (CHR 0x00)"

text \<open>The call of line 600 with the six variables converted to \<open>uint32_t\<close>.\<close>

definition set_date_and_time_direct :: "date_vars \<Rightarrow> event" where
  "set_date_and_time_direct v =
     RTC_SetDateAndTimeDirect (v_sec v) (v_min v) (v_hour v) (v_mday v) (v_month v) (v_year v)"

text \<open>
  The six \<open>int\<close> variables of the function are not initialised (line 581): \<open>locals\<close> is
  what they hold when \<open>sscanf\<close> is called.
\<close>

definition set_new_time :: "platform \<Rightarrow> date_vars \<Rightarrow> u32 \<Rightarrow> world \<Rightarrow> world option" where
  "set_new_time P locals timeout_ms w =
     (case fetch_time_data zero_buffer timeout_ms (Cy_SCB_UART_PutString MSG_ENTER_TIME w) of
        None \<Rightarrow> None
      | Some (rslt, buffer, space_count, w1) \<Rightarrow>
          if rslt \<noteq> CY_SCB_UART_RX_NO_DATA then
            (if space_count \<noteq> MIN_SPACE_KEY_COUNT
             then Some (Cy_SCB_UART_PutString MSG_INVALID_VALUES w1)
             else
               (case rtc_retry (set_date_and_time_direct (sscanf P buffer locals))
                       MAX_ATTEMPTS w1 of
                  (rslt', w2) \<Rightarrow>
                    (let w3 = Cy_SCB_UART_PutString MSG_RTC_UPDATED w2
                     in if CY_RTC_SUCCESS \<noteq> rslt'
                        then Some (handle_error (Cy_SCB_UART_PutString MSG_INVALID_VALUES w3))
                        else Some w3)))
          else Some (Cy_SCB_UART_PutString MSG_TIMEOUT w1))"

section \<open>set_dst_feature (lines 353-558)\<close>

text \<open>The status line (lines 368-382).\<close>

definition dst_status_display :: "world \<Rightarrow> world" where
  "dst_status_display w =
     (if DST_ENABLED_FLAG = dst_data_flag w then
        (let w1 = emit RTC_GetDstStatus w
         in if dst_status w1 then Cy_SCB_UART_PutString MSG_DST_STATUS_ACTIVE w1
            else Cy_SCB_UART_PutString MSG_DST_STATUS_INACTIVE w1)
      else Cy_SCB_UART_PutString MSG_DST_STATUS_DISABLED w)"

text \<open>The menu (lines 385-388).\<close>

definition dst_menu :: "world \<Rightarrow> world" where
  "dst_menu w =
     Cy_SCB_UART_PutString MSG_DST_COMMAND_QUIT
       (Cy_SCB_UART_PutString MSG_DST_COMMAND_DISABLE
         (Cy_SCB_UART_PutString MSG_DST_COMMAND_ENABLE
           (Cy_SCB_UART_PutString MSG_DST_COMMANDS w)))"

text \<open>The format menu (lines 397-399).\<close>

definition dst_format_menu :: "world \<Rightarrow> world" where
  "dst_format_menu w =
     Cy_SCB_UART_PutString MSG_DST_FORMAT_RELATIVE
       (Cy_SCB_UART_PutString MSG_DST_FORMAT_FIXED
         (Cy_SCB_UART_PutString MSG_DST_FORMAT w))"

text \<open>The six \<open>int\<close> variables as line 366 initialises them.\<close>

definition zero_vars :: date_vars where
  "zero_vars = \<lparr> v_month = 0, v_mday = 0, v_hour = 0, v_min = 0, v_sec = 0, v_year = 0 \<rparr>"

text \<open>
  Lines 404-451: the start time is read; when it is valid, \<open>dst_time.startDst\<close> is
  assigned and the flag is set. The result is the six variables, \<open>dst_time\<close> and the
  world.
\<close>

definition dst_start_entry ::
  "platform \<Rightarrow> char \<Rightarrow> u32 \<Rightarrow> date_vars \<Rightarrow> cy_stc_rtc_dst_t \<Rightarrow> world \<Rightarrow>
   (date_vars \<times> cy_stc_rtc_dst_t \<times> world) option" where
  "dst_start_entry P fmt timeout_ms vars dst_time w =
     (case fetch_time_data zero_buffer timeout_ms
             (Cy_SCB_UART_PutString MSG_ENTER_DST_START w) of
        None \<Rightarrow> None
      | Some (rslt, dst_start_buffer, space_count, w1) \<Rightarrow>
          if rslt \<noteq> CY_SCB_UART_RX_NO_DATA then
            (if space_count \<noteq> MIN_SPACE_KEY_COUNT
             then Some (vars, dst_time, Cy_SCB_UART_PutString MSG_INVALID_VALUES w1)
             else
               (let vars' = sscanf P dst_start_buffer vars
                in case dst_input_ok P fmt vars' of
                     None \<Rightarrow> None
                   | Some ok \<Rightarrow>
                       if ok
                       then Some (vars', dst_time\<lparr>startDst := dst_point P fmt vars'\<rparr>,
                                  w1\<lparr>dst_data_flag := DST_VALID_START_TIME_FLAG\<rparr>)
                       else Some (vars', dst_time,
                                  Cy_SCB_UART_PutString MSG_INVALID_VALUES w1)))
          else Some (vars, dst_time, Cy_SCB_UART_PutString MSG_TIMEOUT w1))"

text \<open>
  Lines 453-506: under the condition \<open>DST_VALID_START_TIME_FLAG == dst_data_flag\<close> the
  end time is read; when it is valid, \<open>dst_time.stopDst\<close> is assigned and the flag is
  set.
\<close>

definition dst_end_entry ::
  "platform \<Rightarrow> char \<Rightarrow> u32 \<Rightarrow> date_vars \<Rightarrow> cy_stc_rtc_dst_t \<Rightarrow> world \<Rightarrow>
   (date_vars \<times> cy_stc_rtc_dst_t \<times> world) option" where
  "dst_end_entry P fmt timeout_ms vars dst_time w =
     (if DST_VALID_START_TIME_FLAG = dst_data_flag w then
        (case fetch_time_data zero_buffer timeout_ms
                (Cy_SCB_UART_PutString MSG_ENTER_DST_END w) of
           None \<Rightarrow> None
         | Some (rslt, dst_end_buffer, space_count, w1) \<Rightarrow>
             if rslt \<noteq> CY_SCB_UART_RX_NO_DATA then
               (if space_count \<noteq> MIN_SPACE_KEY_COUNT
                then Some (vars, dst_time, Cy_SCB_UART_PutString MSG_INVALID_VALUES w1)
                else
                  (let vars' = sscanf P dst_end_buffer vars
                   in case dst_input_ok P fmt vars' of
                        None \<Rightarrow> None
                      | Some ok \<Rightarrow>
                          if ok
                          then Some (vars', dst_time\<lparr>stopDst := dst_point P fmt vars'\<rparr>,
                                     w1\<lparr>dst_data_flag := DST_VALID_END_TIME_FLAG\<rparr>)
                          else Some (vars', dst_time,
                                     Cy_SCB_UART_PutString MSG_INVALID_VALUES w1)))
             else Some (vars, dst_time, Cy_SCB_UART_PutString MSG_TIMEOUT w1))
      else Some (vars, dst_time, w))"

text \<open>
  Lines 508-521: under the condition \<open>DST_VALID_END_TIME_FLAG == dst_data_flag\<close> the
  driver is called with \<open>dst_time\<close>.
\<close>

definition dst_commit :: "cy_stc_rtc_dst_t \<Rightarrow> world \<Rightarrow> world" where
  "dst_commit dst_time w =
     (if DST_VALID_END_TIME_FLAG = dst_data_flag w then
        (case rtc_call (RTC_EnableDstTime dst_time) w of
           (rslt, w1) \<Rightarrow>
             if CY_RTC_SUCCESS = rslt
             then Cy_SCB_UART_PutString MSG_DST_UPDATED (w1\<lparr>dst_data_flag := DST_ENABLED_FLAG\<rparr>)
             else handle_error w1)
      else w)"

text \<open>The branch of the command "enable" (lines 396-526).\<close>

definition dst_enable ::
  "platform \<Rightarrow> cy_stc_rtc_dst_t \<Rightarrow> u32 \<Rightarrow> world \<Rightarrow> world option" where
  "dst_enable P dst_time timeout_ms w =
     (case user_uart_getc (CHR 0x00) timeout_ms (dst_format_menu w) of
        None \<Rightarrow> None
      | Some (rslt, fmt, w1) \<Rightarrow>
          if rslt \<noteq> CY_SCB_UART_RX_NO_DATA then
            (case dst_start_entry P fmt timeout_ms zero_vars dst_time w1 of
               None \<Rightarrow> None
             | Some (vars1, dst_time1, w2) \<Rightarrow>
                 (case dst_end_entry P fmt timeout_ms vars1 dst_time1 w2 of
                    None \<Rightarrow> None
                  | Some (vars2, dst_time2, w3) \<Rightarrow> Some (dst_commit dst_time2 w3)))
          else Some (Cy_SCB_UART_PutString MSG_TIMEOUT w1))"

text \<open>The branch of the command "disable" (lines 530-547).\<close>

definition disabled_point :: cy_stc_rtc_dst_format_t where
  "disabled_point =
     \<lparr> dst_format = CY_RTC_DST_FIXED, dst_hour = 0, dst_dayOfMonth = 1,
       dst_weekOfMonth = 1, dst_dayOfWeek = 1, dst_month = 1 \<rparr>"

definition dst_disable :: "cy_stc_rtc_dst_t \<Rightarrow> world \<Rightarrow> world" where
  "dst_disable dst_time w =
     (case rtc_call (RTC_EnableDstTime
                       (dst_time\<lparr>stopDst := disabled_point, startDst := disabled_point\<rparr>)) w of
        (rslt, w1) \<Rightarrow>
          if CY_RTC_SUCCESS = rslt
          then Cy_SCB_UART_PutString MSG_DST_FEATURE_DISABLED
                 (w1\<lparr>dst_data_flag := DST_DISABLED_FLAG\<rparr>)
          else handle_error w1)"

text \<open>
  \<open>dst_time\<close> is a local variable that is not initialised (line 362): the argument is
  what it holds when the function is entered. \<open>None\<close> when a call does not return.
\<close>

definition set_dst_feature ::
  "platform \<Rightarrow> cy_stc_rtc_dst_t \<Rightarrow> u32 \<Rightarrow> world \<Rightarrow> world option" where
  "set_dst_feature P dst_time timeout_ms w =
     (case user_uart_getc (CHR 0x00) timeout_ms (dst_menu (dst_status_display w)) of
        None \<Rightarrow> None
      | Some (rslt, dst_cmd, w1) \<Rightarrow>
          if rslt \<noteq> CY_SCB_UART_RX_NO_DATA then
            (if RTC_CMD_ENABLE_DST = dst_cmd then dst_enable P dst_time timeout_ms w1
             else if RTC_CMD_DISABLE_DST = dst_cmd then Some (dst_disable dst_time w1)
             else if RTC_CMD_QUIT_CONFIG_DST = dst_cmd
             then Some (Cy_SCB_UART_PutString MSG_DST_EXIT w1)
             else Some w1)
          else Some (Cy_SCB_UART_PutString MSG_TIMEOUT w1))"

section \<open>Notions for stating the properties\<close>

text \<open>
  The calendar as the specification words it: a year is a leap year when it is
  divisible by 4 and not by 100, or divisible by 400; the days of a month come from
  the fixed table, with 29 for February in a leap year.
\<close>

definition spec_is_leap :: "int \<Rightarrow> bool" where
  "spec_is_leap y = ((y mod 4 = 0 \<and> y mod 100 \<noteq> 0) \<or> y mod 400 = 0)"

definition spec_days_in_month :: "int \<Rightarrow> int \<Rightarrow> int" where
  "spec_days_in_month mo y =
     (if mo = 2 \<and> spec_is_leap y then 29
      else [31, 28, 31, 30, 31, 30, 31, 31, 30, 31, 30, 31] ! nat (mo - 1))"

text \<open>The events that a step from the world \<open>w\<close> to the world \<open>w'\<close> has added.\<close>

definition new_events :: "world \<Rightarrow> world \<Rightarrow> event list" where
  "new_events w w' = drop (length (trace w)) (trace w')"

text \<open>
  Events that are neither a call of an RTC driver function which returns a status nor
  the stop of the program.
\<close>

fun quiet_event :: "event \<Rightarrow> bool" where
  "quiet_event (UART_PutString m) = True"
| "quiet_event (UART_Put c) = True"
| "quiet_event (SysLib_Delay ms) = True"
| "quiet_event RTC_GetDstStatus = True"
| "quiet_event e = False"

text \<open>
  From \<open>w\<close> to \<open>w'\<close> no RTC driver function that returns a status was called and the
  program did not stop: the trace grew by quiet events. The serial line and the flag
  may have changed.
\<close>

definition quiet :: "world \<Rightarrow> world \<Rightarrow> bool" where
  "quiet w w' =
     (rtc_results w' = rtc_results w \<and> rtc_calls w' = rtc_calls w \<and>
      dst_status w' = dst_status w \<and>
      take (length (trace w)) (trace w') = trace w \<and>
      list_all quiet_event (new_events w w'))"

text \<open>
  What a retry loop has done between \<open>w\<close> and \<open>w'\<close>, where it returned \<open>r\<close>: it made
  \<open>n\<close> calls, at least one and at most \<open>attempts\<close>; all calls before the last one
  failed; it ends with a failure only after \<open>attempts\<close> calls; every call is followed
  by the delay of \<open>INIT_DELAY_MS\<close>; nothing else has changed.
\<close>

definition retried :: "event \<Rightarrow> u32 \<Rightarrow> world \<Rightarrow> u32 \<Rightarrow> world \<Rightarrow> nat \<Rightarrow> bool" where
  "retried call attempts w r w' n =
     (1 \<le> n \<and> n \<le> unat attempts \<and>
      rtc_calls w' = rtc_calls w + n \<and>
      r = rtc_results w (rtc_calls w + n - 1) \<and>
      list_all (\<lambda>k. rtc_results w (rtc_calls w + k) \<noteq> CY_RTC_SUCCESS) [0..<n - 1] \<and>
      (r \<noteq> CY_RTC_SUCCESS \<longrightarrow> n = unat attempts) \<and>
      trace w' = trace w @ concat (replicate n [call, SysLib_Delay INIT_DELAY_MS]) \<and>
      rx w' = rx w \<and> dst_data_flag w' = dst_data_flag w \<and>
      rtc_results w' = rtc_results w \<and> dst_status w' = dst_status w)"

text \<open>The calls of \<open>Cy_RTC_EnableDstTime\<close> and the stop of the program in a step.\<close>

fun is_dst_write :: "event \<Rightarrow> bool" where
  "is_dst_write (RTC_EnableDstTime d) = True"
| "is_dst_write e = False"

definition dst_writes :: "world \<Rightarrow> world \<Rightarrow> event list" where
  "dst_writes w w' = filter is_dst_write (new_events w w')"

definition fatal :: "world \<Rightarrow> world \<Rightarrow> bool" where
  "fatal w w' = (Handle_Error \<in> set (new_events w w'))"

text \<open>
  From \<open>w\<close> to \<open>w'\<close> the driver was called at most once, with the DST times, no call
  was repeated, and the program stopped in \<open>handle_error\<close> exactly when that call
  failed.
\<close>

definition dst_write_once :: "world \<Rightarrow> world \<Rightarrow> bool" where
  "dst_write_once w w' =
     (take (length (trace w)) (trace w') = trace w \<and>
      rtc_results w' = rtc_results w \<and>
      length (dst_writes w w') \<le> 1 \<and>
      rtc_calls w' = rtc_calls w + length (dst_writes w w') \<and>
      fatal w w' = (dst_writes w w' \<noteq> [] \<and> rtc_results w (rtc_calls w) \<noteq> CY_RTC_SUCCESS) \<and>
      (if fatal w w' then last (trace w') = Handle_Error else True))"

text \<open>The driver calls and the stop of the program in a trace, and the DST writes.\<close>

definition driver_calls :: "world \<Rightarrow> event list" where
  "driver_calls w = filter (\<lambda>e. \<not> quiet_event e) (trace w)"

definition dst_written :: "world \<Rightarrow> event list" where
  "dst_written w = filter is_dst_write (trace w)"

text \<open>
  The line \<open>line\<close>, shorter than the buffer, and its terminator \<open>t\<close> are waiting on the
  serial line, and the budget lasts for reading them; the buffer and the world after
  \<open>fetch_time_data\<close> has read them.
\<close>

definition line_waiting :: "world \<Rightarrow> string \<Rightarrow> char \<Rightarrow> char option list \<Rightarrow> u32 \<Rightarrow> bool" where
  "line_waiting w line t rest timeout_ms =
     (rx w = map Some line @ Some t # rest \<and> list_all (\<lambda>c. \<not> is_terminator c) line \<and>
      is_terminator t \<and> length line < 80 \<and> 10 * (length line + 1) < unat timeout_ms)"

definition line_buffer :: "string \<Rightarrow> char list" where
  "line_buffer line = line @ replicate (80 - length line) (CHR 0x00)"

definition line_read :: "world \<Rightarrow> string \<Rightarrow> char option list \<Rightarrow> world" where
  "line_read w line rest =
     w\<lparr>rx := rest, trace := trace w @ map UART_Put line @ [UART_PutString MSG_NEWLINE]\<rparr>"

text \<open>
  Keys as they are typed: a key is the number of polls that find the line silent before
  its byte is there, and the byte. \<open>polls\<close> are the results of the calls of
  \<open>Cy_SCB_UART_Get\<close> that a list of keys gives.
\<close>

definition key_polls :: "nat \<times> char \<Rightarrow> char option list" where
  "key_polls k = replicate (fst k) None @ [Some (snd k)]"

definition polls :: "(nat \<times> char) list \<Rightarrow> char option list" where
  "polls ks = concat (map key_polls ks)"

text \<open>
  A call of \<open>user_uart_getc\<close> with the timeout \<open>UART_TIMEOUT_MS\<close> polls the line once and
  then once after each of its delays, \<open>UART_TIMEOUT_MS\<close> + 1 times in all. A key takes
  one pass of the loop of \<open>fetch_time_data\<close> for each such run of silent polls before its
  byte, and the pass that gets the byte; \<open>passes\<close> are the passes that a list of keys
  takes.
\<close>

definition key_passes :: "nat \<times> char \<Rightarrow> nat" where
  "key_passes k = fst k div Suc (unat UART_TIMEOUT_MS) + 1"

definition passes :: "(nat \<times> char) list \<Rightarrow> nat" where
  "passes ks = sum_list (map key_passes ks)"

text \<open>
  The delays during the passes of a key, and the events of keys that are appended to the
  line and echoed.
\<close>

definition key_waits :: "nat \<times> char \<Rightarrow> event list" where
  "key_waits k =
     replicate (fst k - fst k div Suc (unat UART_TIMEOUT_MS)) (SysLib_Delay UART_GET_CHAR_DELAY)"

definition key_events :: "nat \<times> char \<Rightarrow> event list" where
  "key_events k = key_waits k @ [UART_Put (snd k)]"

definition line_events :: "(nat \<times> char) list \<Rightarrow> event list" where
  "line_events ks = concat (map key_events ks)"

text \<open>
  The effect on the variables of a pass of the loop that gets no byte (lines 658 and
  676), and of the passes of a key that is appended to the line.
\<close>

definition silent_pass :: "fetch_vars \<Rightarrow> fetch_vars" where
  "silent_pass v =
     v\<lparr> fv_rslt := CY_SCB_UART_RX_NO_DATA, fv_passes := Suc (fv_passes v),
        fv_timeout_ms := fv_timeout_ms v - UART_TIMEOUT_MS \<rparr>"

definition accept_key :: "fetch_vars \<Rightarrow> nat \<times> char \<Rightarrow> fetch_vars" where
  "accept_key v k =
     accept_char ((silent_pass ^^ (fst k div Suc (unat UART_TIMEOUT_MS))) v) (snd k)"

section \<open>Inputs for evaluating the program\<close>

text \<open>
  A value for the local variable \<open>dst_time\<close> of \<open>set_dst_feature\<close>, which is not
  initialised, and the DST times of the lines "03 15 10 00 00 24" and
  "11 01 10 00 00 24" in the fixed format.
\<close>

definition unset_dst_time :: cy_stc_rtc_dst_t where
  "unset_dst_time =
     \<lparr> startDst = \<lparr> dst_format = CY_RTC_DST_RELATIVE, dst_hour = 0xAAAAAAAA,
                    dst_dayOfMonth = 0xAAAAAAAA, dst_weekOfMonth = 0xAAAAAAAA,
                    dst_dayOfWeek = 0xAAAAAAAA, dst_month = 0xAAAAAAAA \<rparr>,
       stopDst = \<lparr> dst_format = CY_RTC_DST_RELATIVE, dst_hour = 0xAAAAAAAA,
                   dst_dayOfMonth = 0xAAAAAAAA, dst_weekOfMonth = 0xAAAAAAAA,
                   dst_dayOfWeek = 0xAAAAAAAA, dst_month = 0xAAAAAAAA \<rparr> \<rparr>"

definition sample_dst_time :: cy_stc_rtc_dst_t where
  "sample_dst_time =
     \<lparr> startDst = \<lparr> dst_format = CY_RTC_DST_FIXED, dst_hour = 10, dst_dayOfMonth = 15,
                    dst_weekOfMonth = 1, dst_dayOfWeek = 1, dst_month = 3 \<rparr>,
       stopDst = \<lparr> dst_format = CY_RTC_DST_FIXED, dst_hour = 10, dst_dayOfMonth = 1,
                   dst_weekOfMonth = 1, dst_dayOfWeek = 1, dst_month = 11 \<rparr> \<rparr>"

text \<open>
  Keys typed on the serial line: for \<open>set_dst_feature\<close> the command "enable" and the
  fixed format, followed by a start line and an end line, of which "x" is not valid;
  for \<open>set_new_time\<close> a line that \<open>validate_date_time\<close> rejects and one that it
  accepts. The lists \<open>echo_...\<close> are what \<open>set_dst_feature\<close> sends to the terminal on
  these keys before it calls the driver.
\<close>

definition keys_valid_start_valid_end :: "char option list" where
  "keys_valid_start_valid_end =
     map Some ''11'' @ map Some ''03 15 10 00 00 24'' @ [Some (CHR 0x0A)] @
     map Some ''11 01 10 00 00 24'' @ [Some (CHR 0x0A)]"

definition keys_valid_start_bad_end :: "char option list" where
  "keys_valid_start_bad_end =
     map Some ''11'' @ map Some ''03 15 10 00 00 24'' @ [Some (CHR 0x0A)] @
     map Some ''x'' @ [Some (CHR 0x0A)]"

definition keys_bad_start_valid_end :: "char option list" where
  "keys_bad_start_valid_end =
     map Some ''11'' @ map Some ''x'' @ [Some (CHR 0x0A)] @
     map Some ''11 01 10 00 00 24'' @ [Some (CHR 0x0A)]"

definition keys_bad_time :: "char option list" where
  "keys_bad_time = map Some ''13 45 25 61 61 24'' @ [Some (CHR 0x0A)]"

definition keys_good_time :: "char option list" where
  "keys_good_time = map Some ''03 15 10 30 00 24'' @ [Some (CHR 0x0A)]"

definition echo_valid_start_valid_end :: "event list" where
  "echo_valid_start_valid_end =
     [UART_PutString MSG_DST_STATUS_DISABLED, UART_PutString MSG_DST_COMMANDS,
      UART_PutString MSG_DST_COMMAND_ENABLE, UART_PutString MSG_DST_COMMAND_DISABLE,
      UART_PutString MSG_DST_COMMAND_QUIT, UART_PutString MSG_DST_FORMAT,
      UART_PutString MSG_DST_FORMAT_FIXED, UART_PutString MSG_DST_FORMAT_RELATIVE,
      UART_PutString MSG_ENTER_DST_START] @ map UART_Put ''03 15 10 00 00 24'' @
     [UART_PutString MSG_NEWLINE, UART_PutString MSG_ENTER_DST_END] @
     map UART_Put ''11 01 10 00 00 24'' @ [UART_PutString MSG_NEWLINE]"

definition echo_valid_start_bad_end :: "event list" where
  "echo_valid_start_bad_end =
     [UART_PutString MSG_DST_STATUS_DISABLED, UART_PutString MSG_DST_COMMANDS,
      UART_PutString MSG_DST_COMMAND_ENABLE, UART_PutString MSG_DST_COMMAND_DISABLE,
      UART_PutString MSG_DST_COMMAND_QUIT, UART_PutString MSG_DST_FORMAT,
      UART_PutString MSG_DST_FORMAT_FIXED, UART_PutString MSG_DST_FORMAT_RELATIVE,
      UART_PutString MSG_ENTER_DST_START] @ map UART_Put ''03 15 10 00 00 24'' @
     [UART_PutString MSG_NEWLINE, UART_PutString MSG_ENTER_DST_END, UART_Put (CHR ''x''),
      UART_PutString MSG_NEWLINE, UART_PutString MSG_INVALID_VALUES]"

definition echo_bad_start_valid_end :: "event list" where
  "echo_bad_start_valid_end =
     [UART_PutString MSG_DST_STATUS_DISABLED, UART_PutString MSG_DST_COMMANDS,
      UART_PutString MSG_DST_COMMAND_ENABLE, UART_PutString MSG_DST_COMMAND_DISABLE,
      UART_PutString MSG_DST_COMMAND_QUIT, UART_PutString MSG_DST_FORMAT,
      UART_PutString MSG_DST_FORMAT_FIXED, UART_PutString MSG_DST_FORMAT_RELATIVE,
      UART_PutString MSG_ENTER_DST_START, UART_Put (CHR ''x''), UART_PutString MSG_NEWLINE,
      UART_PutString MSG_INVALID_VALUES, UART_PutString MSG_ENTER_DST_END] @
     map UART_Put ''11 01 10 00 00 24'' @ [UART_PutString MSG_NEWLINE]"

text \<open>
  The line "03 15 10 30 00 24" typed slowly: 15 polls find the line silent before each
  space.
\<close>

definition slow_line :: "(nat \<times> char) list" where
  "slow_line =
     [(0, CHR ''0''), (0, CHR ''3''), (15, CHR '' ''), (0, CHR ''1''), (0, CHR ''5''),
      (15, CHR '' ''), (0, CHR ''1''), (0, CHR ''0''), (15, CHR '' ''), (0, CHR ''3''),
      (0, CHR ''0''), (15, CHR '' ''), (0, CHR ''0''), (0, CHR ''0''), (15, CHR '' ''),
      (0, CHR ''2''), (0, CHR ''4'')]"

text \<open>An RTC driver that fails twice and succeeds from the third call on.\<close>

definition third_time_lucky :: "nat \<Rightarrow> u32" where
  "third_time_lucky k = (if k < 2 then 1 else CY_RTC_SUCCESS)"

section \<open>Properties of validate_date_time\<close>

lemma sint_nonneg_uint: 
  assumes "0 \<le> sint (x::u32)" shows "uint x = sint x"
proof -
  have "sint x < 2 ^ 31" using sint_lt [of x] by simp
  then have "take_bit 32 (sint x) = sint x"
    using assms by (simp add: take_bit_int_eq_self)
  then show ?thesis using uint_sint [of x] by simp
qed

lemma word_mod_zero_iff:
  fixes year :: u32
  assumes "0 \<le> sint year"
  shows "(0 = year mod k) = (sint year mod uint k = 0)"
proof -
  have "(0 = year mod k) = (year mod k = 0)" by (rule eq_commute)
  also have "\<dots> = (uint (year mod k) = 0)" by (simp only: uint_0_iff)
  also have "\<dots> = (uint year mod uint k = 0)" by (simp only: uint_mod)
  finally show ?thesis using sint_nonneg_uint [OF assms] by simp
qed

lemma IS_LEAP_YEAR_spec:
  assumes "0 \<le> sint year"
  shows "IS_LEAP_YEAR year = spec_is_leap (sint year)"
  unfolding IS_LEAP_YEAR_def spec_is_leap_def
  using word_mod_zero_iff [OF assms, of 4] word_mod_zero_iff [OF assms, of 100]
    word_mod_zero_iff [OF assms, of 400]
  by simp

lemma month_cases:
  assumes "CY_RTC_IS_MONTH_VALID month"
  shows "month \<in> {1, 2, 3, 4, 5, 6, 7, 8, 9, 10, 11, 12}"
proof -
  have "sint month \<in> {1, 2, 3, 4, 5, 6, 7, 8, 9, 10, 11, 12}"
    using assms unfolding CY_RTC_IS_MONTH_VALID_def by (simp; arith)
  then have "word_of_int (sint month) \<in> ((word_of_int ` {1, 2, 3, 4, 5, 6, 7, 8, 9, 10, 11, 12}) :: u32 set)"
    by (rule imageI)
  then show ?thesis by simp
qed

lemma days_index_in_table:
  assumes "CY_RTC_IS_MONTH_VALID month"
  shows "days_index month < CY_RTC_MONTHS_PER_YEAR"
  using month_cases [OF assms]
  by (auto simp: days_index_def LEAP_YEAR_MONTH1_def CY_RTC_MONTHS_PER_YEAR_def)

lemma sint_pos_iff: "0 \<le> sint (x::u32) \<Longrightarrow> (0 < x) = (1 \<le> sint x)"
  by (metis dual_order.irrefl int_one_le_iff_zero_less
    linorder_le_less_linear nle_le signed_0 word_eq_iff_signed
    word_greater_zero_iff)

lemma sint_neg_gt0: "sint (x::u32) < 0 \<Longrightarrow> 0 < x"
  by (metis signed_0 less_irrefl word_greater_zero_iff)

lemma days_lookup:
  assumes "CY_RTC_IS_MONTH_VALID month" "0 \<le> sint year"
  shows "\<exists>entry. array_read days_in_month_table (days_index month) = Some entry \<and>
     uint (if IS_LEAP_YEAR year \<and> month = LEAP_YEAR_MONTH2 then entry + 1 else entry)
       = spec_days_in_month (sint month) (sint year)"
  using month_cases [OF assms(1)] IS_LEAP_YEAR_spec [OF assms(2)]
  by (auto simp: array_read_def days_index_def days_in_month_table_def LEAP_YEAR_MONTH1_def
      LEAP_YEAR_MONTH2_def spec_days_in_month_def)

lemma validate_date_time_nonneg_day:
  assumes "CY_RTC_IS_SEC_VALID sec" "CY_RTC_IS_MIN_VALID minute" "CY_RTC_IS_HOUR_VALID hour"
    "CY_RTC_IS_MONTH_VALID month" "CY_RTC_IS_YEAR_LONG_VALID P year" "0 \<le> sint year"
    "0 \<le> sint mday"
  shows "validate_date_time P sec minute hour mday month year =
     Some (1 \<le> sint mday \<and> sint mday \<le> spec_days_in_month (sint month) (sint year))"
proof -
  obtain entry where e: "array_read days_in_month_table (days_index month) = Some entry"
    and d: "uint (if IS_LEAP_YEAR year \<and> month = LEAP_YEAR_MONTH2 then entry + 1 else entry)
       = spec_days_in_month (sint month) (sint year)"
    using days_lookup [OF assms(4) assms(6)] by blast
  show ?thesis
    using assms(1-5) e d sint_pos_iff [OF assms(7)]
    by (simp add: validate_date_time_def Let_def)
qed

lemma validate_date_time_negative_day:
  assumes "CY_RTC_IS_SEC_VALID sec" "CY_RTC_IS_MIN_VALID minute" "CY_RTC_IS_HOUR_VALID hour"
    "CY_RTC_IS_MONTH_VALID month" "CY_RTC_IS_YEAR_LONG_VALID P year"
    "sint mday < 0"
  shows "validate_date_time P sec minute hour mday month year = Some True"
proof -
  have "days_index month < length days_in_month_table"
    using days_index_in_table [OF assms(4)] by (simp add: CY_RTC_MONTHS_PER_YEAR_def days_in_month_table_def)
  then obtain entry where e: "array_read days_in_month_table (days_index month) = Some entry"
    by (simp add: array_read_def)
  have "0 \<le> uint (if IS_LEAP_YEAR year \<and> month = LEAP_YEAR_MONTH2 then entry + 1 else entry)"
    by simp
  then have "sint mday \<le> uint (if IS_LEAP_YEAR year \<and> month = LEAP_YEAR_MONTH2 then entry + 1 else entry)"
    using assms(6) by linarith
  then show ?thesis
    using assms(1-5) e sint_neg_gt0 [OF assms(6)]
    by (simp add: validate_date_time_def Let_def)
qed

lemma validate_date_time_total:
  "\<exists>b. validate_date_time P sec minute hour mday month year = Some b"
proof (cases "CY_RTC_IS_MONTH_VALID month")
  case True
  have "days_index month < length days_in_month_table"
    using days_index_in_table [OF True] by (simp add: CY_RTC_MONTHS_PER_YEAR_def days_in_month_table_def)
  then show ?thesis
    by (simp add: validate_date_time_def Let_def array_read_def)
next
  case False
  then show ?thesis by (auto simp: validate_date_time_def Let_def)
qed

text \<open>
  Claim C4: for second and minute in [0,59], hour in [0,23], month in [1,12] and a
  year that is not negative, \<open>validate_date_time\<close> returns true if and only if the day
  is in [1, days_in_month(month, year)].

  The code does not do this for a negative day. At line 737 the test \<open>mday > 0U\<close> is an
  unsigned comparison, which every value but 0 passes, and the test
  \<open>mday <= days_in_month\<close> is a signed one, which every negative value passes. The
  theorem evaluates the function at second 0, minute 0, hour 0, day -1, month 1,
  year 24: it returns true, and -1 is not in [1, 31]. For days that are not negative the
  claim holds (\<open>validate_date_time_nonneg_day\<close>).
\<close>

theorem validate_date_time_accepts_negative_day:
  "validate_date_time sample_platform 0 0 0 (- 1) 1 24 = Some True \<and>
   \<not> (1 \<le> sint (- 1 :: cint) \<and> sint (- 1 :: cint) \<le> spec_days_in_month 1 24)"
  by code_simp

text \<open>
  Claim C9: \<open>validate_date_time\<close> is total and pure; for every input, also one outside
  of the domain, it returns false instead of aborting, and the table is read at index
  month - 1 only after the month has passed its range check, so that the index is
  within [0,11].

  The function is total and the index is within the table
  (\<open>validate_date_time_total\<close>, \<open>days_index_in_table\<close>), and it returns false when a range
  check fails, when the day is 0 and when the day is beyond the month. For a negative
  day, which is outside of the domain, it returns true (the comparison of line 737
  described at claim C4). The theorem evaluates the function at second 59, minute 59,
  hour 23, day -5, month 2, year 2023.
\<close>

theorem validate_date_time_out_of_domain_day:
  "validate_date_time sample_platform 59 59 23 (- 5) 2 2023 = Some True"
  by code_simp

text \<open>
  Claim C5: for a validated set of fields, the transition point built with the fixed
  format has day of week 1, week of month 1 and the entered day as its day of month;
  built with the relative format it has day of month 1, and its day of week and its
  week of month are both the value that the day-of-week function returns for the
  entered day, month and year.
\<close>

theorem dst_point_fields:
  assumes "dst_input_ok P fmt v = Some True"
  shows "(fmt = FIXED_DST_FORMAT \<longrightarrow>
            dst_format (dst_point P fmt v) = CY_RTC_DST_FIXED \<and>
            dst_dayOfWeek (dst_point P fmt v) = 1 \<and>
            dst_weekOfMonth (dst_point P fmt v) = 1 \<and>
            dst_dayOfMonth (dst_point P fmt v) = v_mday v) \<and>
         (fmt = RELATIVE_DST_FORMAT \<longrightarrow>
            dst_format (dst_point P fmt v) = CY_RTC_DST_RELATIVE \<and>
            dst_dayOfMonth (dst_point P fmt v) = 1 \<and>
            dst_dayOfWeek (dst_point P fmt v) =
              Cy_RTC_ConvertDayOfWeek P (v_mday v) (v_month v) (v_year v) \<and>
            dst_weekOfMonth (dst_point P fmt v) = dst_dayOfWeek (dst_point P fmt v))"
  by (simp add: dst_point_def FIXED_DST_FORMAT_def RELATIVE_DST_FORMAT_def)

theorem dst_point_fields_witness:
  "dst_input_ok sample_platform (CHR ''1'')
     \<lparr>v_month = 3, v_mday = 15, v_hour = 10, v_min = 0, v_sec = 0, v_year = 24\<rparr> = Some True \<and>
   dst_dayOfWeek (dst_point sample_platform (CHR ''1'')
     \<lparr>v_month = 3, v_mday = 15, v_hour = 10, v_min = 0, v_sec = 0, v_year = 24\<rparr>) = 1 \<and>
   dst_weekOfMonth (dst_point sample_platform (CHR ''1'')
     \<lparr>v_month = 3, v_mday = 15, v_hour = 10, v_min = 0, v_sec = 0, v_year = 24\<rparr>) = 1 \<and>
   dst_dayOfMonth (dst_point sample_platform (CHR ''1'')
     \<lparr>v_month = 3, v_mday = 15, v_hour = 10, v_min = 0, v_sec = 0, v_year = 24\<rparr>) = 15 \<and>
   dst_input_ok sample_platform (CHR ''2'')
     \<lparr>v_month = 3, v_mday = 15, v_hour = 10, v_min = 0, v_sec = 0, v_year = 24\<rparr> = Some True \<and>
   dst_dayOfMonth (dst_point sample_platform (CHR ''2'')
     \<lparr>v_month = 3, v_mday = 15, v_hour = 10, v_min = 0, v_sec = 0, v_year = 24\<rparr>) = 1 \<and>
   dst_dayOfWeek (dst_point sample_platform (CHR ''2'')
     \<lparr>v_month = 3, v_mday = 15, v_hour = 10, v_min = 0, v_sec = 0, v_year = 24\<rparr>) = 6 \<and>
   dst_weekOfMonth (dst_point sample_platform (CHR ''2'')
     \<lparr>v_month = 3, v_mday = 15, v_hour = 10, v_min = 0, v_sec = 0, v_year = 24\<rparr>) = 6"
proof -
  let ?v = "\<lparr>v_month = 3, v_mday = 15, v_hour = 10, v_min = 0, v_sec = 0, v_year = 24 :: cint\<rparr>"
  have ok1: "dst_input_ok sample_platform (CHR ''1'') ?v = Some True" by code_simp
  have ok2: "dst_input_ok sample_platform (CHR ''2'') ?v = Some True" by code_simp
  have z: "Cy_RTC_ConvertDayOfWeek sample_platform (v_mday ?v) (v_month ?v) (v_year ?v) = 6"
    by code_simp
  show ?thesis
    using dst_point_fields [OF ok1] dst_point_fields [OF ok2] ok1 ok2 z
    by (simp add: FIXED_DST_FORMAT_def RELATIVE_DST_FORMAT_def)
qed

section \<open>Properties of user_uart_getc and fetch_time_data\<close>

lemma getc_wait_data [simp]: "getc_wait ticks (Some c) w = (Some c, w)"
  by (cases ticks) simp_all

lemma user_uart_getc_returns:
  assumes "timeout \<noteq> 0"
  shows "\<exists>r c w'. user_uart_getc val timeout w = Some (r, c, w')"
  using assms by (auto simp: user_uart_getc_def split: prod.splits option.splits)

lemma user_uart_getc_data:
  assumes "timeout \<noteq> 0" "rx w = Some c # rs"
  shows "user_uart_getc val timeout w = Some (CY_RSLT_SUCCESS, c, w\<lparr>rx := rs\<rparr>)"
  using assms by (simp add: user_uart_getc_def Cy_SCB_UART_Get_def)

lemma user_uart_getc_status:
  assumes "user_uart_getc val timeout w = Some (r, c, w')"
  shows "r = CY_RSLT_SUCCESS \<or> (r = CY_SCB_UART_RX_NO_DATA \<and> c = val)"
  using assms by (auto simp: user_uart_getc_def split: if_splits prod.splits option.splits)

lemma status_distinct [simp]:
  "CY_RSLT_SUCCESS \<noteq> CY_SCB_UART_RX_NO_DATA" "CY_SCB_UART_RX_NO_DATA \<noteq> CY_RSLT_SUCCESS"
  "(1::u32) \<noteq> CY_SCB_UART_RX_NO_DATA" "CY_SCB_UART_RX_NO_DATA \<noteq> (1::u32)"
  by (simp_all add: CY_RSLT_SUCCESS_def CY_SCB_UART_RX_NO_DATA_def)

lemma timeout_nonzero [simp]: "UART_TIMEOUT_MS \<noteq> 0"
  by (simp add: UART_TIMEOUT_MS_def)

text \<open>
  A pass of the loop does not read \<open>rslt\<close> before it has assigned it: the value with
  which the variable starts is of no consequence.
\<close>

lemma fetch_body_rslt_init: "fetch_body (v\<lparr>fv_rslt := r\<rparr>) w = fetch_body v w"
  by (simp add: fetch_body_def Let_def split: option.splits prod.splits)

text \<open>A pass of the loop on a buffer of 80 bytes always has a result.\<close>

lemma fetch_body_returns:
  assumes "fv_index v < STRING_BUFFER_SIZE" "length (fv_buffer v) = 80"
  shows "\<exists>s. fetch_body v w = Some s"
proof -
  have i: "unat (fv_index v) < 80"
    using assms(1) by (simp add: STRING_BUFFER_SIZE_def word_less_nat_alt)
  obtain r c w' where g: "user_uart_getc (fv_ch v) UART_TIMEOUT_MS w = Some (r, c, w')"
    using user_uart_getc_returns [OF timeout_nonzero] by blast
  show ?thesis
    using g i assms(2)
    by (simp add: fetch_body_def Let_def array_write_def Cy_SCB_UART_Put_def)
qed

lemma fetch_body_length:
  assumes "fetch_body v w = Some (Continue (v', w'))"
  shows "length (fv_buffer v') = length (fv_buffer v)"
  using assms
  by (auto simp: fetch_body_def Let_def array_write_def Cy_SCB_UART_Put_def
      split: if_splits option.splits prod.splits)

lemma fetch_loop_returns:
  assumes "length (fv_buffer v) = 80"
  shows "\<exists>r. fetch_loop v w = Some r"
  using assms
proof (induction v w rule: fetch_loop.induct)
  case (1 v w)
  show ?case
  proof (cases "fv_index v < STRING_BUFFER_SIZE")
    case False
    then show ?thesis by (simp add: fetch_loop.simps [of v w])
  next
    case True
    obtain s where s: "fetch_body v w = Some s"
      using fetch_body_returns [OF True "1.prems"] by blast
    show ?thesis
    proof (cases s)
      case (Break r)
      then show ?thesis using True s by (simp add: fetch_loop.simps [of v w])
    next
      case (Continue p)
      obtain v' w' where p: "p = (v', w')" by (cases p)
      have "length (fv_buffer v') = 80"
        using fetch_body_length [of v w v' w'] s Continue p "1.prems" by simp
      from "1.IH" [OF True s Continue p [symmetric] this]
      show ?thesis using True s Continue p by (simp add: fetch_loop.simps [of v w])
    qed
  qed
qed


lemma fetch_loop_rule:
  assumes run: "fetch_loop v w = Some (vz, wz)"
    and init: "I v w"
    and step: "\<And>v w v' w'. I v w \<Longrightarrow> fv_index v < STRING_BUFFER_SIZE \<Longrightarrow>
                 fetch_body v w = Some (Continue (v', w')) \<Longrightarrow> I v' w'"
    and full: "\<And>v w. I v w \<Longrightarrow> \<not> fv_index v < STRING_BUFFER_SIZE \<Longrightarrow> Q v w"
    and brk: "\<And>v w v' w'. I v w \<Longrightarrow> fv_index v < STRING_BUFFER_SIZE \<Longrightarrow>
                 fetch_body v w = Some (Break (v', w')) \<Longrightarrow> Q v' w'"
  shows "Q vz wz"
  using run init
proof (induction v w rule: fetch_loop.induct)
  case (1 v w)
  show ?case
  proof (cases "fv_index v < STRING_BUFFER_SIZE")
    case False
    then have "vz = v" "wz = w" using "1.prems"(1) by (simp_all add: fetch_loop.simps [of v w])
    then show ?thesis using full [OF "1.prems"(2) False] by simp
  next
    case True
    then obtain s where s: "fetch_body v w = Some s"
      using "1.prems"(1) by (cases "fetch_body v w") (simp_all add: fetch_loop.simps [of v w])
    show ?thesis
    proof (cases s)
      case (Break r)
      then have "fetch_body v w = Some (Break (vz, wz))"
        using True s "1.prems"(1) by (simp add: fetch_loop.simps [of v w])
      then show ?thesis using brk [OF "1.prems"(2) True] by simp
    next
      case (Continue p)
      obtain v' w' where p: "p = (v', w')" by (cases p)
      have c: "fetch_body v w = Some (Continue (v', w'))" using s Continue p by simp
      have r: "fetch_loop v' w' = Some (vz, wz)"
        using True c "1.prems"(1) by (simp add: fetch_loop.simps [of v w])
      have i: "I v' w'" using step [OF "1.prems"(2) True c] .
      from "1.IH" [OF True s Continue p [symmetric] r i] show ?thesis .
    qed
  qed
qed

text \<open>The status is the timeout status exactly after an exit at the budget check.\<close>

lemma fetch_loop_timeout_iff:
  assumes "fetch_loop v w = Some (vz, wz)"
    and "fv_index v < STRING_BUFFER_SIZE \<or> fv_rslt v \<noteq> CY_SCB_UART_RX_NO_DATA"
  shows "(fv_rslt vz = CY_SCB_UART_RX_NO_DATA) =
         (fv_timeout_ms vz \<le> UART_TIMEOUT_MS \<and> fv_index vz < STRING_BUFFER_SIZE)"
proof (rule fetch_loop_rule [OF assms(1),
      where I = "\<lambda>v w. fv_index v < STRING_BUFFER_SIZE \<or> fv_rslt v \<noteq> CY_SCB_UART_RX_NO_DATA"
        and Q = "\<lambda>v w. (fv_rslt v = CY_SCB_UART_RX_NO_DATA) =
         (fv_timeout_ms v \<le> UART_TIMEOUT_MS \<and> fv_index v < STRING_BUFFER_SIZE)"])
  show "fv_index v < STRING_BUFFER_SIZE \<or> fv_rslt v \<noteq> CY_SCB_UART_RX_NO_DATA" by (rule assms(2))
next
  fix v w v' w'
  assume "fv_index v < STRING_BUFFER_SIZE" "fetch_body v w = Some (Continue (v', w'))"
  then show "fv_index v' < STRING_BUFFER_SIZE \<or> fv_rslt v' \<noteq> CY_SCB_UART_RX_NO_DATA"
    by (auto simp: fetch_body_def Let_def Cy_SCB_UART_Put_def
        split: if_splits option.splits prod.splits)
next
  fix v w
  assume "fv_index v < STRING_BUFFER_SIZE \<or> fv_rslt v \<noteq> CY_SCB_UART_RX_NO_DATA"
    "\<not> fv_index v < STRING_BUFFER_SIZE"
  then show "(fv_rslt v = CY_SCB_UART_RX_NO_DATA) =
         (fv_timeout_ms v \<le> UART_TIMEOUT_MS \<and> fv_index v < STRING_BUFFER_SIZE)" by simp
next
  fix v w v' w'
  assume "fv_index v < STRING_BUFFER_SIZE" "fetch_body v w = Some (Break (v', w'))"
  then show "(fv_rslt v' = CY_SCB_UART_RX_NO_DATA) =
         (fv_timeout_ms v' \<le> UART_TIMEOUT_MS \<and> fv_index v' < STRING_BUFFER_SIZE)"
    by (auto simp: fetch_body_def Let_def Cy_SCB_UART_Put_def
        dest: user_uart_getc_status
        split: if_splits option.splits prod.splits)
qed

lemma fetch_loop_counts:
  assumes run: "fetch_loop v w = Some (vz, wz)"
    and init: "10 * fv_passes v + unat (fv_timeout_ms v) = N" "unat (fv_index v) \<le> fv_passes v"
      "unat (fv_index v) \<le> 80"
  shows "10 * fv_passes vz \<le> N + 10 \<and>
         (fv_rslt vz \<noteq> CY_SCB_UART_RX_NO_DATA \<longrightarrow> 10 * fv_passes vz \<le> N) \<and>
         unat (fv_index vz) \<le> fv_passes vz \<and> unat (fv_index vz) \<le> 80"
proof (rule fetch_loop_rule [OF run,
      where I = "\<lambda>v w. 10 * fv_passes v + unat (fv_timeout_ms v) = N \<and>
                        unat (fv_index v) \<le> fv_passes v \<and> unat (fv_index v) \<le> 80"
        and Q = "\<lambda>v w. 10 * fv_passes v \<le> N + 10 \<and>
                        (fv_rslt v \<noteq> CY_SCB_UART_RX_NO_DATA \<longrightarrow> 10 * fv_passes v \<le> N) \<and>
                        unat (fv_index v) \<le> fv_passes v \<and> unat (fv_index v) \<le> 80"])
  show "10 * fv_passes v + unat (fv_timeout_ms v) = N \<and>
        unat (fv_index v) \<le> fv_passes v \<and> unat (fv_index v) \<le> 80"
    using init by simp
next
  fix v w v' w'
  assume I: "10 * fv_passes v + unat (fv_timeout_ms v) = N \<and>
             unat (fv_index v) \<le> fv_passes v \<and> unat (fv_index v) \<le> 80"
    and g: "fv_index v < STRING_BUFFER_SIZE"
    and b: "fetch_body v w = Some (Continue (v', w'))"
  have t: "unat (fv_timeout_ms v') + 10 = unat (fv_timeout_ms v)"
    using fetch_body_Continue_budget [OF b] by (simp add: UART_TIMEOUT_MS_def)
  have i80: "unat (fv_index v) < 80"
    using g by (simp add: STRING_BUFFER_SIZE_def word_less_nat_alt)
  then have suc: "unat (fv_index v + 1) = unat (fv_index v) + 1"
    by (simp add: unat_word_ariths)
  have r: "fv_passes v' = Suc (fv_passes v)"
    and i: "fv_index v' = fv_index v \<or> fv_index v' = fv_index v + 1"
    using b
    by (auto simp: fetch_body_def Let_def Cy_SCB_UART_Put_def
        split: if_splits option.splits prod.splits)
  show "10 * fv_passes v' + unat (fv_timeout_ms v') = N \<and>
        unat (fv_index v') \<le> fv_passes v' \<and> unat (fv_index v') \<le> 80"
    using I t r i i80 suc by auto
next
  fix v w
  assume "10 * fv_passes v + unat (fv_timeout_ms v) = N \<and>
          unat (fv_index v) \<le> fv_passes v \<and> unat (fv_index v) \<le> 80"
  then show "10 * fv_passes v \<le> N + 10 \<and>
        (fv_rslt v \<noteq> CY_SCB_UART_RX_NO_DATA \<longrightarrow> 10 * fv_passes v \<le> N) \<and>
        unat (fv_index v) \<le> fv_passes v \<and> unat (fv_index v) \<le> 80"
    by auto
next
  fix v w v' w'
  assume I: "10 * fv_passes v + unat (fv_timeout_ms v) = N \<and>
             unat (fv_index v) \<le> fv_passes v \<and> unat (fv_index v) \<le> 80"
    and g: "fv_index v < STRING_BUFFER_SIZE"
    and b: "fetch_body v w = Some (Break (v', w'))"
  show "10 * fv_passes v' \<le> N + 10 \<and>
        (fv_rslt v' \<noteq> CY_SCB_UART_RX_NO_DATA \<longrightarrow> 10 * fv_passes v' \<le> N) \<and>
        unat (fv_index v') \<le> fv_passes v' \<and> unat (fv_index v') \<le> 80"
  proof (cases "fv_timeout_ms v \<le> UART_TIMEOUT_MS")
    case True
    then have "fv_passes v' = Suc (fv_passes v)" "fv_index v' = fv_index v"
      "fv_rslt v' = CY_SCB_UART_RX_NO_DATA"
      using b by (auto simp: fetch_body_def)
    then show ?thesis using I by auto
  next
    case False
    then have "10 < unat (fv_timeout_ms v)"
      by (simp add: UART_TIMEOUT_MS_def word_le_nat_alt)
    moreover have "fv_passes v' = Suc (fv_passes v)" "fv_index v' = fv_index v"
      using b False
      by (auto simp: fetch_body_def Let_def Cy_SCB_UART_Put_def
          split: if_splits option.splits prod.splits)
    ultimately show ?thesis using I by auto
  qed
qed

lemma fetch_body_accept:
  assumes "rx w = Some c # rs" "\<not> is_terminator c" "UART_TIMEOUT_MS < fv_timeout_ms v"
    "unat (fv_index v) < length (fv_buffer v)"
  shows "fetch_body v w =
     Some (Continue (accept_char v c, w\<lparr>rx := rs, trace := trace w @ [UART_Put c]\<rparr>))"
proof -
  have g: "user_uart_getc (fv_ch v) UART_TIMEOUT_MS w = Some (CY_RSLT_SUCCESS, c, w\<lparr>rx := rs\<rparr>)"
    using assms(1) by (simp add: user_uart_getc_data)
  have nle: "\<not> fv_timeout_ms v \<le> UART_TIMEOUT_MS" using assms(3) by simp
  show ?thesis
    using assms(2,4) nle
    by (simp add: fetch_body_def g Let_def array_write_def Cy_SCB_UART_Put_def emit_def
        accept_char_def is_terminator_def)
qed

lemma fetch_body_terminator:
  assumes "rx w = Some c # rs" "is_terminator c" "UART_TIMEOUT_MS < fv_timeout_ms v"
  shows "fetch_body v w =
     Some (Break (v\<lparr>fv_rslt := CY_RSLT_SUCCESS, fv_ch := c, fv_passes := Suc (fv_passes v)\<rparr>,
                  w\<lparr>rx := rs\<rparr>))"
proof -
  have g: "user_uart_getc (fv_ch v) UART_TIMEOUT_MS w = Some (CY_RSLT_SUCCESS, c, w\<lparr>rx := rs\<rparr>)"
    using assms(1) by (simp add: user_uart_getc_data)
  have nle: "\<not> fv_timeout_ms v \<le> UART_TIMEOUT_MS" using assms(3) by simp
  show ?thesis
    using assms(2) nle
    by (auto simp: fetch_body_def g Let_def is_terminator_def)
qed

lemma accept_char_fields [simp]:
  "fv_index (accept_char v c) = fv_index v + 1"
  "fv_timeout_ms (accept_char v c) = fv_timeout_ms v - UART_TIMEOUT_MS"
  "length (fv_buffer (accept_char v c)) = length (fv_buffer v)"
  by (simp_all add: accept_char_def)

lemma fetch_loop_accept:
  assumes "rx w = map Some cs @ rest" "\<forall>c \<in> set cs. \<not> is_terminator c"
    "unat (fv_index v) + length cs \<le> 80" "10 * length cs < unat (fv_timeout_ms v)"
    "length (fv_buffer v) = 80"
  shows "fetch_loop v w =
     fetch_loop (foldl accept_char v cs) (w\<lparr>rx := rest, trace := trace w @ map UART_Put cs\<rparr>)"
  using assms
proof (induction cs arbitrary: v w)
  case Nil
  then have "w\<lparr>rx := rest, trace := trace w @ map UART_Put []\<rparr> = w"
    by (cases w) simp
  then show ?case by simp
next
  case (Cons c cs)
  have i: "unat (fv_index v) < 80" using Cons.prems(3) by simp
  then have g: "fv_index v < STRING_BUFFER_SIZE"
    by (simp add: STRING_BUFFER_SIZE_def word_less_nat_alt)
  have t: "UART_TIMEOUT_MS < fv_timeout_ms v"
    using Cons.prems(4) by (simp add: UART_TIMEOUT_MS_def word_less_nat_alt)
  have b: "fetch_body v w =
     Some (Continue (accept_char v c, w\<lparr>rx := map Some cs @ rest, trace := trace w @ [UART_Put c]\<rparr>))"
    using fetch_body_accept [of w c "map Some cs @ rest" v] Cons.prems t i by simp
  have i': "unat (fv_index v + 1) = unat (fv_index v) + 1"
    using i by (simp add: unat_word_ariths)
  have t': "unat (fv_timeout_ms v - UART_TIMEOUT_MS) = unat (fv_timeout_ms v) - 10"
    using t by (simp add: unat_sub word_less_nat_alt word_le_nat_alt UART_TIMEOUT_MS_def)
  have "fetch_loop v w =
     fetch_loop (accept_char v c) (w\<lparr>rx := map Some cs @ rest, trace := trace w @ [UART_Put c]\<rparr>)"
    using g b by (simp add: fetch_loop.simps [of v w])
  also have "\<dots> = fetch_loop (foldl accept_char (accept_char v c) cs)
      (w\<lparr>rx := map Some cs @ rest, trace := trace w @ [UART_Put c]\<rparr>
        \<lparr>rx := rest, trace := trace (w\<lparr>rx := map Some cs @ rest, trace := trace w @ [UART_Put c]\<rparr>)
            @ map UART_Put cs\<rparr>)"
    using Cons.prems i' t' by (intro Cons.IH) simp_all
  finally show ?case by simp
qed

lemma foldl_accept_fields:
  assumes "unat (fv_index v) + length cs \<le> 80" "10 * length cs < unat (fv_timeout_ms v)"
    "length (fv_buffer v) = 80"
  shows "unat (fv_index (foldl accept_char v cs)) = unat (fv_index v) + length cs \<and>
         unat (fv_timeout_ms (foldl accept_char v cs)) = unat (fv_timeout_ms v) - 10 * length cs \<and>
         fv_buffer (foldl accept_char v cs) =
           take (unat (fv_index v)) (fv_buffer v) @ cs @
           drop (unat (fv_index v) + length cs) (fv_buffer v) \<and>
         fv_space_count (foldl accept_char v cs) =
           fv_space_count v + of_nat (space_keys cs) \<and>
         (cs \<noteq> [] \<longrightarrow> fv_rslt (foldl accept_char v cs) = 1)"
  using assms
proof (induction cs arbitrary: v)
  case Nil
  show ?case by (simp add: space_keys_def)
next
  case (Cons c cs)
  have i: "unat (fv_index v) < 80" using Cons.prems(1) by simp
  have i': "unat (fv_index v + 1) = unat (fv_index v) + 1"
    using i by (simp add: unat_word_ariths)
  have t: "UART_TIMEOUT_MS < fv_timeout_ms v"
    using Cons.prems(2) by (simp add: UART_TIMEOUT_MS_def word_less_nat_alt)
  have t': "unat (fv_timeout_ms v - UART_TIMEOUT_MS) = unat (fv_timeout_ms v) - 10"
    using t by (simp add: unat_sub word_less_nat_alt word_le_nat_alt UART_TIMEOUT_MS_def)
  have p1: "unat (fv_index (accept_char v c)) + length cs \<le> 80"
    using Cons.prems(1) i' by simp
  have p2: "10 * length cs < unat (fv_timeout_ms (accept_char v c))"
    using Cons.prems(2) t' by simp
  have p3: "length (fv_buffer (accept_char v c)) = 80"
    using Cons.prems(3) by simp
  note IH = Cons.IH [OF p1 p2 p3]
  have b: "fv_buffer (accept_char v c) = (fv_buffer v)[unat (fv_index v) := c]"
    and sp: "fv_space_count (accept_char v c) =
       (if c = CHR '' '' then fv_space_count v + 1 else fv_space_count v)"
    and rs: "fv_rslt (accept_char v c) = 1"
    by (simp_all add: accept_char_def)
  have c1: "unat (fv_index (foldl accept_char v (c # cs))) = unat (fv_index v) + length (c # cs)"
    using IH i' by simp
  have c2: "unat (fv_timeout_ms (foldl accept_char v (c # cs))) =
      unat (fv_timeout_ms v) - 10 * length (c # cs)"
    using IH t' by simp
  have c3: "fv_buffer (foldl accept_char v (c # cs)) =
           take (unat (fv_index v)) (fv_buffer v) @ (c # cs) @
           drop (unat (fv_index v) + length (c # cs)) (fv_buffer v)"
    using IH b i' i Cons.prems(3)
    by (simp add: upd_conv_take_nth_drop take_Suc_conv_app_nth ac_simps)
  have c4: "fv_space_count (foldl accept_char v (c # cs)) =
           fv_space_count v + of_nat (space_keys (c # cs))"
    using IH sp by (simp add: space_keys_def)
  have c5: "fv_rslt (foldl accept_char v (c # cs)) = 1"
    using IH rs by (cases "cs = []") simp_all
  show ?case using c1 c2 c3 c4 c5 by blast
qed

lemma fetch_init_fields [simp]:
  "fv_buffer (fetch_init buffer timeout_ms) = buffer"
  "fv_timeout_ms (fetch_init buffer timeout_ms) = timeout_ms"
  "fv_space_count (fetch_init buffer timeout_ms) = 0"
  "fv_index (fetch_init buffer timeout_ms) = 0"
  "fv_passes (fetch_init buffer timeout_ms) = 0"
  "fv_rslt (fetch_init buffer timeout_ms) = CY_RSLT_SUCCESS"
  by (simp_all add: fetch_init_def)

lemma fetch_loop_line:
  assumes nt: "\<forall>c \<in> set line. \<not> is_terminator c" and t: "is_terminator t"
    and rx: "rx w = map Some line @ Some t # rest"
    and len: "length buffer = 80" and short: "length line < 80"
    and budget: "10 * (length line + 1) < unat timeout_ms"
  shows "fetch_loop (fetch_init buffer timeout_ms) w =
     Some ((foldl accept_char (fetch_init buffer timeout_ms) line)
             \<lparr>fv_rslt := CY_RSLT_SUCCESS, fv_ch := t,
              fv_passes := Suc (fv_passes (foldl accept_char (fetch_init buffer timeout_ms) line))\<rparr>,
           w\<lparr>rx := rest, trace := trace w @ map UART_Put line\<rparr>)"
proof -
  let ?v0 = "fetch_init buffer timeout_ms"
  let ?v1 = "foldl accept_char ?v0 line"
  let ?w1 = "w\<lparr>rx := Some t # rest, trace := trace w @ map UART_Put line\<rparr>"
  have a1: "unat (fv_index ?v0) + length line \<le> 80" using short by simp
  have a2: "10 * length line < unat (fv_timeout_ms ?v0)" using budget by simp
  have a3: "length (fv_buffer ?v0) = 80" using len by simp
  have unroll: "fetch_loop ?v0 w = fetch_loop ?v1 ?w1"
    using fetch_loop_accept [OF rx nt a1 a2 a3] .
  note f = foldl_accept_fields [OF a1 a2 a3]
  have i: "unat (fv_index ?v1) = length line" using f by simp
  then have g: "fv_index ?v1 < STRING_BUFFER_SIZE"
    using short by (simp add: STRING_BUFFER_SIZE_def word_less_nat_alt)
  have "unat (fv_timeout_ms ?v1) = unat timeout_ms - 10 * length line" using f by simp
  then have tm: "UART_TIMEOUT_MS < fv_timeout_ms ?v1"
    using budget by (simp add: UART_TIMEOUT_MS_def word_less_nat_alt)
  have "rx ?w1 = Some t # rest" by simp
  from fetch_body_terminator [OF this t tm]
  have "fetch_body ?v1 ?w1 =
     Some (Break (?v1\<lparr>fv_rslt := CY_RSLT_SUCCESS, fv_ch := t, fv_passes := Suc (fv_passes ?v1)\<rparr>,
                  ?w1\<lparr>rx := rest\<rparr>))" .
  then have "fetch_loop ?v1 ?w1 =
     Some (?v1\<lparr>fv_rslt := CY_RSLT_SUCCESS, fv_ch := t, fv_passes := Suc (fv_passes ?v1)\<rparr>,
           ?w1\<lparr>rx := rest\<rparr>)"
    using g by (simp add: fetch_loop.simps [of ?v1 ?w1])
  then show ?thesis using unroll by simp
qed

lemma fetch_loop_full:
  assumes nt: "\<forall>c \<in> set cs. \<not> is_terminator c"
    and rx: "rx w = map Some cs @ rest"
    and len: "length buffer = 80" and full: "length cs = 80"
    and budget: "800 < unat timeout_ms"
  shows "fetch_loop (fetch_init buffer timeout_ms) w =
     Some (foldl accept_char (fetch_init buffer timeout_ms) cs,
           w\<lparr>rx := rest, trace := trace w @ map UART_Put cs\<rparr>)"
proof -
  let ?v0 = "fetch_init buffer timeout_ms"
  let ?v1 = "foldl accept_char ?v0 cs"
  let ?w1 = "w\<lparr>rx := rest, trace := trace w @ map UART_Put cs\<rparr>"
  have a1: "unat (fv_index ?v0) + length cs \<le> 80" using full by simp
  have a2: "10 * length cs < unat (fv_timeout_ms ?v0)" using budget full by simp
  have a3: "length (fv_buffer ?v0) = 80" using len by simp
  have unroll: "fetch_loop ?v0 w = fetch_loop ?v1 ?w1"
    using fetch_loop_accept [OF rx nt a1 a2 a3] .
  note f = foldl_accept_fields [OF a1 a2 a3]
  have i: "unat (fv_index ?v1) = 80" using f full by simp
  then have g: "\<not> fv_index ?v1 < STRING_BUFFER_SIZE"
    by (simp add: STRING_BUFFER_SIZE_def word_less_nat_alt)
  then have "fetch_loop ?v1 ?w1 = Some (?v1, ?w1)"
    by (simp add: fetch_loop.simps [of ?v1 ?w1])
  then show ?thesis using unroll by simp
qed

lemma fetch_time_data_line_short:
  assumes nt: "\<forall>c \<in> set line. \<not> is_terminator c" and t: "is_terminator t"
    and rx: "rx w = map Some line @ Some t # rest"
    and len: "length buffer = 80" and short: "length line < 80"
    and budget: "10 * (length line + 1) < unat timeout_ms"
  shows "fetch_time_data buffer timeout_ms w =
     Some (CY_RSLT_SUCCESS, line @ drop (length line) buffer,
           of_nat (space_keys line),
           w\<lparr>rx := rest, trace := trace w @ map UART_Put line @ [UART_PutString MSG_NEWLINE]\<rparr>)"
proof -
  let ?v0 = "fetch_init buffer timeout_ms"
  have a1: "unat (fv_index ?v0) + length line \<le> 80" using short by simp
  have a2: "10 * length line < unat (fv_timeout_ms ?v0)" using budget by simp
  have a3: "length (fv_buffer ?v0) = 80" using len by simp
  note f = foldl_accept_fields [OF a1 a2 a3]
  show ?thesis
    using fetch_loop_line [OF assms] f
    by (simp add: fetch_time_data_def Cy_SCB_UART_PutString_def emit_def space_keys_def)
qed

lemma fetch_time_data_line_full:
  assumes nt: "\<forall>c \<in> set cs. \<not> is_terminator c"
    and rx: "rx w = map Some cs @ rest"
    and len: "length buffer = 80" and full: "length cs = 80"
    and budget: "800 < unat timeout_ms"
  shows "fetch_time_data buffer timeout_ms w =
     Some (1, cs, of_nat (space_keys cs),
           w\<lparr>rx := rest, trace := trace w @ map UART_Put cs @ [UART_PutString MSG_NEWLINE]\<rparr>)"
proof -
  let ?v0 = "fetch_init buffer timeout_ms"
  have a1: "unat (fv_index ?v0) + length cs \<le> 80" using full by simp
  have a2: "10 * length cs < unat (fv_timeout_ms ?v0)" using budget full by simp
  have a3: "length (fv_buffer ?v0) = 80" using len by simp
  note f = foldl_accept_fields [OF a1 a2 a3]
  have ne: "cs \<noteq> []" using full by auto
  show ?thesis
    using fetch_loop_full [OF assms] f ne len full
    by (simp add: fetch_time_data_def Cy_SCB_UART_PutString_def emit_def space_keys_def)
qed

lemma getc_wait_gap:
  assumes "rx w = replicate g None @ Some c # rs" "g < ticks"
  shows "getc_wait ticks None w =
     (Some c, w\<lparr>rx := rs,
                trace := trace w @ replicate (Suc g) (SysLib_Delay UART_GET_CHAR_DELAY)\<rparr>)"
  using assms
proof (induction g arbitrary: ticks w)
  case 0
  then obtain n where n: "ticks = Suc n" by (cases ticks) simp_all
  show ?case using 0
    by (simp add: n Cy_SCB_UART_Get_def Cy_SysLib_Delay_def emit_def)
next
  case (Suc g)
  then obtain n where n: "ticks = Suc n" by (cases ticks) simp_all
  let ?w1 = "w\<lparr>trace := trace w @ [SysLib_Delay UART_GET_CHAR_DELAY],
                rx := replicate g None @ Some c # rs\<rparr>"
  have step: "getc_wait ticks None w = getc_wait n None ?w1"
    using Suc.prems by (simp add: n Cy_SCB_UART_Get_def Cy_SysLib_Delay_def emit_def)
  have "getc_wait n None ?w1 =
     (Some c, ?w1\<lparr>rx := rs,
                trace := trace ?w1 @ replicate (Suc g) (SysLib_Delay UART_GET_CHAR_DELAY)\<rparr>)"
    using Suc.prems n by (intro Suc.IH) simp_all
  then show ?case using step by (simp add: replicate_app_Cons_same)
qed

lemma getc_wait_silent:
  assumes "rx w = replicate g None @ rs" "ticks \<le> g"
  shows "getc_wait ticks None w =
     (None, w\<lparr>rx := replicate (g - ticks) None @ rs,
              trace := trace w @ replicate ticks (SysLib_Delay UART_GET_CHAR_DELAY)\<rparr>)"
  using assms
proof (induction ticks arbitrary: g w)
  case 0
  then have "w\<lparr>rx := replicate g None @ rs, trace := trace w @ []\<rparr> = w" by (cases w) simp
  then show ?case by simp
next
  case (Suc n)
  then obtain h where h: "g = Suc h" by (cases g) simp_all
  let ?w1 = "w\<lparr>trace := trace w @ [SysLib_Delay UART_GET_CHAR_DELAY],
                rx := replicate h None @ rs\<rparr>"
  have step: "getc_wait (Suc n) None w = getc_wait n None ?w1"
    using Suc.prems by (simp add: h Cy_SCB_UART_Get_def Cy_SysLib_Delay_def emit_def)
  have "getc_wait n None ?w1 =
     (None, ?w1\<lparr>rx := replicate (h - n) None @ rs,
              trace := trace ?w1 @ replicate n (SysLib_Delay UART_GET_CHAR_DELAY)\<rparr>)"
    using Suc.prems h by (intro Suc.IH) simp_all
  then show ?case using step h by (simp add: replicate_app_Cons_same)
qed

lemma getc_wait_quiet_line:
  assumes "rx w = []"
  shows "getc_wait ticks None w =
     (None, w\<lparr>trace := trace w @ replicate ticks (SysLib_Delay UART_GET_CHAR_DELAY)\<rparr>)"
  using assms
proof (induction ticks arbitrary: w)
  case 0
  then have "w\<lparr>trace := trace w @ []\<rparr> = w" by (cases w) simp
  then show ?case by simp
next
  case (Suc n)
  let ?w1 = "w\<lparr>trace := trace w @ [SysLib_Delay UART_GET_CHAR_DELAY]\<rparr>"
  have step: "getc_wait (Suc n) None w = getc_wait n None ?w1"
    using Suc.prems by (simp add: Cy_SCB_UART_Get_def Cy_SysLib_Delay_def emit_def)
  have "getc_wait n None ?w1 =
     (None, ?w1\<lparr>trace := trace ?w1 @ replicate n (SysLib_Delay UART_GET_CHAR_DELAY)\<rparr>)"
    using Suc.prems by (intro Suc.IH) simp
  then show ?case using step by (simp add: replicate_app_Cons_same)
qed

text \<open>One call of user_uart_getc on a byte that arrives after g silent polls.\<close>

lemma user_uart_getc_gap:
  assumes "rx w = replicate g None @ Some c # rs" "g \<le> unat timeout" "timeout \<noteq> 0"
  shows "user_uart_getc val timeout w =
     Some (CY_RSLT_SUCCESS, c,
           w\<lparr>rx := rs, trace := trace w @ replicate g (SysLib_Delay UART_GET_CHAR_DELAY)\<rparr>)"
proof (cases g)
  case 0
  have "w\<lparr>rx := rs, trace := trace w @ []\<rparr> = w\<lparr>rx := rs\<rparr>" by (cases w) simp
  then show ?thesis using assms 0 by (simp add: user_uart_getc_def Cy_SCB_UART_Get_def)
next
  case (Suc h)
  let ?w1 = "w\<lparr>rx := replicate h None @ Some c # rs\<rparr>"
  have g1: "Cy_SCB_UART_Get w = (None, ?w1)"
    using assms(1) Suc by (simp add: Cy_SCB_UART_Get_def)
  have "getc_wait (unat timeout) None ?w1 =
     (Some c, ?w1\<lparr>rx := rs,
                trace := trace ?w1 @ replicate (Suc h) (SysLib_Delay UART_GET_CHAR_DELAY)\<rparr>)"
    using assms(2) Suc by (intro getc_wait_gap) simp_all
  then show ?thesis using assms(3) g1 Suc by (simp add: user_uart_getc_def)
qed

lemma user_uart_getc_silent:
  assumes "rx w = replicate g None @ rs" "unat timeout < g" "timeout \<noteq> 0"
  shows "user_uart_getc val timeout w =
     Some (CY_SCB_UART_RX_NO_DATA, val,
           w\<lparr>rx := replicate (g - Suc (unat timeout)) None @ rs,
             trace := trace w @ replicate (unat timeout) (SysLib_Delay UART_GET_CHAR_DELAY)\<rparr>)"
proof -
  obtain h where h: "g = Suc h" using assms(2) by (cases g) simp_all
  let ?w1 = "w\<lparr>rx := replicate h None @ rs\<rparr>"
  have g1: "Cy_SCB_UART_Get w = (None, ?w1)"
    using assms(1) h by (simp add: Cy_SCB_UART_Get_def)
  have "getc_wait (unat timeout) None ?w1 =
     (None, ?w1\<lparr>rx := replicate (h - unat timeout) None @ rs,
              trace := trace ?w1 @ replicate (unat timeout) (SysLib_Delay UART_GET_CHAR_DELAY)\<rparr>)"
    using assms(2) h by (intro getc_wait_silent) simp_all
  then show ?thesis using assms(3) g1 h by (simp add: user_uart_getc_def)
qed

lemma user_uart_getc_quiet_line:
  assumes "rx w = []" "timeout \<noteq> 0"
  shows "user_uart_getc val timeout w =
     Some (CY_SCB_UART_RX_NO_DATA, val,
           w\<lparr>trace := trace w @ replicate (unat timeout) (SysLib_Delay UART_GET_CHAR_DELAY)\<rparr>)"
proof -
  have g1: "Cy_SCB_UART_Get w = (None, w)" using assms(1) by (simp add: Cy_SCB_UART_Get_def)
  show ?thesis using assms g1 getc_wait_quiet_line [OF assms(1)]
    by (simp add: user_uart_getc_def)
qed

lemma unat_timeout [simp]: "unat UART_TIMEOUT_MS = 10"
  by (simp add: UART_TIMEOUT_MS_def)

lemma budget_above [simp]:
  "(UART_TIMEOUT_MS < t) = (10 < unat t)" "(t \<le> UART_TIMEOUT_MS) = (unat t \<le> 10)"
  by (simp_all add: word_less_nat_alt word_le_nat_alt)

lemma index_below [simp]: "(i < STRING_BUFFER_SIZE) = (unat i < 80)"
  by (simp add: STRING_BUFFER_SIZE_def word_less_nat_alt)

lemma budget_minus: "10 < unat (t :: u32) \<Longrightarrow> unat (t - UART_TIMEOUT_MS) = unat t - 10"
  using unat_sub [of UART_TIMEOUT_MS t] by (simp add: word_le_nat_alt)

lemma fetch_body_accept_gap:
  assumes "rx w = replicate g None @ Some c # rs" "g \<le> 10" "\<not> is_terminator c"
    "10 < unat (fv_timeout_ms v)" "unat (fv_index v) < length (fv_buffer v)"
  shows "fetch_body v w =
     Some (Continue (accept_char v c,
       w\<lparr>rx := rs,
         trace := trace w @ replicate g (SysLib_Delay UART_GET_CHAR_DELAY) @ [UART_Put c]\<rparr>))"
proof -
  have g: "user_uart_getc (fv_ch v) UART_TIMEOUT_MS w =
     Some (CY_RSLT_SUCCESS, c,
           w\<lparr>rx := rs, trace := trace w @ replicate g (SysLib_Delay UART_GET_CHAR_DELAY)\<rparr>)"
    using assms(1,2) by (intro user_uart_getc_gap) simp_all
  have nle: "\<not> unat (fv_timeout_ms v) \<le> 10" using assms(4) by simp
  show ?thesis
    using assms(3,5) nle
    by (simp add: fetch_body_def g Let_def array_write_def Cy_SCB_UART_Put_def emit_def
        accept_char_def is_terminator_def)
qed

lemma fetch_body_terminator_gap:
  assumes "rx w = replicate g None @ Some c # rs" "g \<le> 10" "is_terminator c"
    "10 < unat (fv_timeout_ms v)"
  shows "fetch_body v w =
     Some (Break (v\<lparr>fv_rslt := CY_RSLT_SUCCESS, fv_ch := c, fv_passes := Suc (fv_passes v)\<rparr>,
       w\<lparr>rx := rs, trace := trace w @ replicate g (SysLib_Delay UART_GET_CHAR_DELAY)\<rparr>))"
proof -
  have g: "user_uart_getc (fv_ch v) UART_TIMEOUT_MS w =
     Some (CY_RSLT_SUCCESS, c,
           w\<lparr>rx := rs, trace := trace w @ replicate g (SysLib_Delay UART_GET_CHAR_DELAY)\<rparr>)"
    using assms(1,2) by (intro user_uart_getc_gap) simp_all
  have nle: "\<not> unat (fv_timeout_ms v) \<le> 10" using assms(4) by simp
  show ?thesis
    using assms(3) nle
    by (auto simp: fetch_body_def g Let_def is_terminator_def)
qed

lemma fetch_body_silent:
  assumes "rx w = replicate g None @ rs" "10 < g" "10 < unat (fv_timeout_ms v)"
  shows "fetch_body v w =
     Some (Continue (silent_pass v,
       w\<lparr>rx := replicate (g - 11) None @ rs,
         trace := trace w @ replicate 10 (SysLib_Delay UART_GET_CHAR_DELAY)\<rparr>))"
proof -
  have g: "user_uart_getc (fv_ch v) UART_TIMEOUT_MS w =
     Some (CY_SCB_UART_RX_NO_DATA, fv_ch v,
           w\<lparr>rx := replicate (g - Suc (unat UART_TIMEOUT_MS)) None @ rs,
             trace := trace w @
               replicate (unat UART_TIMEOUT_MS) (SysLib_Delay UART_GET_CHAR_DELAY)\<rparr>)"
    using assms(1,2) by (intro user_uart_getc_silent) simp_all
  have nle: "\<not> unat (fv_timeout_ms v) \<le> 10" using assms(3) by simp
  show ?thesis
    using nle by (simp add: fetch_body_def g Let_def silent_pass_def)
qed

lemma silent_pass_fields [simp]:
  "fv_timeout_ms (silent_pass v) = fv_timeout_ms v - UART_TIMEOUT_MS"
  "fv_index (silent_pass v) = fv_index v"
  "fv_buffer (silent_pass v) = fv_buffer v"
  "fv_space_count (silent_pass v) = fv_space_count v"
  "fv_passes (silent_pass v) = Suc (fv_passes v)"
  "fv_ch (silent_pass v) = fv_ch v"
  "fv_rslt (silent_pass v) = CY_SCB_UART_RX_NO_DATA"
  by (simp_all add: silent_pass_def)

lemma silent_passes_fields:
  assumes "10 * n \<le> unat (fv_timeout_ms v)"
  shows "unat (fv_timeout_ms ((silent_pass ^^ n) v)) = unat (fv_timeout_ms v) - 10 * n \<and>
         fv_index ((silent_pass ^^ n) v) = fv_index v \<and>
         fv_buffer ((silent_pass ^^ n) v) = fv_buffer v \<and>
         fv_space_count ((silent_pass ^^ n) v) = fv_space_count v \<and>
         fv_passes ((silent_pass ^^ n) v) = fv_passes v + n \<and>
         fv_ch ((silent_pass ^^ n) v) = fv_ch v \<and>
         (0 < n \<longrightarrow> fv_rslt ((silent_pass ^^ n) v) = CY_SCB_UART_RX_NO_DATA)"
  using assms
proof (induction n)
  case 0
  show ?case by simp
next
  case (Suc n)
  then have IH: "unat (fv_timeout_ms ((silent_pass ^^ n) v)) = unat (fv_timeout_ms v) - 10 * n"
    "fv_index ((silent_pass ^^ n) v) = fv_index v"
    "fv_buffer ((silent_pass ^^ n) v) = fv_buffer v"
    "fv_space_count ((silent_pass ^^ n) v) = fv_space_count v"
    "fv_passes ((silent_pass ^^ n) v) = fv_passes v + n"
    "fv_ch ((silent_pass ^^ n) v) = fv_ch v"
    by simp_all
  have "10 \<le> unat (fv_timeout_ms ((silent_pass ^^ n) v))" using IH(1) Suc.prems by simp
  then have "unat (fv_timeout_ms ((silent_pass ^^ n) v) - UART_TIMEOUT_MS) =
      unat (fv_timeout_ms ((silent_pass ^^ n) v)) - 10"
    using unat_sub [of UART_TIMEOUT_MS "fv_timeout_ms ((silent_pass ^^ n) v)"]
    by (simp add: word_le_nat_alt)
  then show ?case using IH by simp
qed

text \<open>Passes of the loop on a silent line.\<close>

lemma fetch_loop_silent_passes:
  assumes "rx w = replicate g None @ rs" "11 * n \<le> g" "10 * n < unat (fv_timeout_ms v)"
    "unat (fv_index v) < 80"
  shows "fetch_loop v w =
     fetch_loop ((silent_pass ^^ n) v)
       (w\<lparr>rx := replicate (g - 11 * n) None @ rs,
         trace := trace w @ replicate (10 * n) (SysLib_Delay UART_GET_CHAR_DELAY)\<rparr>)"
  using assms
proof (induction n)
  case 0
  then have "w\<lparr>rx := replicate g None @ rs, trace := trace w @ []\<rparr> = w" by (cases w) simp
  then show ?case by simp
next
  case (Suc n)
  let ?v1 = "(silent_pass ^^ n) v"
  let ?w1 = "w\<lparr>rx := replicate (g - 11 * n) None @ rs,
         trace := trace w @ replicate (10 * n) (SysLib_Delay UART_GET_CHAR_DELAY)\<rparr>"
  have a: "fetch_loop v w = fetch_loop ?v1 ?w1" using Suc by simp
  have le: "10 * n \<le> unat (fv_timeout_ms v)" using Suc.prems(3) by simp
  note f = silent_passes_fields [OF le]
  have t: "10 < unat (fv_timeout_ms ?v1)" using f Suc.prems(3) by simp
  have i: "unat (fv_index ?v1) < 80" using f Suc.prems(4) by simp
  have gg: "10 < g - 11 * n" using Suc.prems(2) by simp
  have "rx ?w1 = replicate (g - 11 * n) None @ rs" by simp
  from fetch_body_silent [OF this gg t]
  have b: "fetch_body ?v1 ?w1 =
     Some (Continue (silent_pass ?v1,
       ?w1\<lparr>rx := replicate (g - 11 * n - 11) None @ rs,
         trace := trace ?w1 @ replicate 10 (SysLib_Delay UART_GET_CHAR_DELAY)\<rparr>))" .
  have "fetch_loop ?v1 ?w1 = fetch_loop (silent_pass ?v1)
       (?w1\<lparr>rx := replicate (g - 11 * n - 11) None @ rs,
         trace := trace ?w1 @ replicate 10 (SysLib_Delay UART_GET_CHAR_DELAY)\<rparr>)"
    using i b by (simp add: fetch_loop.simps [of ?v1 ?w1])
  also have "\<dots> = fetch_loop ((silent_pass ^^ Suc n) v)
       (w\<lparr>rx := replicate (g - 11 * Suc n) None @ rs,
         trace := trace w @ replicate (10 * Suc n) (SysLib_Delay UART_GET_CHAR_DELAY)\<rparr>)"
    by (simp add: replicate_add [symmetric] add.commute)
  finally show ?case using a by simp
qed

lemma silent_passes_line [simp]:
  "fv_index ((silent_pass ^^ n) v) = fv_index v"
  "fv_buffer ((silent_pass ^^ n) v) = fv_buffer v"
  "fv_space_count ((silent_pass ^^ n) v) = fv_space_count v"
  "fv_passes ((silent_pass ^^ n) v) = fv_passes v + n"
  by (induction n) simp_all

lemma key_passes_simp [simp]: "key_passes (g, c) = g div 11 + 1"
  by (simp add: key_passes_def)

lemma key_polls_simp [simp]: "key_polls (g, c) = replicate g None @ [Some c]"
  by (simp add: key_polls_def)

lemma key_waits_simp [simp]:
  "key_waits (g, c) = replicate (g - g div 11) (SysLib_Delay UART_GET_CHAR_DELAY)"
  by (simp add: key_waits_def)

lemma accept_key_simp: "accept_key v (g, c) = accept_char ((silent_pass ^^ (g div 11)) v) c"
  by (simp add: accept_key_def)

lemma passes_simps [simp]:
  "passes [] = 0" "passes (k # ks) = key_passes k + passes ks"
  "passes (ks @ ks') = passes ks + passes ks'"
  by (simp_all add: passes_def)

lemma polls_simps [simp]:
  "polls [] = []" "polls (k # ks) = key_polls k @ polls ks"
  "polls (ks @ ks') = polls ks @ polls ks'"
  by (simp_all add: polls_def)

lemma line_events_simps [simp]:
  "line_events [] = []" "line_events (k # ks) = key_events k @ line_events ks"
  "line_events (ks @ ks') = line_events ks @ line_events ks'"
  by (simp_all add: line_events_def)

lemma passes_length: "length ks \<le> passes ks"
  by (induction ks) (simp_all add: key_passes_def)

text \<open>The passes of the loop on one key that is no terminator.\<close>

lemma fetch_loop_key:
  assumes rx: "rx w = key_polls (g, c) @ rs" and nt: "\<not> is_terminator c"
    and budget: "10 * key_passes (g, c) < unat (fv_timeout_ms v)"
    and i: "unat (fv_index v) < 80" and len: "length (fv_buffer v) = 80"
  shows "fetch_loop v w =
     fetch_loop (accept_key v (g, c)) (w\<lparr>rx := rs, trace := trace w @ key_events (g, c)\<rparr>)"
proof -
  let ?n = "g div 11"
  let ?d = "SysLib_Delay UART_GET_CHAR_DELAY"
  let ?v1 = "(silent_pass ^^ ?n) v"
  let ?w1 = "w\<lparr>rx := replicate (g - 11 * ?n) None @ Some c # rs,
                trace := trace w @ replicate (10 * ?n) ?d\<rparr>"
  have rx': "rx w = replicate g None @ Some c # rs" using rx by simp
  have n1: "11 * ?n \<le> g" by simp
  have n2: "10 * ?n < unat (fv_timeout_ms v)" using budget by simp
  have a: "fetch_loop v w = fetch_loop ?v1 ?w1"
    using fetch_loop_silent_passes [OF rx' n1 n2 i] .
  have le: "10 * ?n \<le> unat (fv_timeout_ms v)" using n2 by simp
  have t: "10 < unat (fv_timeout_ms ?v1)"
    using silent_passes_fields [OF le] budget by simp
  have i1: "unat (fv_index ?v1) < length (fv_buffer ?v1)" using i len by simp
  have i2: "unat (fv_index ?v1) < 80" using i by simp
  have gm: "g - 11 * ?n \<le> 10" by (simp add: minus_mult_div_eq_mod)
  have "rx ?w1 = replicate (g - 11 * ?n) None @ Some c # rs" by simp
  from fetch_body_accept_gap [OF this gm nt t i1]
  have b: "fetch_body ?v1 ?w1 =
     Some (Continue (accept_char ?v1 c,
       ?w1\<lparr>rx := rs, trace := trace ?w1 @ replicate (g - 11 * ?n) ?d @ [UART_Put c]\<rparr>))" .
  have ev: "replicate (10 * ?n) ?d @ replicate (g - 11 * ?n) ?d = replicate (g - ?n) ?d"
    by (simp add: replicate_add [symmetric])
  have ev': "replicate (10 * ?n) ?d @ replicate (g - 11 * ?n) ?d @ [UART_Put c] =
      replicate (g - ?n) ?d @ [UART_Put c]"
    using ev by (metis append_assoc)
  have "fetch_loop ?v1 ?w1 = fetch_loop (accept_char ?v1 c)
       (?w1\<lparr>rx := rs, trace := trace ?w1 @ replicate (g - 11 * ?n) ?d @ [UART_Put c]\<rparr>)"
    using i2 b by (simp add: fetch_loop.simps [of ?v1 ?w1])
  also have "?w1\<lparr>rx := rs, trace := trace ?w1 @ replicate (g - 11 * ?n) ?d @ [UART_Put c]\<rparr> =
      w\<lparr>rx := rs, trace := trace w @ key_events (g, c)\<rparr>"
    using ev' by (simp add: key_events_def)
  finally show ?thesis using a by (simp add: accept_key_simp)
qed

text \<open>The passes of the loop on a terminator.\<close>

lemma fetch_loop_key_terminator:
  assumes rx: "rx w = key_polls (g, t) @ rs" and tm: "is_terminator t"
    and budget: "10 * key_passes (g, t) < unat (fv_timeout_ms v)"
    and i: "unat (fv_index v) < 80"
  shows "fetch_loop v w =
     Some (((silent_pass ^^ (g div 11)) v)
             \<lparr>fv_rslt := CY_RSLT_SUCCESS, fv_ch := t,
              fv_passes := Suc (fv_passes v + g div 11)\<rparr>,
           w\<lparr>rx := rs, trace := trace w @ key_waits (g, t)\<rparr>)"
proof -
  let ?n = "g div 11"
  let ?d = "SysLib_Delay UART_GET_CHAR_DELAY"
  let ?v1 = "(silent_pass ^^ ?n) v"
  let ?w1 = "w\<lparr>rx := replicate (g - 11 * ?n) None @ Some t # rs,
                trace := trace w @ replicate (10 * ?n) ?d\<rparr>"
  have rx': "rx w = replicate g None @ Some t # rs" using rx by simp
  have n1: "11 * ?n \<le> g" by simp
  have n2: "10 * ?n < unat (fv_timeout_ms v)" using budget by simp
  have a: "fetch_loop v w = fetch_loop ?v1 ?w1"
    using fetch_loop_silent_passes [OF rx' n1 n2 i] .
  have le: "10 * ?n \<le> unat (fv_timeout_ms v)" using n2 by simp
  have t: "10 < unat (fv_timeout_ms ?v1)"
    using silent_passes_fields [OF le] budget by simp
  have i2: "unat (fv_index ?v1) < 80" using i by simp
  have gm: "g - 11 * ?n \<le> 10" by (simp add: minus_mult_div_eq_mod)
  have "rx ?w1 = replicate (g - 11 * ?n) None @ Some t # rs" by simp
  from fetch_body_terminator_gap [OF this gm tm t]
  have b: "fetch_body ?v1 ?w1 =
     Some (Break (?v1\<lparr>fv_rslt := CY_RSLT_SUCCESS, fv_ch := t, fv_passes := Suc (fv_passes ?v1)\<rparr>,
       ?w1\<lparr>rx := rs, trace := trace ?w1 @ replicate (g - 11 * ?n) ?d\<rparr>))" .
  have ev: "replicate (10 * ?n) ?d @ replicate (g - 11 * ?n) ?d = replicate (g - ?n) ?d"
    by (simp add: replicate_add [symmetric])
  have "fetch_loop ?v1 ?w1 =
     Some (?v1\<lparr>fv_rslt := CY_RSLT_SUCCESS, fv_ch := t, fv_passes := Suc (fv_passes ?v1)\<rparr>,
       ?w1\<lparr>rx := rs, trace := trace ?w1 @ replicate (g - 11 * ?n) ?d\<rparr>)"
    using i2 b by (simp add: fetch_loop.simps [of ?v1 ?w1])
  also have "?w1\<lparr>rx := rs, trace := trace ?w1 @ replicate (g - 11 * ?n) ?d\<rparr> =
      w\<lparr>rx := rs, trace := trace w @ key_waits (g, t)\<rparr>"
    using ev by simp
  finally show ?thesis using a by simp
qed

text \<open>The budget runs out while the line is silent.\<close>

lemma fetch_loop_key_timeout:
  assumes rx: "rx w = replicate g None @ rs"
    and budget: "unat (fv_timeout_ms v) \<le> 10 * (g div 11 + 1)"
    and i: "unat (fv_index v) < 80"
  shows "fetch_loop v w =
     Some (((silent_pass ^^ ((unat (fv_timeout_ms v) - 1) div 10)) v)
             \<lparr>fv_rslt := CY_SCB_UART_RX_NO_DATA,
              fv_passes := Suc (fv_passes v + (unat (fv_timeout_ms v) - 1) div 10)\<rparr>,
           w\<lparr>rx := replicate (g - 11 * ((unat (fv_timeout_ms v) - 1) div 10)) None @ rs,
             trace := trace w @ replicate (10 * ((unat (fv_timeout_ms v) - 1) div 10))
                        (SysLib_Delay UART_GET_CHAR_DELAY)\<rparr>)"
proof -
  define b where "b = unat (fv_timeout_ms v)"
  define m where "m = (b - 1) div 10"
  define r where "r = (b - 1) mod 10"
  define q where "q = g div 11"
  define p where "p = g mod 11"
  let ?d = "SysLib_Delay UART_GET_CHAR_DELAY"
  let ?v1 = "(silent_pass ^^ m) v"
  let ?w1 = "w\<lparr>rx := replicate (g - 11 * m) None @ rs,
                trace := trace w @ replicate (10 * m) ?d\<rparr>"
  have b1: "b - 1 = 10 * m + r" "r < 10" by (simp_all add: m_def r_def)
  have g1: "g = 11 * q + p" by (simp add: q_def p_def)
  have bq: "b \<le> 10 * (q + 1)" using budget by (simp add: b_def q_def)
  have m: "m \<le> q" using b1 bq by presburger
  have n1: "11 * m \<le> g" using m g1 by linarith
  have le: "10 * m \<le> unat (fv_timeout_ms v)" using b1 by (simp add: b_def [symmetric])
  have a: "fetch_loop v w = fetch_loop ?v1 ?w1"
  proof (cases "m = 0")
    case True
    have "w\<lparr>rx := replicate g None @ rs, trace := trace w @ []\<rparr> = w"
      using rx by (cases w) simp
    then show ?thesis using True by simp
  next
    case False
    then have "10 * m < b" using b1 by linarith
    then have "10 * m < unat (fv_timeout_ms v)" by (simp add: b_def)
    from fetch_loop_silent_passes [OF rx n1 this i] show ?thesis .
  qed
  have "b - 10 * m \<le> 10" using b1 by linarith
  then have t: "unat (fv_timeout_ms ?v1) \<le> 10"
    using silent_passes_fields [OF le] by (simp add: b_def)
  have i2: "unat (fv_index ?v1) < 80" using i by simp
  have b: "fetch_body ?v1 ?w1 =
     Some (Break (?v1\<lparr>fv_rslt := CY_SCB_UART_RX_NO_DATA, fv_passes := Suc (fv_passes ?v1)\<rparr>, ?w1))"
    using t by (simp add: fetch_body_def)
  have "fetch_loop ?v1 ?w1 =
     Some (?v1\<lparr>fv_rslt := CY_SCB_UART_RX_NO_DATA, fv_passes := Suc (fv_passes ?v1)\<rparr>, ?w1)"
    using i2 b by (simp add: fetch_loop.simps [of ?v1 ?w1])
  then show ?thesis using a by (simp add: m_def b_def)
qed

lemma accept_key_fields:
  assumes "10 * key_passes k \<le> unat (fv_timeout_ms v)" "unat (fv_index v) < 80"
  shows "unat (fv_index (accept_key v k)) = unat (fv_index v) + 1"
    and "unat (fv_timeout_ms (accept_key v k)) = unat (fv_timeout_ms v) - 10 * key_passes k"
    and "length (fv_buffer (accept_key v k)) = length (fv_buffer v)"
    and "fv_passes (accept_key v k) = fv_passes v + key_passes k"
proof -
  obtain g c where k: "k = (g, c)" by (cases k)
  let ?v1 = "(silent_pass ^^ (g div 11)) v"
  have le: "10 * (g div 11) \<le> unat (fv_timeout_ms v)" using assms(1) k by simp
  have t1: "unat (fv_timeout_ms ?v1) = unat (fv_timeout_ms v) - 10 * (g div 11)"
    using silent_passes_fields [OF le] by simp
  then have "10 \<le> unat (fv_timeout_ms ?v1)" using assms(1) k by simp
  then have t2: "unat (fv_timeout_ms ?v1 - UART_TIMEOUT_MS) = unat (fv_timeout_ms ?v1) - 10"
    using unat_sub [of UART_TIMEOUT_MS "fv_timeout_ms ?v1"] by (simp add: word_le_nat_alt)
  show "unat (fv_index (accept_key v k)) = unat (fv_index v) + 1"
    using assms(2) by (simp add: k accept_key_simp unat_word_ariths)
  show "unat (fv_timeout_ms (accept_key v k)) = unat (fv_timeout_ms v) - 10 * key_passes k"
    using t1 t2 by (simp add: k accept_key_simp add.commute)
  show "length (fv_buffer (accept_key v k)) = length (fv_buffer v)"
    by (simp add: k accept_key_simp)
  show "fv_passes (accept_key v k) = fv_passes v + key_passes k"
    by (simp add: k accept_key_simp accept_char_def)
qed

lemma foldl_accept_key_fields:
  assumes "unat (fv_index v) + length ks \<le> 80" "10 * passes ks \<le> unat (fv_timeout_ms v)"
  shows "unat (fv_index (foldl accept_key v ks)) = unat (fv_index v) + length ks \<and>
         unat (fv_timeout_ms (foldl accept_key v ks)) = unat (fv_timeout_ms v) - 10 * passes ks \<and>
         length (fv_buffer (foldl accept_key v ks)) = length (fv_buffer v) \<and>
         fv_passes (foldl accept_key v ks) = fv_passes v + passes ks"
  using assms
proof (induction ks arbitrary: v)
  case Nil
  show ?case by simp
next
  case (Cons k ks)
  have a1: "10 * key_passes k \<le> unat (fv_timeout_ms v)" using Cons.prems(2) by simp
  have a2: "unat (fv_index v) < 80" using Cons.prems(1) by simp
  note f = accept_key_fields [OF a1 a2]
  have p1: "unat (fv_index (accept_key v k)) + length ks \<le> 80" using f(1) Cons.prems(1) by simp
  have p2: "10 * passes ks \<le> unat (fv_timeout_ms (accept_key v k))"
    using f(2) Cons.prems(2) by simp
  from Cons.IH [OF p1 p2] f show ?case by simp
qed

lemma accept_char_line:
  assumes "fv_buffer v = fv_buffer u" "fv_index v = fv_index u"
    "fv_space_count v = fv_space_count u"
  shows "fv_buffer (accept_char v c) = fv_buffer (accept_char u c) \<and>
         fv_index (accept_char v c) = fv_index (accept_char u c) \<and>
         fv_space_count (accept_char v c) = fv_space_count (accept_char u c)"
  using assms by (simp add: accept_char_def)

lemma foldl_accept_key_line:
  assumes "fv_buffer v = fv_buffer u" "fv_index v = fv_index u"
    "fv_space_count v = fv_space_count u"
  shows "fv_buffer (foldl accept_key v ks) = fv_buffer (foldl accept_char u (map snd ks)) \<and>
         fv_index (foldl accept_key v ks) = fv_index (foldl accept_char u (map snd ks)) \<and>
         fv_space_count (foldl accept_key v ks) =
           fv_space_count (foldl accept_char u (map snd ks))"
  using assms
proof (induction ks arbitrary: v u)
  case Nil
  then show ?case by simp
next
  case (Cons k ks)
  obtain g c where k: "k = (g, c)" by (cases k)
  let ?v1 = "(silent_pass ^^ (g div 11)) v"
  have "fv_buffer ?v1 = fv_buffer u" "fv_index ?v1 = fv_index u"
    "fv_space_count ?v1 = fv_space_count u"
    using Cons.prems by simp_all
  from accept_char_line [OF this, of c]
  have "fv_buffer (accept_key v k) = fv_buffer (accept_char u c)"
    "fv_index (accept_key v k) = fv_index (accept_char u c)"
    "fv_space_count (accept_key v k) = fv_space_count (accept_char u c)"
    by (simp_all add: k accept_key_simp)
  from Cons.IH [OF this] show ?case by (simp add: k)
qed

lemma foldl_accept_key_rslt:
  assumes "ks \<noteq> []"
  shows "fv_rslt (foldl accept_key v ks) = 1"
proof -
  obtain ks' k where "ks = ks' @ [k]" using assms by (cases ks rule: rev_cases) simp_all
  then show ?thesis by (simp add: accept_key_def accept_char_def)
qed

text \<open>The passes of the loop on keys that are no terminators.\<close>

lemma fetch_loop_keys:
  assumes "rx w = polls ks @ rest" "\<forall>k \<in> set ks. \<not> is_terminator (snd k)"
    "unat (fv_index v) + length ks \<le> 80"
    "10 * passes ks < unat (fv_timeout_ms v) \<or> ks = []"
    "length (fv_buffer v) = 80"
  shows "fetch_loop v w =
     fetch_loop (foldl accept_key v ks) (w\<lparr>rx := rest, trace := trace w @ line_events ks\<rparr>)"
  using assms
proof (induction ks arbitrary: v w)
  case Nil
  then have "w\<lparr>rx := rest, trace := trace w @ line_events []\<rparr> = w"
    by (cases w) simp
  then show ?case by simp
next
  case (Cons k ks)
  obtain g c where k: "k = (g, c)" by (cases k)
  let ?w1 = "w\<lparr>rx := polls ks @ rest, trace := trace w @ key_events (g, c)\<rparr>"
  have i: "unat (fv_index v) < 80" using Cons.prems(3) by simp
  have b: "10 * (key_passes (g, c) + passes ks) < unat (fv_timeout_ms v)"
    using Cons.prems(4) k by simp
  then have b1: "10 * key_passes (g, c) < unat (fv_timeout_ms v)" by simp
  then have b1': "10 * key_passes (g, c) \<le> unat (fv_timeout_ms v)" by simp
  have rx: "rx w = key_polls (g, c) @ (polls ks @ rest)" using Cons.prems(1) k by simp
  have nt: "\<not> is_terminator c" using Cons.prems(2) k by simp
  have one: "fetch_loop v w = fetch_loop (accept_key v (g, c)) ?w1"
    using fetch_loop_key [OF rx nt b1 i Cons.prems(5)] .
  note f = accept_key_fields [OF b1' i]
  have p1: "rx ?w1 = polls ks @ rest" by simp
  have p2: "\<forall>k \<in> set ks. \<not> is_terminator (snd k)" using Cons.prems(2) by simp
  have p3: "unat (fv_index (accept_key v (g, c))) + length ks \<le> 80"
    using f(1) Cons.prems(3) by simp
  have p4: "10 * passes ks < unat (fv_timeout_ms (accept_key v (g, c))) \<or> ks = []"
    using f(2) b by simp linarith
  have p5: "length (fv_buffer (accept_key v (g, c))) = 80" using f(3) Cons.prems(5) by simp
  have "fetch_loop (accept_key v (g, c)) ?w1 =
     fetch_loop (foldl accept_key (accept_key v (g, c)) ks)
       (?w1\<lparr>rx := rest, trace := trace ?w1 @ line_events ks\<rparr>)"
    using Cons.IH [OF p1 p2 p3 p4 p5] .
  then show ?case using one by (simp add: k)
qed

text \<open>What the variables hold after the keys.\<close>

lemma keys_collected:
  assumes "length ks \<le> 80" "10 * passes ks < unat timeout_ms \<or> ks = []" "length buffer = 80"
  shows "unat (fv_index (foldl accept_key (fetch_init buffer timeout_ms) ks)) = length ks"
    and "unat (fv_timeout_ms (foldl accept_key (fetch_init buffer timeout_ms) ks)) =
           unat timeout_ms - 10 * passes ks"
    and "fv_passes (foldl accept_key (fetch_init buffer timeout_ms) ks) = passes ks"
    and "fv_buffer (foldl accept_key (fetch_init buffer timeout_ms) ks) =
           map snd ks @ drop (length ks) buffer"
    and "fv_space_count (foldl accept_key (fetch_init buffer timeout_ms) ks) =
           of_nat (space_keys (map snd ks))"
    and "length (fv_buffer (foldl accept_key (fetch_init buffer timeout_ms) ks)) = 80"
proof -
  let ?v0 = "fetch_init buffer timeout_ms"
  have a1: "unat (fv_index ?v0) + length ks \<le> 80" using assms(1) by simp
  have a2: "10 * passes ks \<le> unat (fv_timeout_ms ?v0)" using assms(2) by auto
  note f = foldl_accept_key_fields [OF a1 a2]
  show "unat (fv_index (foldl accept_key ?v0 ks)) = length ks" using f by simp
  show "unat (fv_timeout_ms (foldl accept_key ?v0 ks)) = unat timeout_ms - 10 * passes ks"
    using f by simp
  show "fv_passes (foldl accept_key ?v0 ks) = passes ks" using f by simp
  show "length (fv_buffer (foldl accept_key ?v0 ks)) = 80" using f assms(3) by simp
  have l: "fv_buffer (foldl accept_key ?v0 ks) = fv_buffer (foldl accept_char ?v0 (map snd ks))"
    "fv_space_count (foldl accept_key ?v0 ks) =
       fv_space_count (foldl accept_char ?v0 (map snd ks))"
    using foldl_accept_key_line [of ?v0 ?v0 ks] by simp_all
  have line: "fv_buffer (foldl accept_char ?v0 (map snd ks)) =
        map snd ks @ drop (length ks) buffer \<and>
      fv_space_count (foldl accept_char ?v0 (map snd ks)) = of_nat (space_keys (map snd ks))"
  proof (cases "ks = []")
    case True
    then show ?thesis by (simp add: space_keys_def)
  next
    case False
    then have "10 * passes ks < unat timeout_ms" using assms(2) by simp
    moreover have "length ks \<le> passes ks" by (rule passes_length)
    ultimately have c2: "10 * length (map snd ks) < unat (fv_timeout_ms ?v0)" by simp
    have c1: "unat (fv_index ?v0) + length (map snd ks) \<le> 80" using assms(1) by simp
    have c3: "length (fv_buffer ?v0) = 80" using assms(3) by simp
    from foldl_accept_fields [OF c1 c2 c3] show ?thesis by simp
  qed
  show "fv_buffer (foldl accept_key ?v0 ks) = map snd ks @ drop (length ks) buffer"
    using l line by simp
  show "fv_space_count (foldl accept_key ?v0 ks) = of_nat (space_keys (map snd ks))"
    using l line by simp
qed

lemma fetch_time_data_keys_line:
  assumes nt: "\<forall>k \<in> set ks. \<not> is_terminator (snd k)" and t: "is_terminator t"
    and rx: "rx w = polls ks @ key_polls (g, t) @ rest"
    and len: "length buffer = 80" and short: "length ks < 80"
    and budget: "10 * (passes ks + key_passes (g, t)) < unat timeout_ms"
  shows "fetch_time_data buffer timeout_ms w =
     Some (CY_RSLT_SUCCESS, map snd ks @ drop (length ks) buffer,
           of_nat (space_keys (map snd ks)),
           w\<lparr>rx := rest,
             trace := trace w @ line_events ks @ key_waits (g, t) @
                      [UART_PutString MSG_NEWLINE]\<rparr>)"
proof -
  let ?v0 = "fetch_init buffer timeout_ms"
  let ?v1 = "foldl accept_key ?v0 ks"
  let ?w1 = "w\<lparr>rx := key_polls (g, t) @ rest, trace := trace w @ line_events ks\<rparr>"
  have a3: "unat (fv_index ?v0) + length ks \<le> 80" using short by simp
  have b1: "10 * passes ks < unat timeout_ms \<or> ks = []" using budget by simp
  then have a4: "10 * passes ks < unat (fv_timeout_ms ?v0) \<or> ks = []" by simp
  have a5: "length (fv_buffer ?v0) = 80" using len by simp
  have unroll: "fetch_loop ?v0 w = fetch_loop ?v1 ?w1"
    using fetch_loop_keys [OF rx nt a3 a4 a5] .
  have le: "length ks \<le> 80" using short by simp
  note f = keys_collected [OF le b1 len]
  have i: "unat (fv_index ?v1) < 80" using f(1) short by simp
  have tm: "10 * key_passes (g, t) < unat (fv_timeout_ms ?v1)"
    using f(2) budget by simp
  have "rx ?w1 = key_polls (g, t) @ rest" by simp
  from fetch_loop_key_terminator [OF this t tm i]
  have "fetch_loop ?v1 ?w1 =
     Some (((silent_pass ^^ (g div 11)) ?v1)
             \<lparr>fv_rslt := CY_RSLT_SUCCESS, fv_ch := t,
              fv_passes := Suc (fv_passes ?v1 + g div 11)\<rparr>,
           ?w1\<lparr>rx := rest, trace := trace ?w1 @ key_waits (g, t)\<rparr>)" .
  then show ?thesis
    using unroll f(4,5)
    by (simp add: fetch_time_data_def Cy_SCB_UART_PutString_def emit_def)
qed

lemma fetch_time_data_keys_full:
  assumes nt: "\<forall>k \<in> set ks. \<not> is_terminator (snd k)"
    and rx: "rx w = polls ks @ rest"
    and len: "length buffer = 80" and full: "length ks = 80"
    and budget: "10 * passes ks < unat timeout_ms"
  shows "fetch_time_data buffer timeout_ms w =
     Some (1, map snd ks, of_nat (space_keys (map snd ks)),
           w\<lparr>rx := rest,
             trace := trace w @ line_events ks @ [UART_PutString MSG_NEWLINE]\<rparr>)"
proof -
  let ?v0 = "fetch_init buffer timeout_ms"
  let ?v1 = "foldl accept_key ?v0 ks"
  let ?w1 = "w\<lparr>rx := rest, trace := trace w @ line_events ks\<rparr>"
  have a3: "unat (fv_index ?v0) + length ks \<le> 80" using full by simp
  have b1: "10 * passes ks < unat timeout_ms \<or> ks = []" using budget by simp
  then have a4: "10 * passes ks < unat (fv_timeout_ms ?v0) \<or> ks = []" by simp
  have a5: "length (fv_buffer ?v0) = 80" using len by simp
  have unroll: "fetch_loop ?v0 w = fetch_loop ?v1 ?w1"
    using fetch_loop_keys [OF rx nt a3 a4 a5] .
  have le: "length ks \<le> 80" using full by simp
  note f = keys_collected [OF le b1 len]
  have ne: "ks \<noteq> []" using full by auto
  have r: "fv_rslt ?v1 = 1" using foldl_accept_key_rslt [OF ne] .
  have i: "\<not> unat (fv_index ?v1) < 80" using f(1) full by simp
  then have "fetch_loop ?v1 ?w1 = Some (?v1, ?w1)"
    by (simp add: fetch_loop.simps [of ?v1 ?w1])
  then show ?thesis
    using unroll f(4,5) r len full
    by (simp add: fetch_time_data_def Cy_SCB_UART_PutString_def emit_def)
qed

lemma fetch_time_data_keys_timeout:
  assumes nt: "\<forall>k \<in> set ks. \<not> is_terminator (snd k)"
    and rx: "rx w = polls ks @ replicate g None @ rest"
    and len: "length buffer = 80" and short: "length ks < 80"
    and b1: "10 * passes ks < unat timeout_ms \<or> ks = []"
    and b2: "unat timeout_ms \<le> 10 * (passes ks + g div 11 + 1)"
  shows "fetch_time_data buffer timeout_ms w =
     Some (CY_SCB_UART_RX_NO_DATA, map snd ks @ drop (length ks) buffer,
           of_nat (space_keys (map snd ks)),
           w\<lparr>rx := replicate (g - 11 * ((unat timeout_ms - 10 * passes ks - 1) div 10)) None
                   @ rest,
             trace := trace w @ line_events ks @
                      replicate (10 * ((unat timeout_ms - 10 * passes ks - 1) div 10))
                        (SysLib_Delay UART_GET_CHAR_DELAY) @
                      [UART_PutString MSG_NEWLINE]\<rparr>)"
proof -
  let ?v0 = "fetch_init buffer timeout_ms"
  let ?v1 = "foldl accept_key ?v0 ks"
  let ?w1 = "w\<lparr>rx := replicate g None @ rest, trace := trace w @ line_events ks\<rparr>"
  have a3: "unat (fv_index ?v0) + length ks \<le> 80" using short by simp
  have a4: "10 * passes ks < unat (fv_timeout_ms ?v0) \<or> ks = []" using b1 by simp
  have a5: "length (fv_buffer ?v0) = 80" using len by simp
  have unroll: "fetch_loop ?v0 w = fetch_loop ?v1 ?w1"
    using fetch_loop_keys [OF rx nt a3 a4 a5] .
  have le: "length ks \<le> 80" using short by simp
  note f = keys_collected [OF le b1 len]
  have i: "unat (fv_index ?v1) < 80" using f(1) short by simp
  have tm: "unat (fv_timeout_ms ?v1) \<le> 10 * (g div 11 + 1)"
    using f(2) b2 by simp
  have "rx ?w1 = replicate g None @ rest" by simp
  from fetch_loop_key_timeout [OF this tm i]
  have "fetch_loop ?v1 ?w1 =
     Some (((silent_pass ^^ ((unat (fv_timeout_ms ?v1) - 1) div 10)) ?v1)
             \<lparr>fv_rslt := CY_SCB_UART_RX_NO_DATA,
              fv_passes := Suc (fv_passes ?v1 + (unat (fv_timeout_ms ?v1) - 1) div 10)\<rparr>,
           ?w1\<lparr>rx := replicate (g - 11 * ((unat (fv_timeout_ms ?v1) - 1) div 10)) None @ rest,
             trace := trace ?w1 @ replicate (10 * ((unat (fv_timeout_ms ?v1) - 1) div 10))
                        (SysLib_Delay UART_GET_CHAR_DELAY)\<rparr>)" .
  then show ?thesis
    using unroll f(2,4,5)
    by (simp add: fetch_time_data_def Cy_SCB_UART_PutString_def emit_def)
qed

text \<open>A line that stays silent.\<close>

lemma getc_wait_all_silent:
  assumes "\<forall>r \<in> set (rx w). r = None"
  shows "\<exists>w'. getc_wait ticks None w = (None, w') \<and> (\<forall>r \<in> set (rx w'). r = None)"
  using assms
proof (induction ticks arbitrary: w)
  case 0
  then show ?case by simp
next
  case (Suc n)
  obtain r w1 where g: "Cy_SCB_UART_Get (Cy_SysLib_Delay UART_GET_CHAR_DELAY w) = (r, w1)"
    by (cases "Cy_SCB_UART_Get (Cy_SysLib_Delay UART_GET_CHAR_DELAY w)")
  have "r = None \<and> (\<forall>r \<in> set (rx w1). r = None)"
    using g Suc.prems
    by (auto simp: Cy_SCB_UART_Get_def Cy_SysLib_Delay_def emit_def split: list.splits)
  then show ?case using Suc.IH [of w1] g by simp
qed

lemma fetch_body_all_silent:
  assumes "\<forall>r \<in> set (rx w). r = None" "10 < unat (fv_timeout_ms v)"
  shows "\<exists>w'. fetch_body v w = Some (Continue (silent_pass v, w')) \<and>
              (\<forall>r \<in> set (rx w'). r = None)"
proof -
  obtain r w1 where g: "Cy_SCB_UART_Get w = (r, w1)" by (cases "Cy_SCB_UART_Get w")
  have r: "r = None" and s: "\<forall>r \<in> set (rx w1). r = None"
    using g assms(1) by (auto simp: Cy_SCB_UART_Get_def split: list.splits)
  obtain w2 where w2: "getc_wait (unat UART_TIMEOUT_MS) None w1 = (None, w2)"
    and s2: "\<forall>r \<in> set (rx w2). r = None"
    using getc_wait_all_silent [OF s] by blast
  have "user_uart_getc (fv_ch v) UART_TIMEOUT_MS w = Some (CY_SCB_UART_RX_NO_DATA, fv_ch v, w2)"
    using g r w2 by (simp add: user_uart_getc_def)
  then have "fetch_body v w = Some (Continue (silent_pass v, w2))"
    using assms(2) by (simp add: fetch_body_def Let_def silent_pass_def)
  then show ?thesis using s2 by blast
qed

lemma fetch_loop_all_silent:
  assumes "\<forall>r \<in> set (rx w). r = None" "unat (fv_index v) < 80"
  shows "\<exists>vz wz. fetch_loop v w = Some (vz, wz) \<and> fv_rslt vz = CY_SCB_UART_RX_NO_DATA \<and>
           fv_buffer vz = fv_buffer v \<and> fv_space_count vz = fv_space_count v \<and>
           fv_index vz = fv_index v"
  using assms
proof (induction v w rule: fetch_loop.induct)
  case (1 v w)
  show ?case
  proof (cases "unat (fv_timeout_ms v) \<le> 10")
    case True
    then have "fetch_body v w = Some (Break (v\<lparr>fv_rslt := CY_SCB_UART_RX_NO_DATA,
                          fv_passes := Suc (fv_passes v)\<rparr>, w))"
      by (simp add: fetch_body_def)
    then show ?thesis using "1.prems"(2) by (simp add: fetch_loop.simps [of v w])
  next
    case False
    then have t: "10 < unat (fv_timeout_ms v)" by simp
    obtain w' where b: "fetch_body v w = Some (Continue (silent_pass v, w'))"
      and s: "\<forall>r \<in> set (rx w'). r = None"
      using fetch_body_all_silent [OF "1.prems"(1) t] by blast
    have g: "fv_index v < STRING_BUFFER_SIZE" using "1.prems"(2) by simp
    have i: "unat (fv_index (silent_pass v)) < 80" using "1.prems"(2) by simp
    from "1.IH" [OF g b refl refl s i]
    obtain vz wz where "fetch_loop (silent_pass v) w' = Some (vz, wz)"
      "fv_rslt vz = CY_SCB_UART_RX_NO_DATA"
      "fv_buffer vz = fv_buffer (silent_pass v)"
      "fv_space_count vz = fv_space_count (silent_pass v)"
      "fv_index vz = fv_index (silent_pass v)"
      by blast
    then show ?thesis using g b by (simp add: fetch_loop.simps [of v w])
  qed
qed

lemma fetch_time_data_keys_silence:
  assumes nt: "\<forall>k \<in> set ks. \<not> is_terminator (snd k)"
    and rx: "rx w = polls ks @ replicate g None"
    and len: "length buffer = 80" and short: "length ks < 80"
    and b1: "10 * passes ks < unat timeout_ms \<or> ks = []"
  shows "\<exists>w'. fetch_time_data buffer timeout_ms w =
     Some (CY_SCB_UART_RX_NO_DATA, map snd ks @ drop (length ks) buffer,
           of_nat (space_keys (map snd ks)), w')"
proof -
  let ?v0 = "fetch_init buffer timeout_ms"
  let ?v1 = "foldl accept_key ?v0 ks"
  let ?w1 = "w\<lparr>rx := replicate g None, trace := trace w @ line_events ks\<rparr>"
  have a3: "unat (fv_index ?v0) + length ks \<le> 80" using short by simp
  have a4: "10 * passes ks < unat (fv_timeout_ms ?v0) \<or> ks = []" using b1 by simp
  have a5: "length (fv_buffer ?v0) = 80" using len by simp
  have unroll: "fetch_loop ?v0 w = fetch_loop ?v1 ?w1"
    using fetch_loop_keys [OF rx nt a3 a4 a5] .
  have le: "length ks \<le> 80" using short by simp
  note f = keys_collected [OF le b1 len]
  have i: "unat (fv_index ?v1) < 80" using f(1) short by simp
  have s: "\<forall>r \<in> set (rx ?w1). r = None" by simp
  from fetch_loop_all_silent [OF s i]
  obtain vz wz where "fetch_loop ?v1 ?w1 = Some (vz, wz)"
    "fv_rslt vz = CY_SCB_UART_RX_NO_DATA"
    "fv_buffer vz = fv_buffer ?v1" "fv_space_count vz = fv_space_count ?v1"
    by blast
  then show ?thesis
    using unroll f(4,5) by (simp add: fetch_time_data_def)
qed

text \<open>Every sequence of polls is one of keys followed by silence.\<close>

lemma polls_decomposition: "\<exists>ks g. xs = polls ks @ replicate g None"
proof (induction xs)
  case Nil
  have "[] = polls [] @ replicate 0 None" by simp
  then show ?case by blast
next
  case (Cons x xs)
  then obtain ks g where xs: "xs = polls ks @ replicate g None" by blast
  show ?case
  proof (cases x)
    case (Some c)
    then have "x # xs = polls ((0, c) # ks) @ replicate g None" using xs by simp
    then show ?thesis by blast
  next
    case None
    show ?thesis
    proof (cases ks)
      case Nil
      then have "x # xs = polls [] @ replicate (Suc g) None" using xs None by simp
      then show ?thesis by blast
    next
      case (Cons k ks')
      obtain h c where k: "k = (h, c)" by (cases k)
      have "x # xs = polls ((Suc h, c) # ks') @ replicate g None"
        using xs None Cons k by simp
      then show ?thesis by blast
    qed
  qed
qed

text \<open>Keys that are waiting when the collection starts.\<close>

lemma waiting_keys [simp]:
  "polls (map (Pair 0) cs) = map Some cs"
  "passes (map (Pair 0) cs) = length cs"
  "line_events (map (Pair 0) cs) = map UART_Put cs"
  by (induction cs) (simp_all add: key_events_def)

text \<open>
  Claim C6: for every input byte sequence the line collector ends with success at the
  first line feed or carriage return, which is not part of the line; every character
  before it, spaces included, is appended in the order of arrival until 80 characters
  are stored, where the collection stops; the delimiter count is the number of spaces
  appended; the input "03 15 10 30 00 24" followed by a line feed gives this line, the
  count 5 and success.

  The collection also ends when the budget \<open>timeout_ms\<close> is used up (lines 651-655),
  and every pass of the loop takes \<open>UART_TIMEOUT_MS\<close> off the budget. With the budget 100
  the input of the claim, all of it waiting on the serial line, gives the timeout
  status, the nine characters "03 15 10 " and the count 3.
\<close>

theorem fetch_time_data_budget_too_small:
  "fetch_time_data (replicate 80 (CHR 0x00)) 100
     (power_on (map Some ''03 15 10 30 00 24'' @ [Some (CHR 0x0A)]) (\<lambda>k. CY_RTC_SUCCESS) False) =
   Some (CY_SCB_UART_RX_NO_DATA, ''03 15 10 '' @ replicate 71 (CHR 0x00), 3,
         (power_on (map Some ''30 00 24'' @ [Some (CHR 0x0A)]) (\<lambda>k. CY_RTC_SUCCESS) False)
           \<lparr>trace := map UART_Put ''03 15 10 '' @ [UART_PutString MSG_NEWLINE]\<rparr>)"
proof -
  let ?w = "power_on (map Some ''03 15 10 30 00 24'' @ [Some (CHR 0x0A)])
              (\<lambda>k. CY_RTC_SUCCESS) False"
  let ?ks = "map (Pair 0) ''03 15 10 ''"
  have nt: "\<forall>k \<in> set ?ks. \<not> is_terminator (snd k)" by (simp add: is_terminator_def)
  have rx: "rx ?w = polls ?ks @ replicate 0 None @ (map Some ''30 00 24'' @ [Some (CHR 0x0A)])"
    unfolding waiting_keys by (simp add: power_on_def)
  have len: "length (replicate 80 (CHR 0x00)) = 80" by simp
  have short: "length ?ks < 80" by simp
  have b1: "10 * passes ?ks < unat (100 :: u32) \<or> ?ks = []"
    unfolding waiting_keys by simp
  have b2: "unat (100 :: u32) \<le> 10 * (passes ?ks + 0 div 11 + 1)"
    unfolding waiting_keys by simp
  show ?thesis
    unfolding fetch_time_data_keys_timeout [OF nt rx len short b1 b2] waiting_keys
    by (simp add: power_on_def space_keys_def)
qed

text \<open>
  Claim C6, as amended: for every input byte sequence, whatever the number of silent
  polls before each of its bytes, and for every budget that lasts for the passes of the
  loop up to the terminator or the 80th character (the budget is above \<open>UART_TIMEOUT_MS\<close>
  times the number of these passes: one for a byte, and one more for every
  \<open>UART_TIMEOUT_MS\<close> + 1 silent polls before it), the line collector ends with success at
  the first line feed or carriage return, which is not part of the line; every
  character before it, spaces included, is appended in the order of arrival until 80
  characters are stored, where the collection stops with the status of the echo; the
  delimiter count is the number of spaces appended. The input "03 15 10 30 00 24"
  followed by a line feed gives this line, the count 5 and success under the budget
  \<open>INPUT_TIMEOUT_MS\<close> of the callers, typed slowly or all of it waiting (the witness).

  The keys \<open>ks\<close> are no terminators, \<open>t\<close> is one and comes after \<open>g\<close> silent polls. The
  bytes of the buffer behind the line keep their values, which are zero in the callers'
  buffers. The world of the result has all that the function has done: the polls used
  up, the delays of the waiting, the echo of each character and the line end.
\<close>

theorem fetch_time_data_collects:
  assumes nt: "\<forall>k \<in> set ks. \<not> is_terminator (snd k)" and t: "is_terminator t"
    and rx: "rx w = polls (ks @ [(g, t)]) @ rest"
    and len: "length buffer = 80"
    and budget: "10 * passes (take 80 (ks @ [(g, t)])) < unat timeout_ms"
  shows "fetch_time_data buffer timeout_ms w =
     (if length ks < 80
      then Some (CY_RSLT_SUCCESS, map snd ks @ drop (length ks) buffer,
                 of_nat (space_keys (map snd ks)),
                 w\<lparr>rx := rest,
                   trace := trace w @ line_events ks @ key_waits (g, t) @
                            [UART_PutString MSG_NEWLINE]\<rparr>)
      else Some (1, map snd (take 80 ks), of_nat (space_keys (map snd (take 80 ks))),
                 w\<lparr>rx := polls (drop 80 ks @ [(g, t)]) @ rest,
                   trace := trace w @ line_events (take 80 ks) @
                            [UART_PutString MSG_NEWLINE]\<rparr>))"
proof (cases "length ks < 80")
  case True
  then have b: "10 * (passes ks + key_passes (g, t)) < unat timeout_ms" using budget by simp
  have rx': "rx w = polls ks @ key_polls (g, t) @ rest" using rx by simp
  from fetch_time_data_keys_line [OF nt t rx' len True b] True show ?thesis by simp
next
  case False
  have nt': "\<forall>k \<in> set (take 80 ks). \<not> is_terminator (snd k)"
    using nt by (auto dest: in_set_takeD)
  have "polls ks = polls (take 80 ks) @ polls (drop 80 ks)"
    using polls_simps(3) [of "take 80 ks" "drop 80 ks"] by simp
  then have rx': "rx w = polls (take 80 ks) @ (polls (drop 80 ks @ [(g, t)]) @ rest)"
    using rx by simp
  have l: "length (take 80 ks) = 80" using False by simp
  have b: "10 * passes (take 80 ks) < unat timeout_ms" using budget False by simp
  from fetch_time_data_keys_full [OF nt' rx' len l b] False show ?thesis by simp
qed

theorem fetch_time_data_collects_witness:
  "fetch_time_data (replicate 80 (CHR 0x00)) INPUT_TIMEOUT_MS
     (power_on (polls (slow_line @ [(4, CHR 0x0A)])) (\<lambda>k. CY_RTC_SUCCESS) False) =
   Some (CY_RSLT_SUCCESS, ''03 15 10 30 00 24'' @ replicate 63 (CHR 0x00), 5,
         (power_on [] (\<lambda>k. CY_RTC_SUCCESS) False)
           \<lparr>trace := line_events slow_line @
                      replicate 4 (SysLib_Delay UART_GET_CHAR_DELAY) @
                      [UART_PutString MSG_NEWLINE]\<rparr>) \<and>
   passes slow_line = 22 \<and>
   fetch_time_data (replicate 80 (CHR 0x00)) INPUT_TIMEOUT_MS
     (power_on (map Some ''03 15 10 30 00 24'' @ [Some (CHR 0x0A)]) (\<lambda>k. CY_RTC_SUCCESS) False) =
   Some (CY_RSLT_SUCCESS, ''03 15 10 30 00 24'' @ replicate 63 (CHR 0x00), 5,
         (power_on [] (\<lambda>k. CY_RTC_SUCCESS) False)
           \<lparr>trace := map UART_Put ''03 15 10 30 00 24'' @ [UART_PutString MSG_NEWLINE]\<rparr>)"
proof -
  note claim = fetch_time_data_collects
  let ?w = "power_on (polls (slow_line @ [(4, CHR 0x0A)])) (\<lambda>k. CY_RTC_SUCCESS) False"
  have p: "passes slow_line = 22" by (simp add: slow_line_def)
  have l: "length slow_line = 17" "map snd slow_line = ''03 15 10 30 00 24''"
    by (simp_all add: slow_line_def)
  have nt: "\<forall>k \<in> set slow_line. \<not> is_terminator (snd k)"
    by (simp add: slow_line_def is_terminator_def)
  have t: "is_terminator (CHR 0x0A)" by (simp add: is_terminator_def)
  have rx: "rx ?w = polls (slow_line @ [(4, CHR 0x0A)]) @ []" by (simp add: power_on_def)
  have len: "length (replicate 80 (CHR 0x00)) = 80" by simp
  have "take 80 (slow_line @ [(4, CHR 0x0A)]) = slow_line @ [(4, CHR 0x0A)]"
    using l(1) by simp
  then have b: "10 * passes (take 80 (slow_line @ [(4, CHR 0x0A)])) < unat INPUT_TIMEOUT_MS"
    using p by (simp add: INPUT_TIMEOUT_MS_def)
  have one: "fetch_time_data (replicate 80 (CHR 0x00)) INPUT_TIMEOUT_MS ?w =
   Some (CY_RSLT_SUCCESS, ''03 15 10 30 00 24'' @ replicate 63 (CHR 0x00), 5,
         (power_on [] (\<lambda>k. CY_RTC_SUCCESS) False)
           \<lparr>trace := line_events slow_line @
                      replicate 4 (SysLib_Delay UART_GET_CHAR_DELAY) @
                      [UART_PutString MSG_NEWLINE]\<rparr>)"
    unfolding claim [OF nt t rx len b]
    by (simp add: l power_on_def space_keys_def)
  let ?u = "power_on (map Some ''03 15 10 30 00 24'' @ [Some (CHR 0x0A)])
              (\<lambda>k. CY_RTC_SUCCESS) False"
  let ?ks = "map (Pair 0) ''03 15 10 30 00 24''"
  have nt2: "\<forall>k \<in> set ?ks. \<not> is_terminator (snd k)" by (simp add: is_terminator_def)
  have rx2: "rx ?u = polls (?ks @ [(0, CHR 0x0A)]) @ []"
    unfolding polls_simps waiting_keys by (simp add: power_on_def)
  have b2: "10 * passes (take 80 (?ks @ [(0, CHR 0x0A)])) < unat INPUT_TIMEOUT_MS"
    by (simp add: INPUT_TIMEOUT_MS_def)
  have two: "fetch_time_data (replicate 80 (CHR 0x00)) INPUT_TIMEOUT_MS ?u =
   Some (CY_RSLT_SUCCESS, ''03 15 10 30 00 24'' @ replicate 63 (CHR 0x00), 5,
         (power_on [] (\<lambda>k. CY_RTC_SUCCESS) False)
           \<lparr>trace := map UART_Put ''03 15 10 30 00 24'' @ [UART_PutString MSG_NEWLINE]\<rparr>)"
    unfolding claim [OF nt2 t rx2 len b2]
    by (simp add: power_on_def space_keys_def key_events_def)
  show ?thesis using one p two by simp
qed

lemma passes_replicate [simp]: "passes (replicate n k) = n * key_passes k"
  by (induction n) simp_all

lemma polls_replicate_waiting: "polls (replicate n (0, c)) = replicate n (Some c)"
  by (induction n) simp_all

lemma line_events_replicate_waiting:
  "line_events (replicate n (0, c)) = replicate n (UART_Put c)"
  by (induction n) (simp_all add: key_events_def)

text \<open>
  Claim C7: the line collector returns the timeout status exactly when the remaining
  budget has dropped to the timeout of a single read or below, before a terminator has
  come and before the buffer of 80 bytes is full; more than 80 characters without a
  terminator give a line cut to its first 80 characters and a status that is not the
  timeout.

  The second part does not hold under every budget, since every character takes
  \<open>UART_TIMEOUT_MS\<close> off the budget: with the budget 800 and 85 characters waiting on the
  serial line, the 80th pass of the loop finds the budget at 10 and leaves with the
  timeout status and 79 characters.
\<close>

theorem fetch_time_data_full_line_times_out:
  "fetch_time_data (replicate 80 (CHR 0x00)) 800
     (power_on (replicate 85 (Some (CHR ''a''))) (\<lambda>k. CY_RTC_SUCCESS) False) =
   Some (CY_SCB_UART_RX_NO_DATA, replicate 79 (CHR ''a'') @ [CHR 0x00], 0,
         (power_on (replicate 6 (Some (CHR ''a''))) (\<lambda>k. CY_RTC_SUCCESS) False)
           \<lparr>trace := replicate 79 (UART_Put (CHR ''a'')) @ [UART_PutString MSG_NEWLINE]\<rparr>)"
proof -
  let ?w = "power_on (replicate 85 (Some (CHR ''a''))) (\<lambda>k. CY_RTC_SUCCESS) False"
  let ?ks = "replicate 79 (0 :: nat, CHR ''a'')"
  have nt: "\<forall>k \<in> set ?ks. \<not> is_terminator (snd k)" by (simp add: is_terminator_def)
  have "replicate 85 (Some (CHR ''a'')) =
      replicate 79 (Some (CHR ''a'')) @ replicate 6 (Some (CHR ''a''))"
    by (simp add: replicate_add [symmetric])
  then have rx: "rx ?w = polls ?ks @ replicate 0 None @ replicate 6 (Some (CHR ''a''))"
    unfolding polls_replicate_waiting by (simp add: power_on_def)
  have len: "length (replicate 80 (CHR 0x00)) = 80" by simp
  have short: "length ?ks < 80" by simp
  have b1: "10 * passes ?ks < unat (800 :: u32) \<or> ?ks = []" by simp
  have b2: "unat (800 :: u32) \<le> 10 * (passes ?ks + 0 div 11 + 1)" by simp
  have sp: "space_keys (replicate 79 (CHR ''a'')) = 0" by (simp add: space_keys_def)
  show ?thesis
    unfolding fetch_time_data_keys_timeout [OF nt rx len short b1 b2]
      line_events_replicate_waiting
    by (simp add: power_on_def sp)
qed

text \<open>
  Claim C7, as amended: the line collector returns the timeout status exactly when the
  remaining budget has dropped to the timeout of a single read or below, before a
  terminator has come and before the buffer of 80 bytes is full; 80 characters or more
  without a terminator give a line cut to its first 80 characters and a status that is
  not the timeout when the budget lasts for the passes of these 80 characters; when
  the budget lasts for some characters and not for the next byte, or the line stays
  silent after them, the collector returns the timeout status and these characters.

  The first part speaks about the variables with which the loop ends: the status is
  \<open>CY_SCB_UART_RX_NO_DATA\<close> exactly when the budget left is at most \<open>UART_TIMEOUT_MS\<close> and
  the index is below 80 (a terminator leaves the loop with a budget above
  \<open>UART_TIMEOUT_MS\<close>, a full buffer with the index 80). The other parts speak about the
  input, keys \<open>ks\<close> that are no terminators: when the budget lasts for them and not for a
  byte after \<open>g\<close> more silent polls, whatever follows these, the result is the timeout
  status with the bytes of \<open>ks\<close>; and so it is under every budget that lasts for \<open>ks\<close>
  when the line stays silent after them.
\<close>

theorem fetch_time_data_timeout:
  assumes len: "length buffer = 80"
  shows "(\<exists>vz wz. fetch_loop (fetch_init buffer timeout_ms) w = Some (vz, wz) \<and>
            fetch_time_data buffer timeout_ms w =
              Some (fv_rslt vz, fv_buffer vz, fv_space_count vz,
                    Cy_SCB_UART_PutString MSG_NEWLINE wz) \<and>
            ((fv_rslt vz = CY_SCB_UART_RX_NO_DATA) =
             (fv_timeout_ms vz \<le> UART_TIMEOUT_MS \<and> fv_index vz < STRING_BUFFER_SIZE))) \<and>
         ((\<forall>k \<in> set ks. \<not> is_terminator (snd k)) \<and> 80 \<le> length ks \<and>
          rx w = polls ks @ rest \<and> 10 * passes (take 80 ks) < unat timeout_ms \<longrightarrow>
            fetch_time_data buffer timeout_ms w =
              Some (1, map snd (take 80 ks), of_nat (space_keys (map snd (take 80 ks))),
                    w\<lparr>rx := polls (drop 80 ks) @ rest,
                      trace := trace w @ line_events (take 80 ks) @
                               [UART_PutString MSG_NEWLINE]\<rparr>) \<and>
            1 \<noteq> CY_SCB_UART_RX_NO_DATA) \<and>
         ((\<forall>k \<in> set ks. \<not> is_terminator (snd k)) \<and> length ks < 80 \<and>
          rx w = polls ks @ replicate g None @ rest \<and>
          (10 * passes ks < unat timeout_ms \<or> ks = []) \<and>
          unat timeout_ms \<le> 10 * (passes ks + g div Suc (unat UART_TIMEOUT_MS) + 1) \<longrightarrow>
            (\<exists>w'. fetch_time_data buffer timeout_ms w =
              Some (CY_SCB_UART_RX_NO_DATA, map snd ks @ drop (length ks) buffer,
                    of_nat (space_keys (map snd ks)), w'))) \<and>
         ((\<forall>k \<in> set ks. \<not> is_terminator (snd k)) \<and> length ks < 80 \<and>
          rx w = polls ks @ replicate g None \<and>
          (10 * passes ks < unat timeout_ms \<or> ks = []) \<longrightarrow>
            (\<exists>w'. fetch_time_data buffer timeout_ms w =
              Some (CY_SCB_UART_RX_NO_DATA, map snd ks @ drop (length ks) buffer,
                    of_nat (space_keys (map snd ks)), w')))"
proof (intro conjI impI)
  have "length (fv_buffer (fetch_init buffer timeout_ms)) = 80" using len by simp
  then obtain r where "fetch_loop (fetch_init buffer timeout_ms) w = Some r"
    using fetch_loop_returns by blast
  then obtain vz wz where run: "fetch_loop (fetch_init buffer timeout_ms) w = Some (vz, wz)"
    by (cases r) simp
  have "fv_index (fetch_init buffer timeout_ms) < STRING_BUFFER_SIZE \<or>
        fv_rslt (fetch_init buffer timeout_ms) \<noteq> CY_SCB_UART_RX_NO_DATA"
    by (simp del: index_below)
  from fetch_loop_timeout_iff [OF run this] run
  show "\<exists>vz wz. fetch_loop (fetch_init buffer timeout_ms) w = Some (vz, wz) \<and>
            fetch_time_data buffer timeout_ms w =
              Some (fv_rslt vz, fv_buffer vz, fv_space_count vz,
                    Cy_SCB_UART_PutString MSG_NEWLINE wz) \<and>
            ((fv_rslt vz = CY_SCB_UART_RX_NO_DATA) =
             (fv_timeout_ms vz \<le> UART_TIMEOUT_MS \<and> fv_index vz < STRING_BUFFER_SIZE))"
    by (simp add: fetch_time_data_def del: index_below budget_above)
next
  assume a: "(\<forall>k \<in> set ks. \<not> is_terminator (snd k)) \<and> 80 \<le> length ks \<and>
          rx w = polls ks @ rest \<and> 10 * passes (take 80 ks) < unat timeout_ms"
  have nt': "\<forall>k \<in> set (take 80 ks). \<not> is_terminator (snd k)"
    using a by (auto dest: in_set_takeD)
  have "polls ks = polls (take 80 ks) @ polls (drop 80 ks)"
    using polls_simps(3) [of "take 80 ks" "drop 80 ks"] by simp
  then have rx': "rx w = polls (take 80 ks) @ (polls (drop 80 ks) @ rest)"
    using a by simp
  have l: "length (take 80 ks) = 80" using a by simp
  have b: "10 * passes (take 80 ks) < unat timeout_ms" using a by simp
  from fetch_time_data_keys_full [OF nt' rx' len l b]
  show "fetch_time_data buffer timeout_ms w =
              Some (1, map snd (take 80 ks), of_nat (space_keys (map snd (take 80 ks))),
                    w\<lparr>rx := polls (drop 80 ks) @ rest,
                      trace := trace w @ line_events (take 80 ks) @
                               [UART_PutString MSG_NEWLINE]\<rparr>)"
    by simp
  show "1 \<noteq> CY_SCB_UART_RX_NO_DATA" by simp
next
  assume a: "(\<forall>k \<in> set ks. \<not> is_terminator (snd k)) \<and> length ks < 80 \<and>
          rx w = polls ks @ replicate g None @ rest \<and>
          (10 * passes ks < unat timeout_ms \<or> ks = []) \<and>
          unat timeout_ms \<le> 10 * (passes ks + g div Suc (unat UART_TIMEOUT_MS) + 1)"
  then have nt: "\<forall>k \<in> set ks. \<not> is_terminator (snd k)" and short: "length ks < 80"
    and rx: "rx w = polls ks @ replicate g None @ rest"
    and b1: "10 * passes ks < unat timeout_ms \<or> ks = []"
    and b2: "unat timeout_ms \<le> 10 * (passes ks + g div 11 + 1)"
    by simp_all
  from fetch_time_data_keys_timeout [OF nt rx len short b1 b2]
  show "\<exists>w'. fetch_time_data buffer timeout_ms w =
              Some (CY_SCB_UART_RX_NO_DATA, map snd ks @ drop (length ks) buffer,
                    of_nat (space_keys (map snd ks)), w')"
    by blast
next
  assume a: "(\<forall>k \<in> set ks. \<not> is_terminator (snd k)) \<and> length ks < 80 \<and>
          rx w = polls ks @ replicate g None \<and>
          (10 * passes ks < unat timeout_ms \<or> ks = [])"
  then have nt: "\<forall>k \<in> set ks. \<not> is_terminator (snd k)" and short: "length ks < 80"
    and rx: "rx w = polls ks @ replicate g None"
    and b1: "10 * passes ks < unat timeout_ms \<or> ks = []"
    by simp_all
  from fetch_time_data_keys_silence [OF nt rx len short b1]
  show "\<exists>w'. fetch_time_data buffer timeout_ms w =
              Some (CY_SCB_UART_RX_NO_DATA, map snd ks @ drop (length ks) buffer,
                    of_nat (space_keys (map snd ks)), w')" .
qed

theorem fetch_time_data_timeout_witness:
  "(\<exists>vz wz. fetch_loop (fetch_init (replicate 80 (CHR 0x00)) 30)
               (power_on (polls [(0, CHR ''a''), (30, CHR ''b'')]) (\<lambda>k. CY_RTC_SUCCESS) False) =
               Some (vz, wz) \<and>
            fetch_time_data (replicate 80 (CHR 0x00)) 30
               (power_on (polls [(0, CHR ''a''), (30, CHR ''b'')]) (\<lambda>k. CY_RTC_SUCCESS) False) =
              Some (fv_rslt vz, fv_buffer vz, fv_space_count vz,
                    Cy_SCB_UART_PutString MSG_NEWLINE wz) \<and>
            fv_rslt vz = CY_SCB_UART_RX_NO_DATA \<and>
            fv_timeout_ms vz \<le> UART_TIMEOUT_MS \<and> fv_index vz < STRING_BUFFER_SIZE \<and>
            fv_buffer vz = CHR ''a'' # replicate 79 (CHR 0x00) \<and> fv_space_count vz = 0) \<and>
   fetch_time_data (replicate 80 (CHR 0x00)) 5000
      (power_on (polls (replicate 85 (12, CHR ''a''))) (\<lambda>k. CY_RTC_SUCCESS) False) =
     Some (1, replicate 80 (CHR ''a''), 0,
           (power_on (polls (replicate 5 (12, CHR ''a''))) (\<lambda>k. CY_RTC_SUCCESS) False)
             \<lparr>trace := line_events (replicate 80 (12, CHR ''a'')) @
                        [UART_PutString MSG_NEWLINE]\<rparr>) \<and>
   (1 :: u32) \<noteq> CY_SCB_UART_RX_NO_DATA \<and>
   (\<exists>w'. fetch_time_data (replicate 80 (CHR 0x00)) INPUT_TIMEOUT_MS
            (power_on (polls [(0, CHR ''a''), (0, CHR ''b'')] @ replicate 3 None)
               (\<lambda>k. CY_RTC_SUCCESS) False) =
          Some (CY_SCB_UART_RX_NO_DATA, ''ab'' @ replicate 78 (CHR 0x00), 0, w'))"
proof -
  note claim = fetch_time_data_timeout
  have len: "length (replicate 80 (CHR 0x00)) = 80" by simp
  let ?z = "replicate 80 (CHR 0x00)"
  let ?wa = "power_on (polls [(0, CHR ''a''), (30, CHR ''b'')]) (\<lambda>k. CY_RTC_SUCCESS) False"
  have ha: "(\<forall>k \<in> set [(0 :: nat, CHR ''a'')]. \<not> is_terminator (snd k)) \<and>
      length [(0 :: nat, CHR ''a'')] < 80 \<and>
      rx ?wa = polls [(0, CHR ''a'')] @ replicate 30 None @ [Some (CHR ''b'')] \<and>
      (10 * passes [(0, CHR ''a'')] < unat (30 :: u32) \<or> [(0 :: nat, CHR ''a'')] = []) \<and>
      unat (30 :: u32) \<le> 10 * (passes [(0, CHR ''a'')] + 30 div Suc (unat UART_TIMEOUT_MS) + 1)"
    by (simp add: is_terminator_def power_on_def)
  from claim [OF len, of 30 ?wa "[(0, CHR ''a'')]" "[Some (CHR ''b'')]" 30] ha
  obtain vz wz w' where run: "fetch_loop (fetch_init ?z 30) ?wa = Some (vz, wz)"
    and res: "fetch_time_data ?z 30 ?wa =
              Some (fv_rslt vz, fv_buffer vz, fv_space_count vz,
                    Cy_SCB_UART_PutString MSG_NEWLINE wz)"
    and iff: "(fv_rslt vz = CY_SCB_UART_RX_NO_DATA) =
             (fv_timeout_ms vz \<le> UART_TIMEOUT_MS \<and> fv_index vz < STRING_BUFFER_SIZE)"
    and out: "fetch_time_data ?z 30 ?wa =
              Some (CY_SCB_UART_RX_NO_DATA,
                    map snd [(0 :: nat, CHR ''a'')] @ drop (length [(0 :: nat, CHR ''a'')]) ?z,
                    of_nat (space_keys (map snd [(0 :: nat, CHR ''a'')])), w')"
    by blast
  have r: "fv_rslt vz = CY_SCB_UART_RX_NO_DATA"
    and b: "fv_buffer vz = CHR ''a'' # replicate 79 (CHR 0x00)"
    and s: "fv_space_count vz = 0"
    using res out by (simp_all add: space_keys_def)
  have A: "\<exists>vz wz. fetch_loop (fetch_init ?z 30) ?wa = Some (vz, wz) \<and>
            fetch_time_data ?z 30 ?wa =
              Some (fv_rslt vz, fv_buffer vz, fv_space_count vz,
                    Cy_SCB_UART_PutString MSG_NEWLINE wz) \<and>
            fv_rslt vz = CY_SCB_UART_RX_NO_DATA \<and>
            fv_timeout_ms vz \<le> UART_TIMEOUT_MS \<and> fv_index vz < STRING_BUFFER_SIZE \<and>
            fv_buffer vz = CHR ''a'' # replicate 79 (CHR 0x00) \<and> fv_space_count vz = 0"
    using run res iff r b s by blast
  let ?wb = "power_on (polls (replicate 85 (12, CHR ''a''))) (\<lambda>k. CY_RTC_SUCCESS) False"
  let ?kb = "replicate 85 (12 :: nat, CHR ''a'')"
  have tb: "take 80 ?kb = replicate 80 (12, CHR ''a'')"
    "drop 80 ?kb = replicate 5 (12, CHR ''a'')"
    by simp_all
  have hb: "(\<forall>k \<in> set ?kb. \<not> is_terminator (snd k)) \<and> 80 \<le> length ?kb \<and>
      rx ?wb = polls ?kb @ [] \<and> 10 * passes (take 80 ?kb) < unat (5000 :: u32)"
    unfolding tb by (simp add: is_terminator_def power_on_def)
  from claim [OF len, of 5000 ?wb ?kb "[]"] hb
  have "fetch_time_data ?z 5000 ?wb =
     Some (1, map snd (take 80 ?kb), of_nat (space_keys (map snd (take 80 ?kb))),
           ?wb\<lparr>rx := polls (drop 80 ?kb) @ [],
             trace := trace ?wb @ line_events (take 80 ?kb) @ [UART_PutString MSG_NEWLINE]\<rparr>)"
    and C: "(1 :: u32) \<noteq> CY_SCB_UART_RX_NO_DATA"
    by blast+
  then have B: "fetch_time_data ?z 5000 ?wb =
     Some (1, replicate 80 (CHR ''a''), 0,
           (power_on (polls (replicate 5 (12, CHR ''a''))) (\<lambda>k. CY_RTC_SUCCESS) False)
             \<lparr>trace := line_events (replicate 80 (12, CHR ''a'')) @
                        [UART_PutString MSG_NEWLINE]\<rparr>)"
    unfolding tb by (simp add: power_on_def space_keys_def)
  let ?wc = "power_on (polls [(0, CHR ''a''), (0, CHR ''b'')] @ replicate 3 None)
               (\<lambda>k. CY_RTC_SUCCESS) False"
  let ?kc = "[(0 :: nat, CHR ''a''), (0, CHR ''b'')]"
  have hc: "(\<forall>k \<in> set ?kc. \<not> is_terminator (snd k)) \<and> length ?kc < 80 \<and>
      rx ?wc = polls ?kc @ replicate 3 None \<and>
      (10 * passes ?kc < unat INPUT_TIMEOUT_MS \<or> ?kc = [])"
    by (simp add: is_terminator_def power_on_def INPUT_TIMEOUT_MS_def)
  from claim [OF len, of INPUT_TIMEOUT_MS ?wc ?kc _ 3] hc
  have "\<exists>w'. fetch_time_data ?z INPUT_TIMEOUT_MS ?wc =
              Some (CY_SCB_UART_RX_NO_DATA, map snd ?kc @ drop (length ?kc) ?z,
                    of_nat (space_keys (map snd ?kc)), w')"
    by blast
  then have D: "\<exists>w'. fetch_time_data ?z INPUT_TIMEOUT_MS ?wc =
          Some (CY_SCB_UART_RX_NO_DATA, ''ab'' @ replicate 78 (CHR 0x00), 0, w')"
    by (simp add: space_keys_def)
  show ?thesis using A B C D by blast
qed

text \<open>
  The rewrite rules for the budget and the index serve the lemmas on keys; what follows
  does without them.
\<close>

declare unat_timeout [simp del] budget_above [simp del] index_below [simp del]

text \<open>
  Claim C10: for every behaviour of the serial line and every budget, the loop of
  \<open>fetch_time_data\<close> terminates: a pass that does not leave the loop takes
  \<open>UART_TIMEOUT_MS\<close> off the budget, and only when the budget is above \<open>UART_TIMEOUT_MS\<close>,
  so that the unsigned subtraction does not wrap; the loop makes at most budget /
  \<open>UART_TIMEOUT_MS\<close> passes, and the index stays within the 80 bytes of the buffer.

  The bound on the passes is one too small. With the budget 25 and a silent line the
  loop makes three passes, two that wait for a byte and the one that leaves at the
  budget check of line 651, and 25 / 10 is 2; with the budget 5 it makes one pass, and
  5 / 10 is 0.
\<close>

theorem fetch_time_data_passes_exceed_quotient:
  "map_option (\<lambda>r. fv_passes (fst r))
     (fetch_loop (fetch_init (replicate 80 (CHR 0x00)) 25)
        (power_on [] (\<lambda>k. CY_RTC_SUCCESS) False)) = Some 3 \<and>
   unat (25 :: u32) div unat UART_TIMEOUT_MS = 2 \<and>
   map_option (\<lambda>r. fv_passes (fst r))
     (fetch_loop (fetch_init (replicate 80 (CHR 0x00)) 5)
        (power_on [] (\<lambda>k. CY_RTC_SUCCESS) False)) = Some 1 \<and>
   unat (5 :: u32) div unat UART_TIMEOUT_MS = 0"
  by code_simp

text \<open>
  Claim C10, as amended: for every behaviour of the serial line and every budget, the
  loop of \<open>fetch_time_data\<close> terminates: a pass that does not leave the loop takes
  \<open>UART_TIMEOUT_MS\<close> off the budget, and only when the budget is above \<open>UART_TIMEOUT_MS\<close>,
  so that the unsigned subtraction does not wrap; the loop makes at most budget /
  \<open>UART_TIMEOUT_MS\<close> + 1 passes, the pass that leaves at the budget check included, and
  at most budget / \<open>UART_TIMEOUT_MS\<close> passes when it ends otherwise than with the timeout;
  each byte stored takes a pass, and the index stays within the 80 bytes of the buffer.

  The function returns (the result is \<open>Some\<close>), and \<open>fv_passes\<close> counts every pass
  through the body of the loop.
\<close>

theorem fetch_time_data_terminates:
  assumes len: "length buffer = 80"
  shows "(\<exists>vz wz. fetch_loop (fetch_init buffer timeout_ms) w = Some (vz, wz) \<and>
            fetch_time_data buffer timeout_ms w =
              Some (fv_rslt vz, fv_buffer vz, fv_space_count vz,
                    Cy_SCB_UART_PutString MSG_NEWLINE wz) \<and>
            fv_passes vz \<le> unat timeout_ms div unat UART_TIMEOUT_MS + 1 \<and>
            (fv_rslt vz \<noteq> CY_SCB_UART_RX_NO_DATA \<longrightarrow>
               fv_passes vz \<le> unat timeout_ms div unat UART_TIMEOUT_MS) \<and>
            unat (fv_index vz) \<le> fv_passes vz \<and>
            unat (fv_index vz) \<le> unat STRING_BUFFER_SIZE) \<and>
         (\<forall>v u v' u'. fetch_body v u = Some (Continue (v', u')) \<longrightarrow>
            UART_TIMEOUT_MS < fv_timeout_ms v \<and>
            unat (fv_timeout_ms v') + unat UART_TIMEOUT_MS = unat (fv_timeout_ms v))"
proof (intro conjI allI impI)
  have "length (fv_buffer (fetch_init buffer timeout_ms)) = 80" using len by simp
  then obtain r where "fetch_loop (fetch_init buffer timeout_ms) w = Some r"
    using fetch_loop_returns by blast
  then obtain vz wz where run: "fetch_loop (fetch_init buffer timeout_ms) w = Some (vz, wz)"
    by (cases r) simp
  have "10 * fv_passes vz \<le> unat timeout_ms + 10 \<and>
        (fv_rslt vz \<noteq> CY_SCB_UART_RX_NO_DATA \<longrightarrow> 10 * fv_passes vz \<le> unat timeout_ms) \<and>
        unat (fv_index vz) \<le> fv_passes vz \<and> unat (fv_index vz) \<le> 80"
    by (rule fetch_loop_counts [OF run]) simp_all
  then have "fv_passes vz \<le> unat timeout_ms div unat UART_TIMEOUT_MS + 1 \<and>
        (fv_rslt vz \<noteq> CY_SCB_UART_RX_NO_DATA \<longrightarrow>
           fv_passes vz \<le> unat timeout_ms div unat UART_TIMEOUT_MS) \<and>
        unat (fv_index vz) \<le> fv_passes vz \<and> unat (fv_index vz) \<le> unat STRING_BUFFER_SIZE"
    by (simp add: UART_TIMEOUT_MS_def STRING_BUFFER_SIZE_def) arith
  then show "\<exists>vz wz. fetch_loop (fetch_init buffer timeout_ms) w = Some (vz, wz) \<and>
            fetch_time_data buffer timeout_ms w =
              Some (fv_rslt vz, fv_buffer vz, fv_space_count vz,
                    Cy_SCB_UART_PutString MSG_NEWLINE wz) \<and>
            fv_passes vz \<le> unat timeout_ms div unat UART_TIMEOUT_MS + 1 \<and>
            (fv_rslt vz \<noteq> CY_SCB_UART_RX_NO_DATA \<longrightarrow>
               fv_passes vz \<le> unat timeout_ms div unat UART_TIMEOUT_MS) \<and>
            unat (fv_index vz) \<le> fv_passes vz \<and>
            unat (fv_index vz) \<le> unat STRING_BUFFER_SIZE"
    using run by (simp add: fetch_time_data_def)
next
  fix v u v' u'
  assume "fetch_body v u = Some (Continue (v', u'))"
  from fetch_body_Continue_budget [OF this]
  show "UART_TIMEOUT_MS < fv_timeout_ms v"
    and "unat (fv_timeout_ms v') + unat UART_TIMEOUT_MS = unat (fv_timeout_ms v)"
    by simp_all
qed

theorem fetch_time_data_terminates_witness:
  "(\<exists>vz wz. fetch_loop (fetch_init (replicate 80 (CHR 0x00)) 25)
               (power_on [Some (CHR ''a''), Some (CHR 0x0A)] (\<lambda>k. CY_RTC_SUCCESS) False) =
               Some (vz, wz) \<and>
            fetch_time_data (replicate 80 (CHR 0x00)) 25
               (power_on [Some (CHR ''a''), Some (CHR 0x0A)] (\<lambda>k. CY_RTC_SUCCESS) False) =
              Some (fv_rslt vz, fv_buffer vz, fv_space_count vz,
                    Cy_SCB_UART_PutString MSG_NEWLINE wz) \<and>
            fv_passes vz \<le> unat (25 :: u32) div unat UART_TIMEOUT_MS + 1 \<and>
            fv_rslt vz = CY_RSLT_SUCCESS \<and>
            fv_passes vz \<le> unat (25 :: u32) div unat UART_TIMEOUT_MS \<and>
            unat (fv_index vz) \<le> fv_passes vz \<and>
            unat (fv_index vz) \<le> unat STRING_BUFFER_SIZE) \<and>
   fetch_body (fetch_init (replicate 80 (CHR 0x00)) 25)
      (power_on [Some (CHR ''a'')] (\<lambda>k. CY_RTC_SUCCESS) False) =
     Some (Continue (accept_char (fetch_init (replicate 80 (CHR 0x00)) 25) (CHR ''a''),
                     (power_on [] (\<lambda>k. CY_RTC_SUCCESS) False)\<lparr>trace := [UART_Put (CHR ''a'')]\<rparr>)) \<and>
   UART_TIMEOUT_MS < fv_timeout_ms (fetch_init (replicate 80 (CHR 0x00)) 25) \<and>
   unat (fv_timeout_ms (accept_char (fetch_init (replicate 80 (CHR 0x00)) 25) (CHR ''a''))) +
     unat UART_TIMEOUT_MS = unat (fv_timeout_ms (fetch_init (replicate 80 (CHR 0x00)) 25))"
proof -
  let ?v = "fetch_init (replicate 80 (CHR 0x00)) 25"
  let ?u = "power_on [Some (CHR ''a'')] (\<lambda>k. CY_RTC_SUCCESS) False"
  let ?u' = "(power_on [] (\<lambda>k. CY_RTC_SUCCESS) False)\<lparr>trace := [UART_Put (CHR ''a'')]\<rparr>"
  let ?x = "power_on [Some (CHR ''a''), Some (CHR 0x0A)] (\<lambda>k. CY_RTC_SUCCESS) False"
  have b: "fetch_body ?v ?u = Some (Continue (accept_char ?v (CHR ''a''), ?u'))"
    using fetch_body_accept [of ?u "CHR ''a''" "[]" ?v]
    by (simp add: power_on_def is_terminator_def UART_TIMEOUT_MS_def)
  have len: "length (replicate 80 (CHR 0x00)) = 80" by simp
  have line: "fetch_loop ?v ?x =
     Some ((foldl accept_char ?v [CHR ''a''])
             \<lparr>fv_rslt := CY_RSLT_SUCCESS, fv_ch := CHR 0x0A,
              fv_passes := Suc (fv_passes (foldl accept_char ?v [CHR ''a'']))\<rparr>,
           ?x\<lparr>rx := [], trace := trace ?x @ map UART_Put [CHR ''a'']\<rparr>)"
    by (rule fetch_loop_line [where t = "CHR 0x0A"])
       (simp_all add: is_terminator_def power_on_def)
  from fetch_time_data_terminates [OF len, of 25 ?x]
  have all: "\<forall>v u v' u'. fetch_body v u = Some (Continue (v', u')) \<longrightarrow>
            UART_TIMEOUT_MS < fv_timeout_ms v \<and>
            unat (fv_timeout_ms v') + unat UART_TIMEOUT_MS = unat (fv_timeout_ms v)"
    and ex: "\<exists>vz wz. fetch_loop ?v ?x = Some (vz, wz) \<and>
            fetch_time_data (replicate 80 (CHR 0x00)) 25 ?x =
              Some (fv_rslt vz, fv_buffer vz, fv_space_count vz,
                    Cy_SCB_UART_PutString MSG_NEWLINE wz) \<and>
            fv_passes vz \<le> unat (25 :: u32) div unat UART_TIMEOUT_MS + 1 \<and>
            (fv_rslt vz \<noteq> CY_SCB_UART_RX_NO_DATA \<longrightarrow>
               fv_passes vz \<le> unat (25 :: u32) div unat UART_TIMEOUT_MS) \<and>
            unat (fv_index vz) \<le> fv_passes vz \<and>
            unat (fv_index vz) \<le> unat STRING_BUFFER_SIZE"
    by blast+
  from ex obtain vz wz where run: "fetch_loop ?v ?x = Some (vz, wz)"
    and rest: "fetch_time_data (replicate 80 (CHR 0x00)) 25 ?x =
              Some (fv_rslt vz, fv_buffer vz, fv_space_count vz,
                    Cy_SCB_UART_PutString MSG_NEWLINE wz)"
      "fv_passes vz \<le> unat (25 :: u32) div unat UART_TIMEOUT_MS + 1"
      "fv_rslt vz \<noteq> CY_SCB_UART_RX_NO_DATA \<longrightarrow>
               fv_passes vz \<le> unat (25 :: u32) div unat UART_TIMEOUT_MS"
      "unat (fv_index vz) \<le> fv_passes vz"
      "unat (fv_index vz) \<le> unat STRING_BUFFER_SIZE"
    by blast
  have rs: "fv_rslt vz = CY_RSLT_SUCCESS" using run line by auto
  then have "fv_passes vz \<le> unat (25 :: u32) div unat UART_TIMEOUT_MS"
    using rest(3) by simp
  with run rest rs have first: "\<exists>vz wz. fetch_loop ?v ?x = Some (vz, wz) \<and>
            fetch_time_data (replicate 80 (CHR 0x00)) 25 ?x =
              Some (fv_rslt vz, fv_buffer vz, fv_space_count vz,
                    Cy_SCB_UART_PutString MSG_NEWLINE wz) \<and>
            fv_passes vz \<le> unat (25 :: u32) div unat UART_TIMEOUT_MS + 1 \<and>
            fv_rslt vz = CY_RSLT_SUCCESS \<and>
            fv_passes vz \<le> unat (25 :: u32) div unat UART_TIMEOUT_MS \<and>
            unat (fv_index vz) \<le> fv_passes vz \<and>
            unat (fv_index vz) \<le> unat STRING_BUFFER_SIZE"
    by blast
  from all b have "UART_TIMEOUT_MS < fv_timeout_ms ?v \<and>
      unat (fv_timeout_ms (accept_char ?v (CHR ''a''))) + unat UART_TIMEOUT_MS =
      unat (fv_timeout_ms ?v)"
    by blast
  then show ?thesis using first b by blast
qed

section \<open>Properties of the retry loops, set_new_time and set_dst_feature\<close>

lemma quietI:
  assumes "rtc_results w' = rtc_results w" "rtc_calls w' = rtc_calls w"
    "dst_status w' = dst_status w" "trace w' = trace w @ es" "list_all quiet_event es"
  shows "quiet w w'"
  using assms by (simp add: quiet_def new_events_def)

lemma quietD:
  assumes "quiet w w'"
  shows "rtc_results w' = rtc_results w" "rtc_calls w' = rtc_calls w"
    "dst_status w' = dst_status w" "trace w' = trace w @ new_events w w'"
    "list_all quiet_event (new_events w w')"
proof -
  show "rtc_results w' = rtc_results w" "rtc_calls w' = rtc_calls w"
    "dst_status w' = dst_status w" "list_all quiet_event (new_events w w')"
    using assms by (simp_all add: quiet_def)
  have "take (length (trace w)) (trace w') = trace w" using assms by (simp add: quiet_def)
  then have "trace w' = trace w @ drop (length (trace w)) (trace w')"
    by (metis append_take_drop_id)
  then show "trace w' = trace w @ new_events w w'" by (simp add: new_events_def)
qed

lemma quiet_refl [simp]: "quiet w w"
  by (simp add: quiet_def new_events_def)

lemma quiet_trans:
  assumes "quiet w w1" "quiet w1 w2"
  shows "quiet w w2"
proof (rule quietI [where es = "new_events w w1 @ new_events w1 w2"])
  note a = quietD [OF assms(1)] and b = quietD [OF assms(2)]
  show "rtc_results w2 = rtc_results w" using a(1) b(1) by simp
  show "rtc_calls w2 = rtc_calls w" using a(2) b(2) by simp
  show "dst_status w2 = dst_status w" using a(3) b(3) by simp
  show "trace w2 = trace w @ new_events w w1 @ new_events w1 w2" using a(4) b(4) by simp
  show "list_all quiet_event (new_events w w1 @ new_events w1 w2)"
    using a(5) b(5) by (simp only: list_all_append simp_thms)
qed

lemma quiet_emit:
  assumes "quiet_event e"
  shows "quiet w (emit e w)"
  using assms by (intro quietI [where es = "[e]"]) (simp_all add: emit_def)

lemma quiet_flag [simp]: "quiet w (w\<lparr>dst_data_flag := f\<rparr>)"
  by (intro quietI [where es = "[]"]) simp_all

lemma quiet_rx [simp]: "quiet w (w\<lparr>rx := r\<rparr>)"
  by (intro quietI [where es = "[]"]) simp_all

lemma quiet_PutString: "quiet w (Cy_SCB_UART_PutString m w)"
  by (simp add: Cy_SCB_UART_PutString_def quiet_emit)

lemma quiet_Delay: "quiet w (Cy_SysLib_Delay ms w)"
  by (simp add: Cy_SysLib_Delay_def quiet_emit)

lemma quiet_Get:
  assumes "Cy_SCB_UART_Get w = (r, w')"
  shows "quiet w w' \<and> dst_data_flag w' = dst_data_flag w"
  using assms by (auto simp: Cy_SCB_UART_Get_def split: list.splits)

lemma quiet_getc_wait:
  assumes "getc_wait ticks r w = (r', w')"
  shows "quiet w w' \<and> dst_data_flag w' = dst_data_flag w"
  using assms
proof (induction ticks r w rule: getc_wait.induct)
  case (1 ticks c w)
  then show ?case by simp
next
  case (2 w)
  then show ?case by simp
next
  case (3 ticks w)
  obtain r1 w1 where g: "Cy_SCB_UART_Get (Cy_SysLib_Delay UART_GET_CHAR_DELAY w) = (r1, w1)"
    by (cases "Cy_SCB_UART_Get (Cy_SysLib_Delay UART_GET_CHAR_DELAY w)")
  have q1: "quiet w w1 \<and> dst_data_flag w1 = dst_data_flag w"
    using quiet_Get [OF g] quiet_Delay [of w UART_GET_CHAR_DELAY]
    by (auto intro: quiet_trans simp: Cy_SysLib_Delay_def emit_def)
  have "getc_wait ticks r1 w1 = (r', w')" using "3.prems" g by simp
  from "3.IH" [OF g [symmetric] this] q1
  show ?case by (auto intro: quiet_trans)
qed

lemma quiet_user_uart_getc:
  assumes "user_uart_getc val timeout w = Some (r, c, w')"
  shows "quiet w w' \<and> dst_data_flag w' = dst_data_flag w"
proof (cases "timeout = 0")
  case True
  then show ?thesis
    using assms by (auto simp: user_uart_getc_def split: option.splits)
next
  case False
  obtain r1 w1 where g: "Cy_SCB_UART_Get w = (r1, w1)" by (cases "Cy_SCB_UART_Get w")
  obtain r2 w2 where h: "getc_wait (unat timeout) r1 w1 = (r2, w2)"
    by (cases "getc_wait (unat timeout) r1 w1")
  have "w' = w2" using assms False g h
    by (auto simp: user_uart_getc_def split: option.splits)
  then show ?thesis
    using quiet_Get [OF g] quiet_getc_wait [OF h] by (auto intro: quiet_trans)
qed

lemma quiet_fetch_body:
  assumes "fetch_body v w = Some s" "s = Break (v', w') \<or> s = Continue (v', w')"
  shows "quiet w w' \<and> dst_data_flag w' = dst_data_flag w"
proof (cases "fv_timeout_ms v \<le> UART_TIMEOUT_MS")
  case True
  then show ?thesis using assms by (auto simp: fetch_body_def)
next
  case False
  then obtain r c w1 where g: "user_uart_getc (fv_ch v) UART_TIMEOUT_MS w = Some (r, c, w1)"
    using assms(1) by (auto simp: fetch_body_def split: option.splits)
  note q = quiet_user_uart_getc [OF g]
  have "w' = w1 \<or> w' = emit (UART_Put c) w1"
    using assms False g
    by (auto simp: fetch_body_def Let_def Cy_SCB_UART_Put_def split: if_splits option.splits)
  then show ?thesis
  proof
    assume "w' = w1" then show ?thesis using q by simp
  next
    assume e: "w' = emit (UART_Put c) w1"
    have "quiet w1 w'" unfolding e by (rule quiet_emit) simp
    then show ?thesis using q e by (auto intro: quiet_trans simp: emit_def)
  qed
qed

lemma quiet_fetch_loop:
  assumes "fetch_loop v w = Some (vz, wz)"
  shows "quiet w wz \<and> dst_data_flag wz = dst_data_flag w"
proof (rule fetch_loop_rule [OF assms,
      where I = "\<lambda>v u. quiet w u \<and> dst_data_flag u = dst_data_flag w"
        and Q = "\<lambda>v u. quiet w u \<and> dst_data_flag u = dst_data_flag w"])
  show "quiet w w \<and> dst_data_flag w = dst_data_flag w" by simp
next
  fix v u v' u'
  assume "quiet w u \<and> dst_data_flag u = dst_data_flag w"
    and "fetch_body v u = Some (Continue (v', u'))"
  then show "quiet w u' \<and> dst_data_flag u' = dst_data_flag w"
    using quiet_fetch_body [of v u "Continue (v', u')" v' u'] by (auto intro: quiet_trans)
next
  fix v u
  assume "quiet w u \<and> dst_data_flag u = dst_data_flag w"
  then show "quiet w u \<and> dst_data_flag u = dst_data_flag w" .
next
  fix v u v' u'
  assume "quiet w u \<and> dst_data_flag u = dst_data_flag w"
    and "fetch_body v u = Some (Break (v', u'))"
  then show "quiet w u' \<and> dst_data_flag u' = dst_data_flag w"
    using quiet_fetch_body [of v u "Break (v', u')" v' u'] by (auto intro: quiet_trans)
qed

lemma quiet_fetch_time_data:
  assumes "fetch_time_data buffer timeout_ms w = Some (rslt, buffer', space_count, w')"
  shows "quiet w w' \<and> dst_data_flag w' = dst_data_flag w"
proof -
  obtain vz wz where run: "fetch_loop (fetch_init buffer timeout_ms) w = Some (vz, wz)"
    and w': "w' = Cy_SCB_UART_PutString MSG_NEWLINE wz"
    using assms by (auto simp: fetch_time_data_def split: option.splits)
  have "quiet wz w'" unfolding w' by (rule quiet_PutString)
  then show ?thesis
    using quiet_fetch_loop [OF run] w'
    by (auto intro: quiet_trans simp: Cy_SCB_UART_PutString_def emit_def)
qed

lemma fetch_time_data_returns:
  "\<exists>rslt buffer space_count w'.
     fetch_time_data zero_buffer timeout_ms w = Some (rslt, buffer, space_count, w')"
proof -
  have "length (fv_buffer (fetch_init zero_buffer timeout_ms)) = 80"
    by (simp add: zero_buffer_def STRING_BUFFER_SIZE_def)
  then obtain r where "fetch_loop (fetch_init zero_buffer timeout_ms) w = Some r"
    using fetch_loop_returns by blast
  then show ?thesis by (cases r) (simp add: fetch_time_data_def)
qed

lemma rtc_call_fields:
  assumes "rtc_call e w = (r, w1)"
  shows "r = rtc_results w (rtc_calls w)" "rtc_calls w1 = Suc (rtc_calls w)"
    "trace w1 = trace w @ [e]" "rx w1 = rx w" "dst_data_flag w1 = dst_data_flag w"
    "rtc_results w1 = rtc_results w" "dst_status w1 = dst_status w"
  using assms by (auto simp: rtc_call_def emit_def)

lemma Delay_fields [simp]:
  "rtc_calls (Cy_SysLib_Delay ms w) = rtc_calls w"
  "trace (Cy_SysLib_Delay ms w) = trace w @ [SysLib_Delay ms]"
  "rx (Cy_SysLib_Delay ms w) = rx w"
  "dst_data_flag (Cy_SysLib_Delay ms w) = dst_data_flag w"
  "rtc_results (Cy_SysLib_Delay ms w) = rtc_results w"
  "dst_status (Cy_SysLib_Delay ms w) = dst_status w"
  by (simp_all add: Cy_SysLib_Delay_def emit_def)

lemma PutString_fields [simp]:
  "rtc_calls (Cy_SCB_UART_PutString m w) = rtc_calls w"
  "trace (Cy_SCB_UART_PutString m w) = trace w @ [UART_PutString m]"
  "rx (Cy_SCB_UART_PutString m w) = rx w"
  "dst_data_flag (Cy_SCB_UART_PutString m w) = dst_data_flag w"
  "rtc_results (Cy_SCB_UART_PutString m w) = rtc_results w"
  "dst_status (Cy_SCB_UART_PutString m w) = dst_status w"
  by (simp_all add: Cy_SCB_UART_PutString_def emit_def)

lemma handle_error_fields [simp]:
  "rtc_calls (handle_error w) = rtc_calls w"
  "trace (handle_error w) = trace w @ [Handle_Error]"
  "rx (handle_error w) = rx w"
  "dst_data_flag (handle_error w) = dst_data_flag w"
  "rtc_results (handle_error w) = rtc_results w"
  "dst_status (handle_error w) = dst_status w"
  by (simp_all add: handle_error_def emit_def)

lemma rtc_retry_retried:
  assumes "rtc_retry call attempts w = (r, w')" "attempts \<noteq> 0"
  shows "retried call attempts w r w' (rtc_calls w' - rtc_calls w)"
  using assms
proof (induction k \<equiv> "unat (attempts - 1)" arbitrary: attempts w)
  case 0
  then have z: "attempts - 1 = 0" by (simp add: unat_eq_zero)
  then have a1: "unat attempts = 1" by (metis diff_0_right diff_add_cancel unat_1 add.commute add_0)
  obtain rslt w1 where c: "rtc_call call w = (rslt, w1)" by (cases "rtc_call call w")
  have "w' = Cy_SysLib_Delay INIT_DELAY_MS w1" "r = rslt"
    using "0.prems"(1) c z by (simp_all add: rtc_retry.simps [of call attempts w])
  then show ?case
    using rtc_call_fields [OF c] a1 by (simp add: retried_def)
next
  case (Suc k)
  then have nz: "attempts - 1 \<noteq> 0" by (metis unat_0 nat.distinct(1))
  have ua: "unat attempts = Suc (unat (attempts - 1))"
    using Suc.prems(2) unat_gt_0 [of attempts] by (simp add: unat_minus_one)
  obtain rslt w1 where c: "rtc_call call w = (rslt, w1)" by (cases "rtc_call call w")
  note f = rtc_call_fields [OF c]
  show ?case
  proof (cases "rslt = CY_RTC_SUCCESS")
    case True
    then have "w' = Cy_SysLib_Delay INIT_DELAY_MS w1" "r = rslt"
      using Suc.prems(1) c by (simp_all add: rtc_retry.simps [of call attempts w])
    then show ?thesis using f True ua by (simp add: retried_def)
  next
    case False
    let ?w2 = "Cy_SysLib_Delay INIT_DELAY_MS w1"
    have rec: "rtc_retry call (attempts - 1) ?w2 = (r, w')"
      using Suc.prems(1) c False nz by (simp add: rtc_retry.simps [of call attempts w])
    have "unat (attempts - 1 - 1) = unat (attempts - 1) - 1"
      using nz by (rule unat_minus_one)
    then have k: "k = unat (attempts - 1 - 1)"
      using Suc.hyps(2) by linarith
    have IH: "retried call (attempts - 1) ?w2 r w' (rtc_calls w' - rtc_calls ?w2)"
      using Suc.hyps(1) [OF k rec nz] .
    define m where "m = rtc_calls w' - rtc_calls ?w2"
    have IH': "1 \<le> m \<and> m \<le> unat (attempts - 1) \<and>
      rtc_calls w' = rtc_calls ?w2 + m \<and>
      r = rtc_results ?w2 (rtc_calls ?w2 + m - 1) \<and>
      list_all (\<lambda>k. rtc_results ?w2 (rtc_calls ?w2 + k) \<noteq> CY_RTC_SUCCESS) [0..<m - 1] \<and>
      (r \<noteq> CY_RTC_SUCCESS \<longrightarrow> m = unat (attempts - 1)) \<and>
      trace w' = trace ?w2 @ concat (replicate m [call, SysLib_Delay INIT_DELAY_MS]) \<and>
      rx w' = rx ?w2 \<and> dst_data_flag w' = dst_data_flag ?w2 \<and>
      rtc_results w' = rtc_results ?w2 \<and> dst_status w' = dst_status ?w2"
      using IH unfolding retried_def m_def .
    have m1: "1 \<le> m" "m \<le> unat (attempts - 1)" using IH' by blast+
    have m3: "rtc_calls w' = Suc (rtc_calls w) + m" using IH' f by simp
    have m4: "r = rtc_results w (Suc (rtc_calls w) + m - 1)" using IH' f by simp
    have m5: "list_all (\<lambda>k. rtc_results w (Suc (rtc_calls w) + k) \<noteq> CY_RTC_SUCCESS) [0..<m - 1]"
      using IH' f by simp
    have m6: "r \<noteq> CY_RTC_SUCCESS \<longrightarrow> m = unat (attempts - 1)" using IH' by blast
    have m7: "trace w' = trace w @ [call, SysLib_Delay INIT_DELAY_MS] @
                  concat (replicate m [call, SysLib_Delay INIT_DELAY_MS])"
      using IH' f by simp
    have m8: "rx w' = rx w" "dst_data_flag w' = dst_data_flag w"
      "rtc_results w' = rtc_results w" "dst_status w' = dst_status w"
      using IH' f by simp_all
    have n: "rtc_calls w' - rtc_calls w = Suc m" using m3 by simp
    have first: "rtc_results w (rtc_calls w) \<noteq> CY_RTC_SUCCESS" using False f(1) by simp
    have all: "list_all (\<lambda>k. rtc_results w (rtc_calls w + k) \<noteq> CY_RTC_SUCCESS) [0..<Suc m - 1]"
    proof -
      have "\<And>j. j < m \<Longrightarrow> rtc_results w (rtc_calls w + j) \<noteq> CY_RTC_SUCCESS"
      proof -
        fix j assume j: "j < m"
        show "rtc_results w (rtc_calls w + j) \<noteq> CY_RTC_SUCCESS"
        proof (cases j)
          case 0 then show ?thesis using first by simp
        next
          case (Suc i)
          then have "i < m - 1" using j by simp
          then have "rtc_results w (Suc (rtc_calls w) + i) \<noteq> CY_RTC_SUCCESS"
            using m5 by (simp add: list_all_iff)
          then show ?thesis using Suc by simp
        qed
      qed
      then show ?thesis by (simp add: list_all_iff)
    qed
    have c1: "Suc m \<le> unat attempts" using m1 ua by simp
    have c4: "r = rtc_results w (rtc_calls w + Suc m - 1)" using m4 by simp
    have c6: "r \<noteq> CY_RTC_SUCCESS \<longrightarrow> Suc m = unat attempts" using m6 ua by simp
    have c7: "trace w' = trace w @ concat (replicate (Suc m) [call, SysLib_Delay INIT_DELAY_MS])"
      using m7 by simp
    have c3: "rtc_calls w' = rtc_calls w + Suc m" using m3 by simp
    show ?thesis
      unfolding n retried_def
      using c1 c3 c4 all c6 c7 m8 by simp
  qed
qed

lemma quiet_event_not_hw:
  assumes "quiet_event e"
  shows "\<not> is_dst_write e" "e \<noteq> Handle_Error"
  using assms by (cases e; simp)+

lemma quiet_events_not_hw:
  assumes "list_all quiet_event es"
  shows "filter is_dst_write es = []" "Handle_Error \<notin> set es"
  using assms quiet_event_not_hw by (auto simp: list_all_iff filter_empty_conv)

lemma quiet_PutString_after:
  assumes "quiet w u"
  shows "quiet w (Cy_SCB_UART_PutString m u)"
  using assms quiet_PutString [of u m] by (rule quiet_trans)

lemma quiet_dst_write_once:
  assumes "quiet w w'"
  shows "dst_write_once w w'"
proof -
  note q = quietD [OF assms]
  have "filter is_dst_write (new_events w w') = []" "Handle_Error \<notin> set (new_events w w')"
    using quiet_events_not_hw [OF q(5)] by simp_all
  then show ?thesis
    using q by (simp add: dst_write_once_def dst_writes_def fatal_def)
qed

lemma new_events_append:
  assumes "trace w1 = trace w @ es" "trace w2 = trace w1 @ fs"
  shows "new_events w w2 = es @ fs"
  using assms by (simp add: new_events_def)

lemma quiet_then_dst_write_once:
  assumes "quiet w w1" "dst_write_once w1 w2"
  shows "dst_write_once w w2"
proof -
  note q = quietD [OF assms(1)]
  have len: "take (length (trace w1)) (trace w2) = trace w1"
    using assms(2) by (simp add: dst_write_once_def)
  then have t2: "trace w2 = trace w1 @ new_events w1 w2"
    by (metis append_take_drop_id new_events_def)
  have ne: "new_events w w2 = new_events w w1 @ new_events w1 w2"
    using new_events_append [OF q(4) t2] .
  have f0: "filter is_dst_write (new_events w w1) = []"
    and h0: "Handle_Error \<notin> set (new_events w w1)"
    using quiet_events_not_hw [OF q(5)] by simp_all
  have dw: "dst_writes w w2 = dst_writes w1 w2" using ne f0 by (simp add: dst_writes_def)
  have ft: "fatal w w2 = fatal w1 w2" using ne h0 by (simp add: fatal_def)
  have pre: "take (length (trace w)) (trace w2) = trace w" using q(4) t2 by simp
  show ?thesis
    using assms(2) q(1,2) dw ft pre
    by (simp add: dst_write_once_def)
qed

lemma quiet_dst_status_display:
  "quiet w (dst_status_display w) \<and> dst_data_flag (dst_status_display w) = dst_data_flag w"
proof -
  have "quiet w (emit RTC_GetDstStatus w)" by (rule quiet_emit) simp
  then show ?thesis
    by (auto simp: dst_status_display_def Let_def emit_def
        intro: quiet_trans quiet_PutString)
qed

lemma quiet_dst_menu: "quiet w (dst_menu w) \<and> dst_data_flag (dst_menu w) = dst_data_flag w"
  unfolding dst_menu_def by (simp add: quiet_PutString_after)

lemma quiet_dst_format_menu:
  "quiet w (dst_format_menu w) \<and> dst_data_flag (dst_format_menu w) = dst_data_flag w"
  unfolding dst_format_menu_def by (simp add: quiet_PutString_after)

lemma quiet_dst_start_entry:
  assumes "dst_start_entry P fmt timeout_ms vars dst_time w = Some (vars', dst_time', w')"
  shows "quiet w w'"
proof -
  obtain rslt buffer space_count w1 where
    f: "fetch_time_data zero_buffer timeout_ms (Cy_SCB_UART_PutString MSG_ENTER_DST_START w)
          = Some (rslt, buffer, space_count, w1)"
    using assms by (auto simp: dst_start_entry_def split: option.splits)
  have q1: "quiet w w1"
    using quiet_fetch_time_data [OF f] quiet_PutString [of w MSG_ENTER_DST_START]
    by (auto intro: quiet_trans)
  have "w' = Cy_SCB_UART_PutString MSG_INVALID_VALUES w1 \<or>
        w' = Cy_SCB_UART_PutString MSG_TIMEOUT w1 \<or>
        w' = w1\<lparr>dst_data_flag := DST_VALID_START_TIME_FLAG\<rparr>"
    using assms f
    by (auto simp: dst_start_entry_def Let_def split: if_splits option.splits)
  then have "quiet w1 w'" by (auto intro: quiet_PutString)
  then show ?thesis using q1 by (rule quiet_trans [rotated])
qed

lemma quiet_dst_end_entry:
  assumes "dst_end_entry P fmt timeout_ms vars dst_time w = Some (vars', dst_time', w')"
  shows "quiet w w'"
proof (cases "DST_VALID_START_TIME_FLAG = dst_data_flag w")
  case False
  then show ?thesis using assms by (simp add: dst_end_entry_def)
next
  case True
  obtain rslt buffer space_count w1 where
    f: "fetch_time_data zero_buffer timeout_ms (Cy_SCB_UART_PutString MSG_ENTER_DST_END w)
          = Some (rslt, buffer, space_count, w1)"
    using assms True by (auto simp: dst_end_entry_def split: option.splits)
  have q1: "quiet w w1"
    using quiet_fetch_time_data [OF f] quiet_PutString [of w MSG_ENTER_DST_END]
    by (auto intro: quiet_trans)
  have "w' = Cy_SCB_UART_PutString MSG_INVALID_VALUES w1 \<or>
        w' = Cy_SCB_UART_PutString MSG_TIMEOUT w1 \<or>
        w' = w1\<lparr>dst_data_flag := DST_VALID_END_TIME_FLAG\<rparr>"
    using assms f True
    by (auto simp: dst_end_entry_def Let_def split: if_splits option.splits)
  then have "quiet w1 w'" by (auto intro: quiet_PutString)
  then show ?thesis using q1 by (rule quiet_trans [rotated])
qed

text \<open>A single call of the driver with the DST times, as in lines 511-520 and 538-547.\<close>

lemma dst_write_once_call:
  assumes c: "rtc_call (RTC_EnableDstTime d) w = (rslt, w1)"
    and w': "w' = (if CY_RTC_SUCCESS = rslt
                   then Cy_SCB_UART_PutString m (w1\<lparr>dst_data_flag := f\<rparr>)
                   else handle_error w1)"
  shows "dst_write_once w w'"
proof -
  note r = rtc_call_fields [OF c]
  show ?thesis
  proof (cases "CY_RTC_SUCCESS = rslt")
    case True
    then have "trace w' = trace w @ [RTC_EnableDstTime d, UART_PutString m]"
      "rtc_calls w' = Suc (rtc_calls w)" "rtc_results w' = rtc_results w"
      using w' r by simp_all
    then show ?thesis
      using True r(1)
      by (simp add: dst_write_once_def dst_writes_def fatal_def new_events_def)
  next
    case False
    then have "trace w' = trace w @ [RTC_EnableDstTime d, Handle_Error]"
      "rtc_calls w' = Suc (rtc_calls w)" "rtc_results w' = rtc_results w"
      using w' r by simp_all
    then show ?thesis
      using False r(1)
      by (auto simp: dst_write_once_def dst_writes_def fatal_def new_events_def)
  qed
qed

lemma dst_write_once_commit: "dst_write_once w (dst_commit dst_time w)"
proof (cases "DST_VALID_END_TIME_FLAG = dst_data_flag w")
  case False
  then show ?thesis by (simp add: dst_commit_def quiet_dst_write_once)
next
  case True
  obtain rslt w1 where c: "rtc_call (RTC_EnableDstTime dst_time) w = (rslt, w1)"
    by (cases "rtc_call (RTC_EnableDstTime dst_time) w")
  show ?thesis
    by (rule dst_write_once_call [OF c]) (simp add: dst_commit_def True c)
qed

lemma dst_write_once_disable: "dst_write_once w (dst_disable dst_time w)"
proof -
  let ?d = "dst_time\<lparr>stopDst := disabled_point, startDst := disabled_point\<rparr>"
  obtain rslt w1 where c: "rtc_call (RTC_EnableDstTime ?d) w = (rslt, w1)"
    by (cases "rtc_call (RTC_EnableDstTime ?d) w")
  show ?thesis
    by (rule dst_write_once_call [OF c]) (simp add: dst_disable_def c)
qed

lemma dst_write_once_enable:
  assumes "dst_enable P dst_time timeout_ms w = Some w'"
  shows "dst_write_once w w'"
proof -
  obtain rslt fmt w1 where
    g: "user_uart_getc (CHR 0x00) timeout_ms (dst_format_menu w) = Some (rslt, fmt, w1)"
    using assms by (auto simp: dst_enable_def split: option.splits)
  have q1: "quiet w w1"
    using quiet_user_uart_getc [OF g] quiet_dst_format_menu [of w] by (auto intro: quiet_trans)
  show ?thesis
  proof (cases "rslt \<noteq> CY_SCB_UART_RX_NO_DATA")
    case False
    then have "w' = Cy_SCB_UART_PutString MSG_TIMEOUT w1"
      using assms g by (simp add: dst_enable_def)
    then have "quiet w w'" using q1 quiet_PutString [of w1 MSG_TIMEOUT] by (auto intro: quiet_trans)
    then show ?thesis by (rule quiet_dst_write_once)
  next
    case True
    obtain vars1 dst_time1 w2 where
      s: "dst_start_entry P fmt timeout_ms zero_vars dst_time w1 = Some (vars1, dst_time1, w2)"
      using assms g True by (auto simp: dst_enable_def split: option.splits)
    obtain vars2 dst_time2 w3 where
      e: "dst_end_entry P fmt timeout_ms vars1 dst_time1 w2 = Some (vars2, dst_time2, w3)"
      using assms g True s by (auto simp: dst_enable_def split: option.splits)
    have w': "w' = dst_commit dst_time2 w3"
      using assms g True s e by (simp add: dst_enable_def)
    have "quiet w w3"
      using q1 quiet_dst_start_entry [OF s] quiet_dst_end_entry [OF e]
      by (auto intro: quiet_trans)
    then show ?thesis
      unfolding w' using dst_write_once_commit by (rule quiet_then_dst_write_once)
  qed
qed

lemma dst_write_once_set_dst_feature:
  assumes "set_dst_feature P dst_time timeout_ms w = Some w'"
  shows "dst_write_once w w'"
proof -
  obtain rslt dst_cmd w1 where
    g: "user_uart_getc (CHR 0x00) timeout_ms (dst_menu (dst_status_display w))
          = Some (rslt, dst_cmd, w1)"
    using assms by (auto simp: set_dst_feature_def split: option.splits)
  have q1: "quiet w w1"
    using quiet_user_uart_getc [OF g] quiet_dst_menu [of "dst_status_display w"]
      quiet_dst_status_display [of w]
    by (auto intro: quiet_trans)
  show ?thesis
  proof (cases "rslt \<noteq> CY_SCB_UART_RX_NO_DATA")
    case False
    then have "w' = Cy_SCB_UART_PutString MSG_TIMEOUT w1"
      using assms g by (simp add: set_dst_feature_def)
    then have "quiet w w'" using q1 by (simp add: quiet_PutString_after)
    then show ?thesis by (rule quiet_dst_write_once)
  next
    case True
    show ?thesis
    proof (cases "RTC_CMD_ENABLE_DST = dst_cmd")
      case enable: True
      then have "dst_enable P dst_time timeout_ms w1 = Some w'"
        using assms g True by (simp add: set_dst_feature_def)
      from q1 dst_write_once_enable [OF this] show ?thesis by (rule quiet_then_dst_write_once)
    next
      case not_enable: False
      show ?thesis
      proof (cases "RTC_CMD_DISABLE_DST = dst_cmd")
        case disable: True
        then have w': "w' = dst_disable dst_time w1"
          using assms g True not_enable by (simp add: set_dst_feature_def)
        show ?thesis
          unfolding w' using q1 dst_write_once_disable by (rule quiet_then_dst_write_once)
      next
        case not_disable: False
        have "w' = Cy_SCB_UART_PutString MSG_DST_EXIT w1 \<or> w' = w1"
          using assms g True not_enable not_disable
          by (simp add: set_dst_feature_def split: if_splits)
        then have "quiet w w'" using q1 by (auto simp: quiet_PutString_after)
        then show ?thesis by (rule quiet_dst_write_once)
      qed
    qed
  qed
qed

lemma fetch_time_data_typed:
  assumes "line_waiting w line t rest timeout_ms"
  shows "fetch_time_data zero_buffer timeout_ms w =
     Some (CY_RSLT_SUCCESS, line_buffer line, of_nat (space_keys line), line_read w line rest)"
proof -
  have a: "\<forall>c \<in> set line. \<not> is_terminator c" "is_terminator t"
    "rx w = map Some line @ Some t # rest" "length zero_buffer = 80" "length line < 80"
    "10 * (length line + 1) < unat timeout_ms"
    using assms by (simp_all add: line_waiting_def list_all_iff zero_buffer_def STRING_BUFFER_SIZE_def)
  have "drop (length line) zero_buffer = replicate (80 - length line) (CHR 0x00)"
    by (simp add: zero_buffer_def STRING_BUFFER_SIZE_def)
  then show ?thesis
    using fetch_time_data_line_short [OF a] by (simp add: line_buffer_def line_read_def)
qed

lemma line_waiting_PutString:
  "line_waiting (Cy_SCB_UART_PutString m w) line t rest timeout_ms =
   line_waiting w line t rest timeout_ms"
  by (simp add: line_waiting_def)

lemma dst_start_entry_typed:
  assumes "line_waiting w line t rest timeout_ms"
  shows "dst_start_entry P fmt timeout_ms vars dst_time w =
     (let w1 = line_read (Cy_SCB_UART_PutString MSG_ENTER_DST_START w) line rest
      in if of_nat (space_keys line) \<noteq> MIN_SPACE_KEY_COUNT
         then Some (vars, dst_time, Cy_SCB_UART_PutString MSG_INVALID_VALUES w1)
         else
           (case dst_input_ok P fmt (sscanf P (line_buffer line) vars) of
              None \<Rightarrow> None
            | Some ok \<Rightarrow>
                if ok
                then Some (sscanf P (line_buffer line) vars,
                           dst_time\<lparr>startDst := dst_point P fmt (sscanf P (line_buffer line) vars)\<rparr>,
                           w1\<lparr>dst_data_flag := DST_VALID_START_TIME_FLAG\<rparr>)
                else Some (sscanf P (line_buffer line) vars, dst_time,
                           Cy_SCB_UART_PutString MSG_INVALID_VALUES w1)))"
proof -
  have "line_waiting (Cy_SCB_UART_PutString MSG_ENTER_DST_START w) line t rest timeout_ms"
    using assms by (simp add: line_waiting_PutString)
  from fetch_time_data_typed [OF this]
  show ?thesis by (simp add: dst_start_entry_def Let_def)
qed

lemma dst_end_entry_typed:
  assumes "line_waiting w line t rest timeout_ms"
    and "dst_data_flag w = DST_VALID_START_TIME_FLAG"
  shows "dst_end_entry P fmt timeout_ms vars dst_time w =
     (let w1 = line_read (Cy_SCB_UART_PutString MSG_ENTER_DST_END w) line rest
      in if of_nat (space_keys line) \<noteq> MIN_SPACE_KEY_COUNT
         then Some (vars, dst_time, Cy_SCB_UART_PutString MSG_INVALID_VALUES w1)
         else
           (case dst_input_ok P fmt (sscanf P (line_buffer line) vars) of
              None \<Rightarrow> None
            | Some ok \<Rightarrow>
                if ok
                then Some (sscanf P (line_buffer line) vars,
                           dst_time\<lparr>stopDst := dst_point P fmt (sscanf P (line_buffer line) vars)\<rparr>,
                           w1\<lparr>dst_data_flag := DST_VALID_END_TIME_FLAG\<rparr>)
                else Some (sscanf P (line_buffer line) vars, dst_time,
                           Cy_SCB_UART_PutString MSG_INVALID_VALUES w1)))"
proof -
  have "line_waiting (Cy_SCB_UART_PutString MSG_ENTER_DST_END w) line t rest timeout_ms"
    using assms(1) by (simp add: line_waiting_PutString)
  from fetch_time_data_typed [OF this] assms(2)
  show ?thesis by (simp add: dst_end_entry_def Let_def)
qed

lemma set_new_time_typed:
  assumes "line_waiting w line t rest timeout_ms"
  shows "set_new_time P locals timeout_ms w =
     (let w1 = line_read (Cy_SCB_UART_PutString MSG_ENTER_TIME w) line rest
      in if of_nat (space_keys line) \<noteq> MIN_SPACE_KEY_COUNT
         then Some (Cy_SCB_UART_PutString MSG_INVALID_VALUES w1)
         else
           (case rtc_retry (set_date_and_time_direct (sscanf P (line_buffer line) locals))
                   MAX_ATTEMPTS w1 of
              (rslt', w2) \<Rightarrow>
                (let w3 = Cy_SCB_UART_PutString MSG_RTC_UPDATED w2
                 in if CY_RTC_SUCCESS \<noteq> rslt'
                    then Some (handle_error (Cy_SCB_UART_PutString MSG_INVALID_VALUES w3))
                    else Some w3)))"
proof -
  have "line_waiting (Cy_SCB_UART_PutString MSG_ENTER_TIME w) line t rest timeout_ms"
    using assms by (simp add: line_waiting_PutString)
  from fetch_time_data_typed [OF this]
  show ?thesis by (simp add: set_new_time_def Let_def)
qed

text \<open>The sample platform on the lines used below.\<close>

lemma sample_start_line:
  "sscanf sample_platform (line_buffer ''03 15 10 00 00 24'') zero_vars =
     \<lparr>v_month = 3, v_mday = 15, v_hour = 10, v_min = 0, v_sec = 0, v_year = 24\<rparr>"
  by code_simp

lemma sample_end_line:
  "sscanf sample_platform (line_buffer ''11 01 10 00 00 24'') vars =
     \<lparr>v_month = 11, v_mday = 1, v_hour = 10, v_min = 0, v_sec = 0, v_year = 24\<rparr>"
  by code_simp

lemma sample_bad_line:
  "sscanf sample_platform (line_buffer ''13 45 25 61 61 24'') vars =
     \<lparr>v_month = 13, v_mday = 45, v_hour = 25, v_min = 61, v_sec = 61, v_year = 24\<rparr>"
  by code_simp

lemma sample_ok_start:
  "dst_input_ok sample_platform (CHR ''1'')
     \<lparr>v_month = 3, v_mday = 15, v_hour = 10, v_min = 0, v_sec = 0, v_year = 24\<rparr> = Some True"
  by code_simp

lemma sample_ok_end:
  "dst_input_ok sample_platform (CHR ''1'')
     \<lparr>v_month = 11, v_mday = 1, v_hour = 10, v_min = 0, v_sec = 0, v_year = 24\<rparr> = Some True"
  by code_simp

lemma menu_rx [simp]:
  "rx (dst_status_display w) = rx w" "rx (dst_menu w) = rx w" "rx (dst_format_menu w) = rx w"
  by (simp_all add: dst_status_display_def dst_menu_def dst_format_menu_def Let_def emit_def)

lemma menu_flag [simp]:
  "dst_data_flag (dst_status_display w) = dst_data_flag w"
  "dst_data_flag (dst_menu w) = dst_data_flag w"
  "dst_data_flag (dst_format_menu w) = dst_data_flag w"
  by (simp_all add: dst_status_display_def dst_menu_def dst_format_menu_def Let_def emit_def)

text \<open>The command "enable" and a format byte are waiting on the serial line.\<close>

lemma set_dst_feature_enable_typed:
  assumes "rx w = Some RTC_CMD_ENABLE_DST # Some fmt # r1" "timeout_ms \<noteq> 0"
  shows "set_dst_feature P dst_time timeout_ms w =
     (case dst_start_entry P fmt timeout_ms zero_vars dst_time
             ((dst_format_menu ((dst_menu (dst_status_display w))\<lparr>rx := Some fmt # r1\<rparr>))
                \<lparr>rx := r1\<rparr>) of
        None \<Rightarrow> None
      | Some (vars1, dst_time1, w2) \<Rightarrow>
          (case dst_end_entry P fmt timeout_ms vars1 dst_time1 w2 of
             None \<Rightarrow> None
           | Some (vars2, dst_time2, w3) \<Rightarrow> Some (dst_commit dst_time2 w3)))"
proof -
  let ?w1 = "(dst_menu (dst_status_display w))\<lparr>rx := Some fmt # r1\<rparr>"
  have g1: "user_uart_getc (CHR 0x00) timeout_ms (dst_menu (dst_status_display w)) =
      Some (CY_RSLT_SUCCESS, RTC_CMD_ENABLE_DST, ?w1)"
    by (rule user_uart_getc_data [OF assms(2)]) (simp add: assms(1))
  have g2: "user_uart_getc (CHR 0x00) timeout_ms (dst_format_menu ?w1) =
      Some (CY_RSLT_SUCCESS, fmt, (dst_format_menu ?w1)\<lparr>rx := r1\<rparr>)"
    by (rule user_uart_getc_data [OF assms(2)]) simp
  show ?thesis
    by (simp add: set_dst_feature_def g1 dst_enable_def g2)
qed

lemma input_timeout_nonzero [simp]: "INPUT_TIMEOUT_MS \<noteq> 0" "unat INPUT_TIMEOUT_MS = 120000"
  by (simp_all add: INPUT_TIMEOUT_MS_def)

lemma space_keys_samples [simp]:
  "space_keys ''03 15 10 00 00 24'' = 5" "space_keys ''11 01 10 00 00 24'' = 5"
  "space_keys ''13 45 25 61 61 24'' = 5" "space_keys ''x'' = 0"
  by (simp_all add: space_keys_def)

lemmas flow_simps =
  dst_status_display_def dst_menu_def dst_format_menu_def line_read_def
  Cy_SCB_UART_PutString_def emit_def
  DST_DISABLED_FLAG_def DST_VALID_START_TIME_FLAG_def DST_VALID_END_TIME_FLAG_def
  DST_ENABLED_FLAG_def

lemma first_invocation:
  assumes "rx w = keys_valid_start_bad_end @ rest" "dst_data_flag w = DST_DISABLED_FLAG"
  shows "set_dst_feature sample_platform dst_time INPUT_TIMEOUT_MS w =
     Some (w\<lparr>rx := rest, dst_data_flag := DST_VALID_START_TIME_FLAG,
             trace := trace w @ echo_valid_start_bad_end\<rparr>)"
proof -
  let ?l1 = "''03 15 10 00 00 24''"
  let ?r2 = "map Some ''x'' @ Some (CHR 0x0A) # rest"
  let ?r1 = "map Some ?l1 @ Some (CHR 0x0A) # ?r2"
  let ?W1 = "(dst_format_menu ((dst_menu (dst_status_display w))\<lparr>rx := Some (CHR ''1'') # ?r1\<rparr>))
                \<lparr>rx := ?r1\<rparr>"
  have rx0: "rx w = Some RTC_CMD_ENABLE_DST # Some (CHR ''1'') # ?r1"
    using assms by (simp add: keys_valid_start_bad_end_def RTC_CMD_ENABLE_DST_def)
  note run = set_dst_feature_enable_typed [OF rx0 input_timeout_nonzero(1), of sample_platform dst_time]
  have lw1: "line_waiting ?W1 ?l1 (CHR 0x0A) ?r2 INPUT_TIMEOUT_MS"
    by (simp add: line_waiting_def is_terminator_def)
  let ?v1 = "\<lparr>v_month = 3, v_mday = 15, v_hour = 10, v_min = 0, v_sec = 0, v_year = 24 :: cint\<rparr>"
  let ?d1 = "dst_time\<lparr>startDst := dst_point sample_platform (CHR ''1'') ?v1\<rparr>"
  let ?W2 = "(line_read (Cy_SCB_UART_PutString MSG_ENTER_DST_START ?W1) ?l1 ?r2)
               \<lparr>dst_data_flag := DST_VALID_START_TIME_FLAG\<rparr>"
  have s: "dst_start_entry sample_platform (CHR ''1'') INPUT_TIMEOUT_MS zero_vars dst_time ?W1 =
      Some (?v1, ?d1, ?W2)"
    unfolding dst_start_entry_typed [OF lw1]
    by (simp add: MIN_SPACE_KEY_COUNT_def sample_start_line sample_ok_start)
  have lw2: "line_waiting ?W2 ''x'' (CHR 0x0A) rest INPUT_TIMEOUT_MS"
    by (simp add: line_waiting_def is_terminator_def line_read_def)
  let ?W3 = "Cy_SCB_UART_PutString MSG_INVALID_VALUES
               (line_read (Cy_SCB_UART_PutString MSG_ENTER_DST_END ?W2) ''x'' rest)"
  have f2: "dst_data_flag ?W2 = DST_VALID_START_TIME_FLAG" by simp
  have e: "dst_end_entry sample_platform (CHR ''1'') INPUT_TIMEOUT_MS ?v1 ?d1 ?W2 =
      Some (?v1, ?d1, ?W3)"
    unfolding dst_end_entry_typed [OF lw2 f2]
    by (simp add: MIN_SPACE_KEY_COUNT_def)
  have f3: "dst_data_flag ?W3 = DST_VALID_START_TIME_FLAG" by (simp add: line_read_def)
  have c: "dst_commit ?d1 ?W3 = ?W3"
    using f3
    by (simp add: dst_commit_def DST_VALID_END_TIME_FLAG_def DST_VALID_START_TIME_FLAG_def)
  have res: "set_dst_feature sample_platform dst_time INPUT_TIMEOUT_MS w = Some ?W3"
    by (simp only: run s e c option.case prod.case)
  have "?W3 = w\<lparr>rx := rest, dst_data_flag := DST_VALID_START_TIME_FLAG,
             trace := trace w @ echo_valid_start_bad_end\<rparr>"
    using assms(2) by (simp add: flow_simps echo_valid_start_bad_end_def)
  then show ?thesis using res by (simp only:)
qed

lemma second_invocation:
  assumes "rx w = keys_bad_start_valid_end @ rest"
    "dst_data_flag w = DST_VALID_START_TIME_FLAG"
    "rtc_results w (rtc_calls w) = CY_RTC_SUCCESS"
  shows "set_dst_feature sample_platform dst_time INPUT_TIMEOUT_MS w =
     Some (w\<lparr>rx := rest, rtc_calls := Suc (rtc_calls w), dst_data_flag := DST_ENABLED_FLAG,
             trace := trace w @ echo_bad_start_valid_end @
               [RTC_EnableDstTime
                  (dst_time\<lparr>stopDst :=
                     \<lparr> dst_format = CY_RTC_DST_FIXED, dst_hour = 10, dst_dayOfMonth = 1,
                       dst_weekOfMonth = 1, dst_dayOfWeek = 1, dst_month = 11 \<rparr>\<rparr>),
                UART_PutString MSG_DST_UPDATED]\<rparr>)"
proof -
  let ?l2 = "''11 01 10 00 00 24''"
  let ?r2 = "map Some ?l2 @ Some (CHR 0x0A) # rest"
  let ?r1 = "map Some ''x'' @ Some (CHR 0x0A) # ?r2"
  let ?W1 = "(dst_format_menu ((dst_menu (dst_status_display w))\<lparr>rx := Some (CHR ''1'') # ?r1\<rparr>))
                \<lparr>rx := ?r1\<rparr>"
  have rx0: "rx w = Some RTC_CMD_ENABLE_DST # Some (CHR ''1'') # ?r1"
    using assms by (simp add: keys_bad_start_valid_end_def RTC_CMD_ENABLE_DST_def)
  note run = set_dst_feature_enable_typed [OF rx0 input_timeout_nonzero(1), of sample_platform dst_time]
  have lw1: "line_waiting ?W1 ''x'' (CHR 0x0A) ?r2 INPUT_TIMEOUT_MS"
    by (simp add: line_waiting_def is_terminator_def)
  let ?W2 = "Cy_SCB_UART_PutString MSG_INVALID_VALUES
               (line_read (Cy_SCB_UART_PutString MSG_ENTER_DST_START ?W1) ''x'' ?r2)"
  have s: "dst_start_entry sample_platform (CHR ''1'') INPUT_TIMEOUT_MS zero_vars dst_time ?W1 =
      Some (zero_vars, dst_time, ?W2)"
    unfolding dst_start_entry_typed [OF lw1]
    by (simp add: MIN_SPACE_KEY_COUNT_def)
  have lw2: "line_waiting ?W2 ?l2 (CHR 0x0A) rest INPUT_TIMEOUT_MS"
    by (simp add: line_waiting_def is_terminator_def line_read_def)
  have f2: "dst_data_flag ?W2 = DST_VALID_START_TIME_FLAG"
    using assms(2) by (simp add: line_read_def)
  let ?v2 = "\<lparr>v_month = 11, v_mday = 1, v_hour = 10, v_min = 0, v_sec = 0, v_year = 24 :: cint\<rparr>"
  let ?d2 = "dst_time\<lparr>stopDst := dst_point sample_platform (CHR ''1'') ?v2\<rparr>"
  let ?W3 = "(line_read (Cy_SCB_UART_PutString MSG_ENTER_DST_END ?W2) ?l2 rest)
               \<lparr>dst_data_flag := DST_VALID_END_TIME_FLAG\<rparr>"
  have e: "dst_end_entry sample_platform (CHR ''1'') INPUT_TIMEOUT_MS zero_vars dst_time ?W2 =
      Some (?v2, ?d2, ?W3)"
    unfolding dst_end_entry_typed [OF lw2 f2]
    by (simp add: MIN_SPACE_KEY_COUNT_def sample_end_line sample_ok_end)
  have res: "set_dst_feature sample_platform dst_time INPUT_TIMEOUT_MS w =
      Some (dst_commit ?d2 ?W3)"
    by (simp only: run s e option.case prod.case)
  have "dst_commit ?d2 ?W3 = w\<lparr>rx := rest, rtc_calls := Suc (rtc_calls w),
             dst_data_flag := DST_ENABLED_FLAG,
             trace := trace w @ echo_bad_start_valid_end @
               [RTC_EnableDstTime
                  (dst_time\<lparr>stopDst :=
                     \<lparr> dst_format = CY_RTC_DST_FIXED, dst_hour = 10, dst_dayOfMonth = 1,
                       dst_weekOfMonth = 1, dst_dayOfWeek = 1, dst_month = 11 \<rparr>\<rparr>),
                UART_PutString MSG_DST_UPDATED]\<rparr>"
    using assms(2,3)
    by (simp add: dst_commit_def rtc_call_def flow_simps echo_bad_start_valid_end_def
        dst_point_def FIXED_DST_FORMAT_def)
  then show ?thesis using res by (simp only:)
qed

lemma max_attempts [simp]: "MAX_ATTEMPTS \<noteq> 0" "unat MAX_ATTEMPTS = 500"
  by (simp_all add: MAX_ATTEMPTS_def)

text \<open>What set_new_time does with a collected line.\<close>

lemma set_new_time_collected:
  assumes f: "fetch_time_data zero_buffer timeout_ms (Cy_SCB_UART_PutString MSG_ENTER_TIME w) =
                Some (rslt, buffer, space_count, w1)"
  shows "quiet w w1"
    and "rslt = CY_SCB_UART_RX_NO_DATA \<Longrightarrow>
           set_new_time P locals timeout_ms w = Some (Cy_SCB_UART_PutString MSG_TIMEOUT w1)"
    and "rslt \<noteq> CY_SCB_UART_RX_NO_DATA \<Longrightarrow> space_count \<noteq> MIN_SPACE_KEY_COUNT \<Longrightarrow>
           set_new_time P locals timeout_ms w =
             Some (Cy_SCB_UART_PutString MSG_INVALID_VALUES w1)"
    and "rslt \<noteq> CY_SCB_UART_RX_NO_DATA \<Longrightarrow> space_count = MIN_SPACE_KEY_COUNT \<Longrightarrow>
           \<exists>r w2. rtc_retry (set_date_and_time_direct (sscanf P buffer locals)) MAX_ATTEMPTS w1
                     = (r, w2) \<and>
                  retried (set_date_and_time_direct (sscanf P buffer locals)) MAX_ATTEMPTS
                     w1 r w2 (rtc_calls w2 - rtc_calls w1) \<and>
                  set_new_time P locals timeout_ms w =
                    Some (if CY_RTC_SUCCESS \<noteq> r
                          then handle_error (Cy_SCB_UART_PutString MSG_INVALID_VALUES
                                 (Cy_SCB_UART_PutString MSG_RTC_UPDATED w2))
                          else Cy_SCB_UART_PutString MSG_RTC_UPDATED w2)"
proof -
  show "quiet w w1"
    using quiet_fetch_time_data [OF f] quiet_PutString [of w MSG_ENTER_TIME]
    by (auto intro: quiet_trans)
  show "rslt = CY_SCB_UART_RX_NO_DATA \<Longrightarrow>
           set_new_time P locals timeout_ms w = Some (Cy_SCB_UART_PutString MSG_TIMEOUT w1)"
    by (simp add: set_new_time_def f)
  show "rslt \<noteq> CY_SCB_UART_RX_NO_DATA \<Longrightarrow> space_count \<noteq> MIN_SPACE_KEY_COUNT \<Longrightarrow>
           set_new_time P locals timeout_ms w =
             Some (Cy_SCB_UART_PutString MSG_INVALID_VALUES w1)"
    by (simp add: set_new_time_def f)
  assume a: "rslt \<noteq> CY_SCB_UART_RX_NO_DATA" "space_count = MIN_SPACE_KEY_COUNT"
  obtain r w2 where
    r: "rtc_retry (set_date_and_time_direct (sscanf P buffer locals)) MAX_ATTEMPTS w1 = (r, w2)"
    by (cases "rtc_retry (set_date_and_time_direct (sscanf P buffer locals)) MAX_ATTEMPTS w1")
  have "set_new_time P locals timeout_ms w =
      Some (if CY_RTC_SUCCESS \<noteq> r
            then handle_error (Cy_SCB_UART_PutString MSG_INVALID_VALUES
                   (Cy_SCB_UART_PutString MSG_RTC_UPDATED w2))
            else Cy_SCB_UART_PutString MSG_RTC_UPDATED w2)"
    using a by (simp add: set_new_time_def f r Let_def)
  then show "\<exists>r w2. rtc_retry (set_date_and_time_direct (sscanf P buffer locals)) MAX_ATTEMPTS w1
                     = (r, w2) \<and>
                  retried (set_date_and_time_direct (sscanf P buffer locals)) MAX_ATTEMPTS
                     w1 r w2 (rtc_calls w2 - rtc_calls w1) \<and>
                  set_new_time P locals timeout_ms w =
                    Some (if CY_RTC_SUCCESS \<noteq> r
                          then handle_error (Cy_SCB_UART_PutString MSG_INVALID_VALUES
                                 (Cy_SCB_UART_PutString MSG_RTC_UPDATED w2))
                          else Cy_SCB_UART_PutString MSG_RTC_UPDATED w2)"
    using r rtc_retry_retried [OF r max_attempts(1)] by blast
qed

lemma retried_first_events:
  assumes "retried call attempts w r w2 n" "trace w' = trace w2 @ es"
  shows "take 2 (new_events w w') = [call, SysLib_Delay INIT_DELAY_MS]"
proof -
  have "1 \<le> n" using assms(1) unfolding retried_def by (rule conjunct1)
  then obtain m where n: "n = Suc m" by (cases n) simp_all
  have t2: "trace w2 = trace w @ concat (replicate n [call, SysLib_Delay INIT_DELAY_MS])"
    using assms(1) unfolding retried_def by blast
  have "concat (replicate n [call, SysLib_Delay INIT_DELAY_MS]) =
      [call, SysLib_Delay INIT_DELAY_MS] @ concat (replicate m [call, SysLib_Delay INIT_DELAY_MS])"
    unfolding n by simp
  then have "trace w' = trace w @ ([call, SysLib_Delay INIT_DELAY_MS] @
      concat (replicate m [call, SysLib_Delay INIT_DELAY_MS]) @ es)"
    using t2 assms(2) by simp
  then have "new_events w w' = [call, SysLib_Delay INIT_DELAY_MS] @
      concat (replicate m [call, SysLib_Delay INIT_DELAY_MS]) @ es"
    unfolding new_events_def by simp
  then show ?thesis by simp
qed

lemma set_new_time_first_write:
  assumes f: "fetch_time_data zero_buffer timeout_ms (Cy_SCB_UART_PutString MSG_ENTER_TIME w) =
                Some (rslt, buffer, space_count, w1)"
    and a: "rslt \<noteq> CY_SCB_UART_RX_NO_DATA" "space_count = MIN_SPACE_KEY_COUNT"
  shows "\<exists>w'. set_new_time P locals timeout_ms w = Some w' \<and>
           take 2 (new_events w1 w') =
             [set_date_and_time_direct (sscanf P buffer locals), SysLib_Delay INIT_DELAY_MS]"
proof -
  obtain r w2 where
    rt: "retried (set_date_and_time_direct (sscanf P buffer locals)) MAX_ATTEMPTS
            w1 r w2 (rtc_calls w2 - rtc_calls w1)"
    and s: "set_new_time P locals timeout_ms w =
              Some (if CY_RTC_SUCCESS \<noteq> r
                    then handle_error (Cy_SCB_UART_PutString MSG_INVALID_VALUES
                           (Cy_SCB_UART_PutString MSG_RTC_UPDATED w2))
                    else Cy_SCB_UART_PutString MSG_RTC_UPDATED w2)"
    using set_new_time_collected(4) [OF f a] by blast
  let ?w' = "if CY_RTC_SUCCESS \<noteq> r
             then handle_error (Cy_SCB_UART_PutString MSG_INVALID_VALUES
                    (Cy_SCB_UART_PutString MSG_RTC_UPDATED w2))
             else Cy_SCB_UART_PutString MSG_RTC_UPDATED w2"
  have "\<exists>es. trace ?w' = trace w2 @ es" by simp
  then obtain es where "trace ?w' = trace w2 @ es" by blast
  from retried_first_events [OF rt this] s show ?thesis by blast
qed

lemma driver_calls_append:
  "driver_calls (w\<lparr>trace := xs @ ys\<rparr>) = filter (\<lambda>e. \<not> quiet_event e) xs @ filter (\<lambda>e. \<not> quiet_event e) ys"
  by (simp add: driver_calls_def)

text \<open>
  Claim C1: in \<open>set_new_time\<close>, for every collected line with five delimiters, the six
  fields are validated by \<open>validate_date_time\<close> before any attempt to set the date and
  time in the hardware: the call is attempted only when the validation returns true,
  and when it fails, invalid input is reported and nothing is written.

  \<open>set_new_time\<close> does not call \<open>validate_date_time\<close>: after the check of the
  delimiter count it passes what \<open>sscanf\<close> has stored to \<open>Cy_RTC_SetDateAndTimeDirect\<close>
  (lines 595-601). \<open>set_dst_feature\<close> validates the same six fields before it uses them
  (lines 421 and 474), and \<open>set_new_time\<close> itself reports a refusal of the driver with
  the text for invalid values (line 612), after up to 500 calls and after the text
  "RTC time updated" (line 608), and then stops in \<open>handle_error\<close>. Here the line
  "13 45 25 61 61 24", whose fields \<open>validate_date_time\<close> rejects, is typed: the first
  call of the driver is the attempt to set these fields.
\<close>

theorem set_new_time_writes_invalid_fields:
  "validate_date_time sample_platform 61 61 25 45 13 24 = Some False \<and>
   map_option (\<lambda>w'. take 1 (driver_calls w'))
     (set_new_time sample_platform zero_vars INPUT_TIMEOUT_MS
        (power_on keys_bad_time (\<lambda>k. 1) False)) =
     Some [RTC_SetDateAndTimeDirect 61 61 25 45 13 24]"
proof -
  let ?w = "power_on keys_bad_time (\<lambda>k. 1) False"
  let ?l = "''13 45 25 61 61 24''"
  let ?wp = "Cy_SCB_UART_PutString MSG_ENTER_TIME ?w"
  let ?wq = "line_read ?wp ?l []"
  let ?call = "RTC_SetDateAndTimeDirect 61 61 25 45 13 24"
  have v: "validate_date_time sample_platform 61 61 25 45 13 24 = Some False" by code_simp
  have lw: "line_waiting ?wp ?l (CHR 0x0A) [] INPUT_TIMEOUT_MS"
    by (simp add: line_waiting_def is_terminator_def keys_bad_time_def power_on_def)
  have f: "fetch_time_data zero_buffer INPUT_TIMEOUT_MS ?wp =
      Some (CY_RSLT_SUCCESS, line_buffer ?l, MIN_SPACE_KEY_COUNT, ?wq)"
    using fetch_time_data_typed [OF lw] by (simp add: MIN_SPACE_KEY_COUNT_def)
  have c: "set_date_and_time_direct (sscanf sample_platform (line_buffer ?l) zero_vars) = ?call"
    by (simp add: sample_bad_line set_date_and_time_direct_def)
  obtain w' where
    s: "set_new_time sample_platform zero_vars INPUT_TIMEOUT_MS ?w = Some w'"
    and t: "take 2 (new_events ?wq w') = [?call, SysLib_Delay INIT_DELAY_MS]"
    using set_new_time_first_write [OF f, of sample_platform zero_vars] c by auto
  obtain r w2 where
    rt: "retried ?call MAX_ATTEMPTS ?wq r w2 (rtc_calls w2 - rtc_calls ?wq)"
    and s2: "set_new_time sample_platform zero_vars INPUT_TIMEOUT_MS ?w =
              Some (if CY_RTC_SUCCESS \<noteq> r
                    then handle_error (Cy_SCB_UART_PutString MSG_INVALID_VALUES
                           (Cy_SCB_UART_PutString MSG_RTC_UPDATED w2))
                    else Cy_SCB_UART_PutString MSG_RTC_UPDATED w2)"
    using set_new_time_collected(4) [OF f, of sample_platform zero_vars] c by auto
  have "1 \<le> rtc_calls w2 - rtc_calls ?wq" using rt unfolding retried_def by (rule conjunct1)
  then obtain m where n: "rtc_calls w2 - rtc_calls ?wq = Suc m"
    by (cases "rtc_calls w2 - rtc_calls ?wq") simp_all
  have t2: "trace w2 = trace ?wq @ concat (replicate (Suc m) [?call, SysLib_Delay INIT_DELAY_MS])"
    using rt unfolding retried_def n by blast
  have q1: "filter (\<lambda>e. \<not> quiet_event e) (trace ?wq) = []"
    by (simp add: line_read_def power_on_def)
  have "\<exists>es. trace w' = trace w2 @ es" using s s2 by (auto split: if_splits)
  then obtain es where "trace w' = trace w2 @ es" by blast
  then have "trace w' = trace ?wq @ ?call # (SysLib_Delay INIT_DELAY_MS #
      concat (replicate m [?call, SysLib_Delay INIT_DELAY_MS]) @ es)"
    using t2 by simp
  then have "driver_calls w' = ?call # filter (\<lambda>e. \<not> quiet_event e) (SysLib_Delay INIT_DELAY_MS #
      concat (replicate m [?call, SysLib_Delay INIT_DELAY_MS]) @ es)"
    unfolding driver_calls_def using q1 by simp
  then have "take 1 (driver_calls w') = [?call]" by simp
  then show ?thesis using v s by simp
qed

text \<open>
  What \<open>set_new_time\<close> does with a collected line, whatever its fields are: with five
  delimiters the call that sets the date and time, with the fields that \<open>sscanf\<close> has
  stored, and its delay follow the collection at once; with another count the text for
  invalid values follows, and after a timeout of the collection the text for the
  timeout, in both cases without a call of the driver. The collection itself calls no
  driver function.
\<close>

lemma set_new_time_writes_unvalidated:
  assumes "fetch_time_data zero_buffer timeout_ms (Cy_SCB_UART_PutString MSG_ENTER_TIME w) =
             Some (rslt, buffer, space_count, w1)"
  shows "quiet w w1 \<and>
     (rslt \<noteq> CY_SCB_UART_RX_NO_DATA \<and> space_count = MIN_SPACE_KEY_COUNT \<longrightarrow>
        (\<exists>w'. set_new_time P locals timeout_ms w = Some w' \<and>
              take 2 (new_events w1 w') =
                [set_date_and_time_direct (sscanf P buffer locals),
                 SysLib_Delay INIT_DELAY_MS])) \<and>
     (rslt \<noteq> CY_SCB_UART_RX_NO_DATA \<and> space_count \<noteq> MIN_SPACE_KEY_COUNT \<longrightarrow>
        set_new_time P locals timeout_ms w =
          Some (Cy_SCB_UART_PutString MSG_INVALID_VALUES w1)) \<and>
     (rslt = CY_SCB_UART_RX_NO_DATA \<longrightarrow>
        set_new_time P locals timeout_ms w = Some (Cy_SCB_UART_PutString MSG_TIMEOUT w1))"
  using set_new_time_collected(1-3) [OF assms] set_new_time_first_write [OF assms]
  by blast

lemma set_new_time_writes_unvalidated_sample:
  "quiet (power_on keys_good_time (\<lambda>k. CY_RTC_SUCCESS) False)
     (line_read (Cy_SCB_UART_PutString MSG_ENTER_TIME
                   (power_on keys_good_time (\<lambda>k. CY_RTC_SUCCESS) False))
        ''03 15 10 30 00 24'' []) \<and>
   (\<exists>w'. set_new_time sample_platform zero_vars INPUT_TIMEOUT_MS
            (power_on keys_good_time (\<lambda>k. CY_RTC_SUCCESS) False) = Some w' \<and>
         take 2 (new_events
                   (line_read (Cy_SCB_UART_PutString MSG_ENTER_TIME
                                 (power_on keys_good_time (\<lambda>k. CY_RTC_SUCCESS) False))
                      ''03 15 10 30 00 24'' []) w') =
           [RTC_SetDateAndTimeDirect 0 30 10 15 3 24, SysLib_Delay INIT_DELAY_MS])"
proof -
  let ?w = "power_on keys_good_time (\<lambda>k. CY_RTC_SUCCESS) False"
  let ?l = "''03 15 10 30 00 24''"
  let ?wp = "Cy_SCB_UART_PutString MSG_ENTER_TIME ?w"
  let ?wq = "line_read ?wp ?l []"
  have lw: "line_waiting ?wp ?l (CHR 0x0A) [] INPUT_TIMEOUT_MS"
    by (simp add: line_waiting_def is_terminator_def keys_good_time_def power_on_def)
  have sp: "space_keys ?l = 5" by (simp add: space_keys_def)
  have f: "fetch_time_data zero_buffer INPUT_TIMEOUT_MS ?wp =
      Some (CY_RSLT_SUCCESS, line_buffer ?l, MIN_SPACE_KEY_COUNT, ?wq)"
    using fetch_time_data_typed [OF lw] sp by (simp add: MIN_SPACE_KEY_COUNT_def)
  have sc: "sscanf sample_platform (line_buffer ?l) zero_vars =
      \<lparr>v_month = 3, v_mday = 15, v_hour = 10, v_min = 30, v_sec = 0, v_year = 24\<rparr>"
    by code_simp
  have c: "set_date_and_time_direct (sscanf sample_platform (line_buffer ?l) zero_vars) =
      RTC_SetDateAndTimeDirect 0 30 10 15 3 24"
    by (simp add: sc set_date_and_time_direct_def)
  show ?thesis
    using set_new_time_writes_unvalidated [OF f, of sample_platform zero_vars] c
    by simp
qed

lemma full_invocation:
  assumes "rx w = keys_valid_start_valid_end @ rest" "dst_data_flag w = DST_DISABLED_FLAG"
    "rtc_results w (rtc_calls w) = CY_RTC_SUCCESS"
  shows "set_dst_feature sample_platform dst_time INPUT_TIMEOUT_MS w =
     Some (w\<lparr>rx := rest, rtc_calls := Suc (rtc_calls w), dst_data_flag := DST_ENABLED_FLAG,
             trace := trace w @ echo_valid_start_valid_end @
               [RTC_EnableDstTime sample_dst_time, UART_PutString MSG_DST_UPDATED]\<rparr>)"
proof -
  let ?l1 = "''03 15 10 00 00 24''"
  let ?l2 = "''11 01 10 00 00 24''"
  let ?r2 = "map Some ?l2 @ Some (CHR 0x0A) # rest"
  let ?r1 = "map Some ?l1 @ Some (CHR 0x0A) # ?r2"
  let ?Wa = "(dst_format_menu ((dst_menu (dst_status_display w))\<lparr>rx := Some (CHR ''1'') # ?r1\<rparr>))
                \<lparr>rx := ?r1\<rparr>"
  have rx0: "rx w = Some RTC_CMD_ENABLE_DST # Some (CHR ''1'') # ?r1"
    using assms by (simp add: keys_valid_start_valid_end_def RTC_CMD_ENABLE_DST_def)
  note run = set_dst_feature_enable_typed [OF rx0 input_timeout_nonzero(1), of sample_platform dst_time]
  have lw1: "line_waiting ?Wa ?l1 (CHR 0x0A) ?r2 INPUT_TIMEOUT_MS"
    by (simp add: line_waiting_def is_terminator_def)
  let ?v1 = "\<lparr>v_month = 3, v_mday = 15, v_hour = 10, v_min = 0, v_sec = 0, v_year = 24 :: cint\<rparr>"
  let ?d1 = "dst_time\<lparr>startDst := dst_point sample_platform (CHR ''1'') ?v1\<rparr>"
  let ?Wb = "(line_read (Cy_SCB_UART_PutString MSG_ENTER_DST_START ?Wa) ?l1 ?r2)
               \<lparr>dst_data_flag := DST_VALID_START_TIME_FLAG\<rparr>"
  have s: "dst_start_entry sample_platform (CHR ''1'') INPUT_TIMEOUT_MS zero_vars dst_time ?Wa =
      Some (?v1, ?d1, ?Wb)"
    unfolding dst_start_entry_typed [OF lw1]
    by (simp add: MIN_SPACE_KEY_COUNT_def sample_start_line sample_ok_start)
  have lw2: "line_waiting ?Wb ?l2 (CHR 0x0A) rest INPUT_TIMEOUT_MS"
    by (simp add: line_waiting_def is_terminator_def line_read_def)
  have f2: "dst_data_flag ?Wb = DST_VALID_START_TIME_FLAG" by simp
  let ?v2 = "\<lparr>v_month = 11, v_mday = 1, v_hour = 10, v_min = 0, v_sec = 0, v_year = 24 :: cint\<rparr>"
  let ?d2 = "?d1\<lparr>stopDst := dst_point sample_platform (CHR ''1'') ?v2\<rparr>"
  let ?Wc = "(line_read (Cy_SCB_UART_PutString MSG_ENTER_DST_END ?Wb) ?l2 rest)
               \<lparr>dst_data_flag := DST_VALID_END_TIME_FLAG\<rparr>"
  have e: "dst_end_entry sample_platform (CHR ''1'') INPUT_TIMEOUT_MS ?v1 ?d1 ?Wb =
      Some (?v2, ?d2, ?Wc)"
    unfolding dst_end_entry_typed [OF lw2 f2]
    by (simp add: MIN_SPACE_KEY_COUNT_def sample_end_line sample_ok_end)
  have res: "set_dst_feature sample_platform dst_time INPUT_TIMEOUT_MS w =
      Some (dst_commit ?d2 ?Wc)"
    by (simp only: run s e option.case prod.case)
  have "dst_commit ?d2 ?Wc = w\<lparr>rx := rest, rtc_calls := Suc (rtc_calls w),
             dst_data_flag := DST_ENABLED_FLAG,
             trace := trace w @ echo_valid_start_valid_end @
               [RTC_EnableDstTime sample_dst_time, UART_PutString MSG_DST_UPDATED]\<rparr>"
    using assms(2,3)
    by (simp add: dst_commit_def rtc_call_def flow_simps echo_valid_start_valid_end_def
        dst_point_def FIXED_DST_FORMAT_def sample_dst_time_def)
  then show ?thesis using res by (simp only:)
qed

text \<open>
  Claim C3: in every invocation of \<open>set_dst_feature\<close> the persisted DST state is
  "disabled" or "enabled" when the function returns, and a timeout or invalid input at
  an intermediate step ends the flow with the persisted state equal to the one before
  the invocation.

  The theorem runs one invocation from the state "disabled": "enable", fixed format,
  the valid start time "03 15 10 00 00 24" and the end time "x", which is rejected.
  The function returns with \<open>dst_data_flag\<close> equal to \<open>DST_VALID_START_TIME_FLAG\<close>, which
  is neither \<open>DST_DISABLED_FLAG\<close> nor \<open>DST_ENABLED_FLAG\<close> and not the value before the
  invocation: nothing sets the flag back (the defect described at claim C2).
\<close>

theorem set_dst_feature_leaves_valid_start:
  "dst_data_flag (power_on keys_valid_start_bad_end (\<lambda>k. CY_RTC_SUCCESS) False) =
     DST_DISABLED_FLAG \<and>
   map_option dst_data_flag
     (set_dst_feature sample_platform unset_dst_time INPUT_TIMEOUT_MS
        (power_on keys_valid_start_bad_end (\<lambda>k. CY_RTC_SUCCESS) False)) =
     Some DST_VALID_START_TIME_FLAG \<and>
   DST_VALID_START_TIME_FLAG \<noteq> DST_DISABLED_FLAG \<and>
   DST_VALID_START_TIME_FLAG \<noteq> DST_ENABLED_FLAG"
proof -
  let ?w = "power_on keys_valid_start_bad_end (\<lambda>k. CY_RTC_SUCCESS) False"
  have "rx ?w = keys_valid_start_bad_end @ []" "dst_data_flag ?w = DST_DISABLED_FLAG"
    by (simp_all add: power_on_def DST_DISABLED_FLAG_def)
  from first_invocation [OF this, of unset_dst_time]
  show ?thesis
    by (simp add: power_on_def DST_DISABLED_FLAG_def DST_VALID_START_TIME_FLAG_def
        DST_ENABLED_FLAG_def)
qed

text \<open>
  Claim C2: in every invocation of \<open>set_dst_feature\<close> that writes the DST times on the
  path of the command "enable", the start point and the end point passed to the driver
  were both built in that invocation from fields that passed \<open>validate_date_time\<close> with
  a recognised format; the write is issued only from the state "valid end", reached
  through "valid start" in that invocation.

  The code does not keep this across invocations. \<open>dst_data_flag\<close> is a global variable
  that is set to \<open>DST_VALID_START_TIME_FLAG\<close> after a valid start time and is not set
  back when the end time is then rejected or times out. In the next invocation the
  test of line 453 passes although the start time of that invocation was rejected, a
  valid end time sets the flag to \<open>DST_VALID_END_TIME_FLAG\<close>, and the driver is called
  with \<open>dst_time.startDst\<close> as the uninitialised local variable holds it. The theorem
  runs two invocations: "enable", fixed format, start "03 15 10 00 00 24", end "x";
  then "enable", fixed format, start "x", end "11 01 10 00 00 24". The DST write of
  the second invocation carries the start point of \<open>unset_dst_time\<close>.
\<close>

theorem set_dst_feature_stale_start:
  "map_option dst_written
     (Option.bind
        (set_dst_feature sample_platform unset_dst_time INPUT_TIMEOUT_MS
           (power_on (keys_valid_start_bad_end @ keys_bad_start_valid_end)
              (\<lambda>k. CY_RTC_SUCCESS) False))
        (set_dst_feature sample_platform unset_dst_time INPUT_TIMEOUT_MS)) =
     Some [RTC_EnableDstTime
             \<lparr> startDst = startDst unset_dst_time,
               stopDst = \<lparr> dst_format = CY_RTC_DST_FIXED, dst_hour = 10, dst_dayOfMonth = 1,
                           dst_weekOfMonth = 1, dst_dayOfWeek = 1, dst_month = 11 \<rparr> \<rparr>]"
proof -
  let ?w = "power_on (keys_valid_start_bad_end @ keys_bad_start_valid_end)
              (\<lambda>k. CY_RTC_SUCCESS) False"
  let ?wa = "?w\<lparr>rx := keys_bad_start_valid_end, dst_data_flag := DST_VALID_START_TIME_FLAG,
                trace := trace ?w @ echo_valid_start_bad_end\<rparr>"
  have "rx ?w = keys_valid_start_bad_end @ keys_bad_start_valid_end"
    "dst_data_flag ?w = DST_DISABLED_FLAG"
    by (simp_all add: power_on_def DST_DISABLED_FLAG_def)
  from first_invocation [OF this, of unset_dst_time]
  have one: "set_dst_feature sample_platform unset_dst_time INPUT_TIMEOUT_MS ?w = Some ?wa" .
  have "rx ?wa = keys_bad_start_valid_end @ []"
    "dst_data_flag ?wa = DST_VALID_START_TIME_FLAG"
    "rtc_results ?wa (rtc_calls ?wa) = CY_RTC_SUCCESS"
    by (simp_all add: power_on_def)
  from second_invocation [OF this, of unset_dst_time]
  have two: "dst_written (the (set_dst_feature sample_platform unset_dst_time INPUT_TIMEOUT_MS ?wa)) =
      [RTC_EnableDstTime
         (unset_dst_time\<lparr>stopDst :=
            \<lparr> dst_format = CY_RTC_DST_FIXED, dst_hour = 10, dst_dayOfMonth = 1,
              dst_weekOfMonth = 1, dst_dayOfWeek = 1, dst_month = 11 \<rparr>\<rparr>)] \<and>
      set_dst_feature sample_platform unset_dst_time INPUT_TIMEOUT_MS ?wa \<noteq> None"
    by (simp add: dst_written_def power_on_def echo_valid_start_bad_end_def
        echo_bad_start_valid_end_def)
  have "unset_dst_time\<lparr>stopDst :=
            \<lparr> dst_format = CY_RTC_DST_FIXED, dst_hour = 10, dst_dayOfMonth = 1,
              dst_weekOfMonth = 1, dst_dayOfWeek = 1, dst_month = 11 \<rparr>\<rparr> =
        \<lparr> startDst = startDst unset_dst_time,
               stopDst = \<lparr> dst_format = CY_RTC_DST_FIXED, dst_hour = 10, dst_dayOfMonth = 1,
                           dst_weekOfMonth = 1, dst_dayOfWeek = 1, dst_month = 11 \<rparr> \<rparr>"
    by (simp add: unset_dst_time_def)
  then show ?thesis using one two by (auto simp only: Option.bind.simps option.map_sel option.sel)
qed

lemma main_rtc_init_result:
  assumes "rtc_init w = (r, w')"
  shows "retried RTC_Init MAX_ATTEMPTS w r w' (rtc_calls w' - rtc_calls w)"
    and "main_rtc_init w = (if r \<noteq> CY_RTC_SUCCESS then handle_error w' else w')"
proof -
  have "rtc_retry RTC_Init MAX_ATTEMPTS w = (r, w')" using assms by (simp add: rtc_init_def)
  from rtc_retry_retried [OF this max_attempts(1)]
  show "retried RTC_Init MAX_ATTEMPTS w r w' (rtc_calls w' - rtc_calls w)" .
  show "main_rtc_init w = (if r \<noteq> CY_RTC_SUCCESS then handle_error w' else w')"
    by (simp add: main_rtc_init_def assms)
qed

text \<open>
  Claim C8: the write of the DST times is attempted at most once in an invocation of
  \<open>set_dst_feature\<close>, and a failure that the hardware reports is fatal and not
  retried; the bring-up of the RTC and the call that sets the date and time are each
  retried, up to 500 attempts with a delay of 5 ms, stopping at the first success and
  becoming fatal only when the 500 attempts are used up.

  The three parts are \<open>dst_write_once\<close> for \<open>set_dst_feature\<close>, \<open>retried\<close> for \<open>rtc_init\<close>
  with the check of lines 187-190 in \<open>main\<close>, and \<open>retried\<close> for the loop of
  \<open>set_new_time\<close> with the check of lines 610-615.
\<close>

theorem driver_call_attempts:
  "(\<forall>P dst_time timeout_ms w w'.
      set_dst_feature P dst_time timeout_ms w = Some w' \<longrightarrow> dst_write_once w w') \<and>
   (\<forall>w r w'.
      rtc_init w = (r, w') \<longrightarrow>
        retried RTC_Init MAX_ATTEMPTS w r w' (rtc_calls w' - rtc_calls w) \<and>
        main_rtc_init w = (if r \<noteq> CY_RTC_SUCCESS then handle_error w' else w')) \<and>
   (\<forall>P locals timeout_ms w rslt buffer w1.
      fetch_time_data zero_buffer timeout_ms (Cy_SCB_UART_PutString MSG_ENTER_TIME w) =
        Some (rslt, buffer, MIN_SPACE_KEY_COUNT, w1) \<and>
      rslt \<noteq> CY_SCB_UART_RX_NO_DATA \<longrightarrow>
        (\<exists>r w2. rtc_retry (set_date_and_time_direct (sscanf P buffer locals)) MAX_ATTEMPTS w1
                   = (r, w2) \<and>
                retried (set_date_and_time_direct (sscanf P buffer locals)) MAX_ATTEMPTS
                   w1 r w2 (rtc_calls w2 - rtc_calls w1) \<and>
                set_new_time P locals timeout_ms w =
                  Some (if CY_RTC_SUCCESS \<noteq> r
                        then handle_error (Cy_SCB_UART_PutString MSG_INVALID_VALUES
                               (Cy_SCB_UART_PutString MSG_RTC_UPDATED w2))
                        else Cy_SCB_UART_PutString MSG_RTC_UPDATED w2))) \<and>
   unat MAX_ATTEMPTS = 500 \<and> INIT_DELAY_MS = 5"
proof (intro conjI allI impI)
  fix P dst_time timeout_ms w w'
  assume "set_dst_feature P dst_time timeout_ms w = Some w'"
  then show "dst_write_once w w'" by (rule dst_write_once_set_dst_feature)
next
  fix w r w'
  assume "rtc_init w = (r, w')"
  then show "retried RTC_Init MAX_ATTEMPTS w r w' (rtc_calls w' - rtc_calls w)"
    and "main_rtc_init w = (if r \<noteq> CY_RTC_SUCCESS then handle_error w' else w')"
    by (rule main_rtc_init_result)+
next
  fix P locals timeout_ms w rslt buffer w1
  assume a: "fetch_time_data zero_buffer timeout_ms (Cy_SCB_UART_PutString MSG_ENTER_TIME w) =
        Some (rslt, buffer, MIN_SPACE_KEY_COUNT, w1) \<and>
      rslt \<noteq> CY_SCB_UART_RX_NO_DATA"
  then have f: "fetch_time_data zero_buffer timeout_ms (Cy_SCB_UART_PutString MSG_ENTER_TIME w) =
        Some (rslt, buffer, MIN_SPACE_KEY_COUNT, w1)"
    and r: "rslt \<noteq> CY_SCB_UART_RX_NO_DATA" by blast+
  from set_new_time_collected(4) [OF f r refl]
  show "\<exists>r w2. rtc_retry (set_date_and_time_direct (sscanf P buffer locals)) MAX_ATTEMPTS w1
                   = (r, w2) \<and>
                retried (set_date_and_time_direct (sscanf P buffer locals)) MAX_ATTEMPTS
                   w1 r w2 (rtc_calls w2 - rtc_calls w1) \<and>
                set_new_time P locals timeout_ms w =
                  Some (if CY_RTC_SUCCESS \<noteq> r
                        then handle_error (Cy_SCB_UART_PutString MSG_INVALID_VALUES
                               (Cy_SCB_UART_PutString MSG_RTC_UPDATED w2))
                        else Cy_SCB_UART_PutString MSG_RTC_UPDATED w2)" .
next
  show "unat MAX_ATTEMPTS = 500" by simp
  show "INIT_DELAY_MS = 5" by (simp add: INIT_DELAY_MS_def)
qed

lemma rtc_init_third_time:
  "rtc_init (power_on [] third_time_lucky False) =
     (CY_RTC_SUCCESS,
      (power_on [] third_time_lucky False)
        \<lparr>rtc_calls := 3,
          trace := [RTC_Init, SysLib_Delay INIT_DELAY_MS, RTC_Init, SysLib_Delay INIT_DELAY_MS,
                    RTC_Init, SysLib_Delay INIT_DELAY_MS]\<rparr>)"
  by (simp add: rtc_init_def rtc_retry.simps rtc_call_def power_on_def third_time_lucky_def
      Cy_SysLib_Delay_def emit_def MAX_ATTEMPTS_def CY_RTC_SUCCESS_def)

theorem driver_call_attempts_witness:
  "set_dst_feature sample_platform unset_dst_time INPUT_TIMEOUT_MS
     (power_on keys_valid_start_valid_end (\<lambda>k. CY_RTC_SUCCESS) False) =
     Some ((power_on [] (\<lambda>k. CY_RTC_SUCCESS) False)
             \<lparr>rtc_calls := 1, dst_data_flag := DST_ENABLED_FLAG,
               trace := echo_valid_start_valid_end @
                 [RTC_EnableDstTime sample_dst_time, UART_PutString MSG_DST_UPDATED]\<rparr>) \<and>
   dst_write_once (power_on keys_valid_start_valid_end (\<lambda>k. CY_RTC_SUCCESS) False)
     ((power_on [] (\<lambda>k. CY_RTC_SUCCESS) False)
             \<lparr>rtc_calls := 1, dst_data_flag := DST_ENABLED_FLAG,
               trace := echo_valid_start_valid_end @
                 [RTC_EnableDstTime sample_dst_time, UART_PutString MSG_DST_UPDATED]\<rparr>) \<and>
   retried RTC_Init MAX_ATTEMPTS (power_on [] third_time_lucky False) CY_RTC_SUCCESS
     ((power_on [] third_time_lucky False)
        \<lparr>rtc_calls := 3,
          trace := [RTC_Init, SysLib_Delay INIT_DELAY_MS, RTC_Init, SysLib_Delay INIT_DELAY_MS,
                    RTC_Init, SysLib_Delay INIT_DELAY_MS]\<rparr>) 3 \<and>
   main_rtc_init (power_on [] third_time_lucky False) =
     (power_on [] third_time_lucky False)
        \<lparr>rtc_calls := 3,
          trace := [RTC_Init, SysLib_Delay INIT_DELAY_MS, RTC_Init, SysLib_Delay INIT_DELAY_MS,
                    RTC_Init, SysLib_Delay INIT_DELAY_MS]\<rparr> \<and>
   (\<exists>r w2. rtc_retry (RTC_SetDateAndTimeDirect 0 30 10 15 3 24) MAX_ATTEMPTS
              (line_read (Cy_SCB_UART_PutString MSG_ENTER_TIME
                            (power_on keys_good_time (\<lambda>k. CY_RTC_SUCCESS) False))
                 ''03 15 10 30 00 24'' []) = (r, w2) \<and>
           retried (RTC_SetDateAndTimeDirect 0 30 10 15 3 24) MAX_ATTEMPTS
              (line_read (Cy_SCB_UART_PutString MSG_ENTER_TIME
                            (power_on keys_good_time (\<lambda>k. CY_RTC_SUCCESS) False))
                 ''03 15 10 30 00 24'' []) r w2
              (rtc_calls w2 -
               rtc_calls (line_read (Cy_SCB_UART_PutString MSG_ENTER_TIME
                            (power_on keys_good_time (\<lambda>k. CY_RTC_SUCCESS) False))
                 ''03 15 10 30 00 24'' [])) \<and>
           set_new_time sample_platform zero_vars INPUT_TIMEOUT_MS
             (power_on keys_good_time (\<lambda>k. CY_RTC_SUCCESS) False) =
             Some (if CY_RTC_SUCCESS \<noteq> r
                   then handle_error (Cy_SCB_UART_PutString MSG_INVALID_VALUES
                          (Cy_SCB_UART_PutString MSG_RTC_UPDATED w2))
                   else Cy_SCB_UART_PutString MSG_RTC_UPDATED w2))"
proof -
  note claim = driver_call_attempts
  let ?w = "power_on keys_valid_start_valid_end (\<lambda>k. CY_RTC_SUCCESS) False"
  have "rx ?w = keys_valid_start_valid_end @ []" "dst_data_flag ?w = DST_DISABLED_FLAG"
    "rtc_results ?w (rtc_calls ?w) = CY_RTC_SUCCESS"
    by (simp_all add: power_on_def DST_DISABLED_FLAG_def)
  from full_invocation [OF this, of unset_dst_time]
  have run: "set_dst_feature sample_platform unset_dst_time INPUT_TIMEOUT_MS ?w =
     Some ((power_on [] (\<lambda>k. CY_RTC_SUCCESS) False)
             \<lparr>rtc_calls := 1, dst_data_flag := DST_ENABLED_FLAG,
               trace := echo_valid_start_valid_end @
                 [RTC_EnableDstTime sample_dst_time, UART_PutString MSG_DST_UPDATED]\<rparr>)"
    by (simp add: power_on_def)
  have A: "dst_write_once ?w
     ((power_on [] (\<lambda>k. CY_RTC_SUCCESS) False)
             \<lparr>rtc_calls := 1, dst_data_flag := DST_ENABLED_FLAG,
               trace := echo_valid_start_valid_end @
                 [RTC_EnableDstTime sample_dst_time, UART_PutString MSG_DST_UPDATED]\<rparr>)"
    using claim run by blast
  have B: "retried RTC_Init MAX_ATTEMPTS (power_on [] third_time_lucky False) CY_RTC_SUCCESS
     ((power_on [] third_time_lucky False)
        \<lparr>rtc_calls := 3,
          trace := [RTC_Init, SysLib_Delay INIT_DELAY_MS, RTC_Init, SysLib_Delay INIT_DELAY_MS,
                    RTC_Init, SysLib_Delay INIT_DELAY_MS]\<rparr>)
       (rtc_calls ((power_on [] third_time_lucky False)
        \<lparr>rtc_calls := 3,
          trace := [RTC_Init, SysLib_Delay INIT_DELAY_MS, RTC_Init, SysLib_Delay INIT_DELAY_MS,
                    RTC_Init, SysLib_Delay INIT_DELAY_MS]\<rparr>) - rtc_calls (power_on [] third_time_lucky False)) \<and>
     main_rtc_init (power_on [] third_time_lucky False) =
       (if CY_RTC_SUCCESS \<noteq> CY_RTC_SUCCESS then handle_error ((power_on [] third_time_lucky False)
        \<lparr>rtc_calls := 3,
          trace := [RTC_Init, SysLib_Delay INIT_DELAY_MS, RTC_Init, SysLib_Delay INIT_DELAY_MS,
                    RTC_Init, SysLib_Delay INIT_DELAY_MS]\<rparr>) else (power_on [] third_time_lucky False)
        \<lparr>rtc_calls := 3,
          trace := [RTC_Init, SysLib_Delay INIT_DELAY_MS, RTC_Init, SysLib_Delay INIT_DELAY_MS,
                    RTC_Init, SysLib_Delay INIT_DELAY_MS]\<rparr>)"
    using claim rtc_init_third_time by blast
  let ?u = "power_on keys_good_time (\<lambda>k. CY_RTC_SUCCESS) False"
  let ?l = "''03 15 10 30 00 24''"
  let ?up = "Cy_SCB_UART_PutString MSG_ENTER_TIME ?u"
  let ?uq = "line_read ?up ?l []"
  have lw: "line_waiting ?up ?l (CHR 0x0A) [] INPUT_TIMEOUT_MS"
    by (simp add: line_waiting_def is_terminator_def keys_good_time_def power_on_def)
  have sp: "space_keys ?l = 5" by (simp add: space_keys_def)
  have f: "fetch_time_data zero_buffer INPUT_TIMEOUT_MS ?up =
      Some (CY_RSLT_SUCCESS, line_buffer ?l, MIN_SPACE_KEY_COUNT, ?uq)"
    using fetch_time_data_typed [OF lw] sp by (simp add: MIN_SPACE_KEY_COUNT_def)
  have sc: "sscanf sample_platform (line_buffer ?l) zero_vars =
      \<lparr>v_month = 3, v_mday = 15, v_hour = 10, v_min = 30, v_sec = 0, v_year = 24\<rparr>"
    by code_simp
  have c: "set_date_and_time_direct (sscanf sample_platform (line_buffer ?l) zero_vars) =
      RTC_SetDateAndTimeDirect 0 30 10 15 3 24"
    by (simp add: sc set_date_and_time_direct_def)
  have "fetch_time_data zero_buffer INPUT_TIMEOUT_MS ?up =
      Some (CY_RSLT_SUCCESS, line_buffer ?l, MIN_SPACE_KEY_COUNT, ?uq) \<and>
      CY_RSLT_SUCCESS \<noteq> CY_SCB_UART_RX_NO_DATA"
    using f by simp
  with claim have "\<exists>r w2. rtc_retry (set_date_and_time_direct
                   (sscanf sample_platform (line_buffer ?l) zero_vars)) MAX_ATTEMPTS ?uq
                   = (r, w2) \<and>
                retried (set_date_and_time_direct
                   (sscanf sample_platform (line_buffer ?l) zero_vars)) MAX_ATTEMPTS
                   ?uq r w2 (rtc_calls w2 - rtc_calls ?uq) \<and>
                set_new_time sample_platform zero_vars INPUT_TIMEOUT_MS ?u =
                  Some (if CY_RTC_SUCCESS \<noteq> r
                        then handle_error (Cy_SCB_UART_PutString MSG_INVALID_VALUES
                               (Cy_SCB_UART_PutString MSG_RTC_UPDATED w2))
                        else Cy_SCB_UART_PutString MSG_RTC_UPDATED w2)"
    by blast
  then have C: "\<exists>r w2. rtc_retry (RTC_SetDateAndTimeDirect 0 30 10 15 3 24) MAX_ATTEMPTS ?uq
                   = (r, w2) \<and>
                retried (RTC_SetDateAndTimeDirect 0 30 10 15 3 24) MAX_ATTEMPTS
                   ?uq r w2 (rtc_calls w2 - rtc_calls ?uq) \<and>
                set_new_time sample_platform zero_vars INPUT_TIMEOUT_MS ?u =
                  Some (if CY_RTC_SUCCESS \<noteq> r
                        then handle_error (Cy_SCB_UART_PutString MSG_INVALID_VALUES
                               (Cy_SCB_UART_PutString MSG_RTC_UPDATED w2))
                        else Cy_SCB_UART_PutString MSG_RTC_UPDATED w2)"
    unfolding c .
  have B': "retried RTC_Init MAX_ATTEMPTS (power_on [] third_time_lucky False) CY_RTC_SUCCESS
     ((power_on [] third_time_lucky False)
        \<lparr>rtc_calls := 3,
          trace := [RTC_Init, SysLib_Delay INIT_DELAY_MS, RTC_Init, SysLib_Delay INIT_DELAY_MS,
                    RTC_Init, SysLib_Delay INIT_DELAY_MS]\<rparr>) 3 \<and>
   main_rtc_init (power_on [] third_time_lucky False) =
     (power_on [] third_time_lucky False)
        \<lparr>rtc_calls := 3,
          trace := [RTC_Init, SysLib_Delay INIT_DELAY_MS, RTC_Init, SysLib_Delay INIT_DELAY_MS,
                    RTC_Init, SysLib_Delay INIT_DELAY_MS]\<rparr>"
    using B by (simp add: power_on_def)
  show ?thesis using run A B' C by blast
qed

end
